(* ===== verification/Proxy_Prelude.thy ===== *)
theory Proxy_Prelude
  imports Complex_Main "HOL-Library.Word" "HOL-Library.AList" "HOL-Library.Sublist"
    "HOL-Library.List_Lexorder" "HOL-Library.Char_ord"
begin

text \<open>
  What the component theories share: the machine-integer types of the source, Rust's byte strings
  and the standard-library operations on them that the source calls (\<open>strip_prefix\<close>, \<open>find\<close>, \<open>trim\<close>,
  \<open>join\<close>), the concurrent maps (\<open>DashMap\<close>, \<open>HashMap\<close>) as association lists without duplicate keys,
  clocks, and the lemma collections the proofs draw on.

  A Rust \<open>String\<close> is a sequence of UTF-8 bytes; HOL's \<^typ>\<open>char\<close> is a byte, so a \<^typ>\<open>string\<close> here is
  that byte sequence and \<^const>\<open>length\<close> is Rust's \<open>len()\<close>.
\<close>

section \<open>Collections of lemmas\<close>

named_theorems str_simps \<open>facts on byte strings\<close>
named_theorems dm_simps \<open>facts on association-list maps\<close>

section \<open>Types of the source\<close>

type_synonym u16 = "16 word"
type_synonym u32 = "32 word"
type_synonym u64 = "64 word"

text \<open>Nanoseconds on the monotonic clock; a \<open>Duration\<close> is a number of nanoseconds. Subtraction on
  \<^typ>\<open>nat\<close> stops at 0, as \<open>Instant::elapsed\<close> and \<open>Instant::duration_since\<close> do.\<close>

type_synonym instant = nat
type_synonym duration = nat

abbreviation from_secs :: "nat \<Rightarrow> duration" where
  "from_secs s \<equiv> s * 1000000000"

definition elapsed :: "instant \<Rightarrow> instant \<Rightarrow> duration" where
  "elapsed now t0 = now - t0"

section \<open>Byte strings\<close>

definition strip_prefix :: "string \<Rightarrow> string \<Rightarrow> string option" where
  "strip_prefix p s = (if take (length p) s = p then Some (drop (length p) s) else None)"

definition strip_suffix :: "string \<Rightarrow> string \<Rightarrow> string option" where
  "strip_suffix p s = map_option rev (strip_prefix (rev p) (rev s))"

definition starts_with :: "string \<Rightarrow> string \<Rightarrow> bool" where
  "starts_with s p = (take (length p) s = p)"

lemma starts_with_iff [str_simps]: "starts_with s p \<longleftrightarrow> (\<exists>r. s = p @ r)"
  unfolding starts_with_def by (metis append_eq_conv_conj append_take_drop_id)

lemma strip_prefix_Some [str_simps]: "strip_prefix p s = Some r \<longleftrightarrow> s = p @ r"
  unfolding strip_prefix_def by (metis append_eq_conv_conj append_take_drop_id option.inject option.distinct(1))

lemma strip_prefix_None: "strip_prefix p s = None \<longleftrightarrow> \<not> starts_with s p"
  by (simp add: strip_prefix_def starts_with_def)

text \<open>\<open>str::find\<close>: the least offset at which the needle occurs.\<close>

fun find_sub :: "string \<Rightarrow> string \<Rightarrow> nat option" where
  "find_sub n s =
     (if starts_with s n then Some 0
      else (case s of [] \<Rightarrow> None | _ # s' \<Rightarrow> map_option Suc (find_sub n s')))"

declare find_sub.simps [simp del]

lemma find_sub_Nil: "find_sub n [] = (if n = [] then Some 0 else None)"
  by (subst find_sub.simps) (simp add: starts_with_def)

lemma find_sub_Cons:
  "find_sub n (c # s) = (if starts_with (c # s) n then Some 0 else map_option Suc (find_sub n s))"
  by (subst find_sub.simps) simp

lemma find_sub_Some:
  "find_sub n s = Some i \<longleftrightarrow>
     i \<le> length s \<and> starts_with (drop i s) n \<and> (\<forall>j<i. \<not> starts_with (drop j s) n)"
proof (induction s arbitrary: i)
  case Nil
  then show ?case by (auto simp: find_sub_Nil starts_with_def)
next
  case (Cons c s)
  show ?case
  proof (cases i)
    case 0
    then show ?thesis by (simp add: find_sub_Cons)
  next
    case (Suc k)
    then show ?thesis using Cons.IH [of k]
      by (auto simp: find_sub_Cons less_Suc_eq_0_disj split: if_splits)
  qed
qed

lemma find_sub_None: "find_sub n s = None \<longleftrightarrow> (\<forall>j\<le>length s. \<not> starts_with (drop j s) n)"
proof (induction s)
  case Nil
  then show ?case by (auto simp: find_sub_Nil starts_with_def)
next
  case (Cons c s)
  have "(\<forall>j\<le>length (c # s). \<not> starts_with (drop j (c # s)) n) \<longleftrightarrow>
      \<not> starts_with (c # s) n \<and> (\<forall>j\<le>length s. \<not> starts_with (drop j s) n)"
    by (metis drop0 drop_Suc_Cons le_SucE length_Cons less_eq_Suc_le not_less_eq_eq old.nat.exhaust zero_le)
  then show ?case using Cons.IH by (simp add: find_sub_Cons)
qed

lemma find_sub_le:
  assumes "starts_with (drop j s) n" and "j \<le> length s"
  obtains i where "find_sub n s = Some i" and "i \<le> j"
proof -
  have "find_sub n s \<noteq> None" using assms by (auto simp: find_sub_None)
  then obtain i where i: "find_sub n s = Some i" by auto
  then have "i \<le> j" using assms(1) by (auto simp: find_sub_Some not_less [symmetric])
  with i show thesis by (rule that)
qed

text \<open>\<open>str::trim\<close> removes the characters of Unicode's \<open>White_Space\<close> property at both ends; these are
  their UTF-8 encodings.\<close>

abbreviation byte :: "nat \<Rightarrow> char" where
  "byte n \<equiv> char_of n"

definition white_space :: "string list" where
  "white_space =
     map (\<lambda>n. [byte n]) [9, 10, 11, 12, 13, 32] @
     map (\<lambda>n. [byte 194, byte n]) [133, 160] @
     [[byte 225, byte 154, byte 128]] @
     map (\<lambda>n. [byte 226, byte 128, byte n])
       [128, 129, 130, 131, 132, 133, 134, 135, 136, 137, 138, 168, 169, 175] @
     [[byte 226, byte 129, byte 159], [byte 227, byte 128, byte 128]]"

definition drop_ws :: "string list \<Rightarrow> string \<Rightarrow> string option" where
  "drop_ws ws s = Option.bind (find (starts_with s) ws) (\<lambda>w. strip_prefix w s)"

lemma drop_ws_shorter:
  assumes "[] \<notin> set ws" and "drop_ws ws s = Some r"
  shows "length r < length s"
proof -
  from assms(2) obtain w where "find (starts_with s) ws = Some w" and r: "strip_prefix w s = Some r"
    by (auto simp: drop_ws_def bind_eq_Some_conv)
  then have "w \<in> set ws" by (auto simp: find_Some_iff)
  with assms(1) have "w \<noteq> []" by auto
  with r show ?thesis by (auto simp: strip_prefix_Some)
qed

function trim_by :: "string list \<Rightarrow> string \<Rightarrow> string" where
  "trim_by ws s =
     (if [] \<in> set ws then s
      else (case drop_ws ws s of None \<Rightarrow> s | Some r \<Rightarrow> trim_by ws r))"
  by pat_completeness auto
termination
  by (relation "measure (\<lambda>(ws, s). length s)") (auto intro: drop_ws_shorter)

declare trim_by.simps [simp del]

definition trim_start :: "string \<Rightarrow> string" where
  "trim_start s = trim_by white_space s"

definition trim_end :: "string \<Rightarrow> string" where
  "trim_end s = rev (trim_by (map rev white_space) (rev s))"

definition trim :: "string \<Rightarrow> string" where
  "trim s = trim_end (trim_start s)"

lemma trim_by_suffix: "\<exists>p. s = p @ trim_by ws s"
proof (induction ws s rule: trim_by.induct)
  case (1 ws s)
  show ?case
  proof (cases "[] \<in> set ws \<or> drop_ws ws s = None")
    case True
    then show ?thesis by (auto simp: trim_by.simps [of ws s])
  next
    case False
    then obtain r where r: "[] \<notin> set ws" "drop_ws ws s = Some r" by auto
    with 1 obtain p where p: "r = p @ trim_by ws r" by blast
    from r(2) obtain w where "s = w @ r"
      by (auto simp: drop_ws_def bind_eq_Some_conv strip_prefix_Some)
    then have "s = (w @ p) @ trim_by ws r" using p by simp
    moreover have "trim_by ws s = trim_by ws r" using r by (simp add: trim_by.simps [of ws s])
    ultimately show ?thesis by metis
  qed
qed

lemma trim_by_stable: "[] \<notin> set ws \<Longrightarrow> drop_ws ws (trim_by ws s) = None"
proof (induction ws s rule: trim_by.induct)
  case (1 ws s)
  then show ?case by (cases "drop_ws ws s") (simp_all add: trim_by.simps [of ws s])
qed

lemma drop_ws_None: "drop_ws ws s = None \<longleftrightarrow> (\<forall>w\<in>set ws. \<not> starts_with s w)"
proof (cases "find (starts_with s) ws")
  case None
  then have "drop_ws ws s = None" by (simp add: drop_ws_def)
  with None show ?thesis by (auto simp: find_None_iff)
next
  case (Some w)
  then have "w \<in> set ws" "starts_with s w" by (auto simp: find_Some_iff)
  moreover from this have "strip_prefix w s \<noteq> None" by (simp add: strip_prefix_None)
  ultimately show ?thesis using Some by (auto simp: drop_ws_def)
qed

lemma drop_ws_prefix: "drop_ws ws (s @ r) = None \<Longrightarrow> drop_ws ws s = None"
  by (auto simp: drop_ws_None starts_with_iff)

lemma white_space_nonempty: "[] \<notin> set white_space" "[] \<notin> set (map rev white_space)"
  by (auto simp: white_space_def)

lemma trim_idem [simp]: "trim (trim s) = trim s"
proof -
  let ?a = "trim_start s"
  obtain p where "rev ?a = p @ trim_by (map rev white_space) (rev ?a)" using trim_by_suffix by blast
  then have a: "?a = trim s @ rev p" by (metis rev_append rev_rev_ident trim_def trim_end_def)
  have "drop_ws white_space ?a = None"
    unfolding trim_start_def by (rule trim_by_stable [OF white_space_nonempty(1)])
  then have "drop_ws white_space (trim s) = None"
    using a by (metis drop_ws_prefix)
  then have start: "trim_start (trim s) = trim s"
    by (simp add: trim_start_def trim_by.simps)
  have "drop_ws (map rev white_space) (rev (trim s)) = None"
    unfolding trim_def trim_end_def rev_rev_ident by (rule trim_by_stable [OF white_space_nonempty(2)])
  then have "trim_end (trim s) = trim s"
    by (simp add: trim_end_def trim_by.simps)
  with start show ?thesis by (simp add: trim_def [of "trim s"])
qed

text \<open>A string that begins and ends with a visible ASCII character has nothing to trim.\<close>

definition graphic :: "char \<Rightarrow> bool" where
  "graphic c = (32 < (of_char c :: nat) \<and> (of_char c :: nat) < 127)"

lemma white_space_invisible:
  "w \<in> set white_space \<Longrightarrow> \<not> graphic (hd w)" "w \<in> set (map rev white_space) \<Longrightarrow> \<not> graphic (hd w)"
  by (auto simp: white_space_def graphic_def)

lemma trim_by_graphic:
  assumes "[] \<notin> set ws" "\<And>w. w \<in> set ws \<Longrightarrow> \<not> graphic (hd w)" "graphic (hd s)"
  shows "trim_by ws s = s"
proof -
  have "\<not> starts_with s w" if "w \<in> set ws" for w
    using assms(1,3) assms(2) [OF that] that by (cases w) (auto simp: starts_with_iff)
  then have "drop_ws ws s = None" by (simp add: drop_ws_None)
  then show ?thesis by (simp add: trim_by.simps [of ws s])
qed

lemma trim_graphic: "graphic (hd s) \<Longrightarrow> graphic (hd (rev s)) \<Longrightarrow> trim s = s"
  unfolding trim_def trim_end_def trim_start_def
  by (simp add: trim_by_graphic white_space_nonempty white_space_invisible del: set_map)

text \<open>A character of a valid string starts at a byte that is no continuation byte.\<close>

definition is_continuation :: "char \<Rightarrow> bool" where
  "is_continuation c = (128 \<le> (of_char c :: nat) \<and> (of_char c :: nat) < 192)"

text \<open>\<open>[String]::join\<close>.\<close>

fun join :: "string \<Rightarrow> string list \<Rightarrow> string" where
  "join sep [] = []"
| "join sep [x] = x"
| "join sep (x # y # ys) = x @ sep @ join sep (y # ys)"

lemma join_Nil_sep [simp]: "join [] xs = concat xs"
  by (induction "[]::string" xs rule: join.induct) auto

text \<open>The decimal rendering of a number by \<open>format!\<close> and \<open>to_string\<close>.\<close>

fun show_nat :: "nat \<Rightarrow> string" where
  "show_nat n = (if n < 10 then [char_of (48 + n)]
     else show_nat (n div 10) @ [char_of (48 + n mod 10)])"

declare show_nat.simps [simp del]

abbreviation newline :: string where
  "newline \<equiv> [CHR 0x0A]"

section \<open>Concurrent maps\<close>

text \<open>
  A \<open>DashMap\<close> or \<open>HashMap\<close> is an association list with distinct keys; the order of the list is the
  order in which the map's iterator happens to yield the entries, which no theorem relies on.
\<close>

type_synonym ('k, 'v) dmap = "('k \<times> 'v) list"

abbreviation dm_get :: "('k, 'v) dmap \<Rightarrow> 'k \<Rightarrow> 'v option" where
  "dm_get \<equiv> map_of"

definition dm_wf :: "('k, 'v) dmap \<Rightarrow> bool" where
  "dm_wf m = distinct (map fst m)"

definition dm_insert :: "'k \<Rightarrow> 'v \<Rightarrow> ('k, 'v) dmap \<Rightarrow> ('k, 'v) dmap" where
  "dm_insert = AList.update"

definition dm_remove :: "'k \<Rightarrow> ('k, 'v) dmap \<Rightarrow> ('k, 'v) dmap" where
  "dm_remove = AList.delete"

text \<open>\<open>entry(k).or_insert_with(d)\<close> read back as a value.\<close>

definition dm_get_or :: "('k, 'v) dmap \<Rightarrow> 'k \<Rightarrow> 'v \<Rightarrow> 'v" where
  "dm_get_or m k d = (case dm_get m k of Some v \<Rightarrow> v | None \<Rightarrow> d)"

lemma dm_get_insert [simp, dm_simps]: "dm_get (dm_insert k v m) k' = (if k' = k then Some v else dm_get m k')"
  by (simp add: dm_insert_def update_conv')

lemma dm_get_remove [simp, dm_simps]: "dm_get (dm_remove k m) k' = (if k' = k then None else dm_get m k')"
  by (simp add: dm_remove_def delete_conv')

lemma dm_wf_empty [simp]: "dm_wf []"
  by (simp add: dm_wf_def)

lemma dm_wf_insert [simp]: "dm_wf m \<Longrightarrow> dm_wf (dm_insert k v m)"
  by (simp add: dm_wf_def dm_insert_def distinct_update)

lemma dm_wf_remove [simp]: "dm_wf m \<Longrightarrow> dm_wf (dm_remove k m)"
  by (simp add: dm_wf_def dm_remove_def distinct_delete)

lemma dm_get_in_set: "dm_wf m \<Longrightarrow> dm_get m k = Some v \<longleftrightarrow> (k, v) \<in> set m"
  unfolding dm_wf_def by (rule map_of_eq_Some_iff)

lemma length_dm_remove:
  "dm_wf m \<Longrightarrow> length (dm_remove k m) = (if dm_get m k = None then length m else length m - 1)"
  unfolding dm_wf_def dm_remove_def
  by (induction m) (auto simp: map_of_eq_None_iff rev_image_eqI dest: length_pos_if_in_set)

lemma length_dm_insert:
  "length (dm_insert k v m) = (if dm_get m k = None then Suc (length m) else length m)"
  unfolding dm_insert_def by (induction m) auto

lemma dm_get_or_insert [simp]: "dm_get_or (dm_insert k v m) k' d = (if k' = k then v else dm_get_or m k' d)"
  by (simp add: dm_get_or_def)

text \<open>A property of all the values of a map.\<close>

lemma dm_values_insert:
  "list_all (\<lambda>(_, v). P v) m \<Longrightarrow> P v \<Longrightarrow> list_all (\<lambda>(_, v). P v) (dm_insert k v m)"
  unfolding dm_insert_def by (induction m) auto

lemma dm_values_remove:
  "list_all (\<lambda>(_, v). P v) m \<Longrightarrow> list_all (\<lambda>(_, v). P v) (dm_remove k m)"
  unfolding dm_remove_def by (induction m) auto

lemma dm_values_get: "list_all (\<lambda>(_, v). P v) m \<Longrightarrow> dm_get m k = Some v \<Longrightarrow> P v"
  by (auto simp: list_all_iff dest: map_of_SomeD)

section \<open>Components as machines\<close>

text \<open>
  A component is a state and operations on it; an invariant that every operation keeps holds after
  every run, and a relation between states that every operation respects relates the ends of a run.
\<close>

locale machine =
  fixes exec :: "'op \<Rightarrow> 's \<Rightarrow> 's" and inv :: "'s \<Rightarrow> bool"
  assumes exec_inv: "inv s \<Longrightarrow> inv (exec op s)"
begin

lemma run_inv: "inv s \<Longrightarrow> inv (fold exec ops s)"
  by (induction ops arbitrary: s) (simp_all add: exec_inv)

lemma run_preserves:
  assumes "inv s" and "P s" and "\<And>op s. op \<in> set ops \<Longrightarrow> inv s \<Longrightarrow> P s \<Longrightarrow> P (exec op s)"
  shows "P (fold exec ops s)"
  using assms by (induction ops arbitrary: s) (simp_all add: exec_inv)

end

end
