(* ===== verification/Think_Tags.thy ===== *)
theory Think_Tags
  imports Proxy_Prelude
begin

text \<open>
  The think-tag scanner of \<open>src/response_normalize.rs\<close>: the streaming accumulator that splits model
  output into visible text and hidden reasoning, and the one-shot extraction built on it.
  The locale \<open>tag_set\<close> states what the scanner needs of its tag pairs; inside it the scanner is shown
  to compute the same split as a character-by-character reference, however the input is cut into
  chunks. The built-in pairs of the source are its interpretation.
\<close>

section \<open>The accumulator\<close>

datatype think_event = Reasoning string | Text string | Pending

datatype tag_state = InText | InReasoning

datatype tag_kind = OpenTag | CloseTag

type_synonym tag_pairs = "(string \<times> string) list"

record accumulator =
  acc_pairs :: tag_pairs
  acc_state :: tag_state
  acc_pending :: string
  acc_longest_tag :: nat
  acc_tag_count :: nat

definition builtin_think_pairs :: tag_pairs where
  "builtin_think_pairs = [(''<think>'', ''</think>''), (''<thinking>'', ''</thinking>'')]"

definition longest_tag_of :: "tag_pairs \<Rightarrow> nat" where
  "longest_tag_of ps = foldr max (map (\<lambda>(op, cl). max (length op) (length cl)) ps) 0"

definition acc_new :: "tag_pairs \<Rightarrow> accumulator" where
  "acc_new ps =
     \<lparr>acc_pairs = ps, acc_state = InText, acc_pending = [],
      acc_longest_tag = longest_tag_of ps, acc_tag_count = 0\<rparr>"

definition in_reasoning :: "accumulator \<Rightarrow> bool" where
  "in_reasoning acc = (acc_state acc = InReasoning)"

subsection \<open>find_next_tag\<close>

type_synonym tag_match = "nat \<times> string \<times> tag_kind"

definition replaces :: "tag_match option \<Rightarrow> nat \<Rightarrow> string \<Rightarrow> bool" where
  "replaces best idx needle =
     (case best of None \<Rightarrow> True
      | Some (b, best_tag, _) \<Rightarrow> idx < b \<or> (idx = b \<and> length best_tag < length needle))"

definition try_needle ::
  "tag_state \<Rightarrow> string \<Rightarrow> string \<times> tag_kind \<Rightarrow> tag_match option \<Rightarrow> tag_match option" where
  "try_needle st pend nk best =
     (case nk of (needle, kind) \<Rightarrow>
        if needle = [] then best
        else if kind = CloseTag \<and> st = InText then best
        else (case find_sub needle pend of
                None \<Rightarrow> best
              | Some idx \<Rightarrow> if replaces best idx needle then Some (idx, needle, kind) else best))"

definition try_pair ::
  "tag_state \<Rightarrow> string \<Rightarrow> string \<times> string \<Rightarrow> tag_match option \<Rightarrow> tag_match option" where
  "try_pair st pend pr best =
     (case pr of (op, cl) \<Rightarrow>
        if op = [] then best
        else try_needle st pend (cl, CloseTag) (try_needle st pend (op, OpenTag) best))"

definition find_next_tag :: "accumulator \<Rightarrow> tag_match option" where
  "find_next_tag acc = fold (try_pair (acc_state acc) (acc_pending acc)) (acc_pairs acc) None"

text \<open>The tags that can match in a state, in the order the loop tries them.\<close>

definition pair_needles :: "string \<times> string \<Rightarrow> (string \<times> tag_kind) list" where
  "pair_needles pr =
     (case pr of (op, cl) \<Rightarrow> if op = [] then [] else [(op, OpenTag), (cl, CloseTag)])"

definition active_tags :: "tag_pairs \<Rightarrow> tag_state \<Rightarrow> (string \<times> tag_kind) list" where
  "active_tags ps st =
     filter (\<lambda>(t, k). t \<noteq> [] \<and> \<not> (k = CloseTag \<and> st = InText)) (concat (map pair_needles ps))"

definition tag_at :: "tag_pairs \<Rightarrow> tag_state \<Rightarrow> string \<Rightarrow> (string \<times> tag_kind) option" where
  "tag_at ps st s = find (\<lambda>(t, k). starts_with s t) (active_tags ps st)"

lemma active_tags_Nil [simp]: "active_tags [] st = []"
  by (simp add: active_tags_def)

lemma active_tags_Cons:
  "active_tags (pr # ps) st =
     filter (\<lambda>(t, k). t \<noteq> [] \<and> \<not> (k = CloseTag \<and> st = InText)) (pair_needles pr) @ active_tags ps st"
  by (simp add: active_tags_def)

definition try_active :: "string \<Rightarrow> string \<times> tag_kind \<Rightarrow> tag_match option \<Rightarrow> tag_match option" where
  "try_active pend nk best =
     (case nk of (needle, kind) \<Rightarrow>
        (case find_sub needle pend of
           None \<Rightarrow> best
         | Some idx \<Rightarrow> if replaces best idx needle then Some (idx, needle, kind) else best))"

lemma fold_try_pair:
  "fold (try_pair st pend) ps best = fold (try_active pend) (active_tags ps st) best"
proof (induction ps arbitrary: best)
  case Nil
  then show ?case by simp
next
  case (Cons pr ps)
  have "try_pair st pend pr best =
      fold (try_active pend)
        (filter (\<lambda>(t, k). t \<noteq> [] \<and> \<not> (k = CloseTag \<and> st = InText)) (pair_needles pr)) best"
    by (cases pr) (auto simp: try_pair_def try_needle_def try_active_def pair_needles_def)
  then show ?case by (simp add: Cons.IH active_tags_Cons)
qed

lemma active_tags_nonempty: "(t, k) \<in> set (active_tags ps st) \<Longrightarrow> t \<noteq> []"
  by (auto simp: active_tags_def)

lemma tag_at_in: "tag_at ps st s = Some (t, k) \<Longrightarrow> (t, k) \<in> set (active_tags ps st) \<and> starts_with s t"
  unfolding tag_at_def find_Some_iff by (metis (mono_tags, lifting) case_prod_conv nth_mem)

text \<open>What the search keeps about the tags it has tried: the best match is the leftmost one.\<close>

definition best_of :: "string \<Rightarrow> (string \<times> tag_kind) list \<Rightarrow> tag_match option \<Rightarrow> bool" where
  "best_of pend tags best =
     (case best of
        None \<Rightarrow> \<forall>(t, k)\<in>set tags. find_sub t pend = None
      | Some (i, t, k) \<Rightarrow>
          (t, k) \<in> set tags \<and> find_sub t pend = Some i \<and>
          (\<forall>(u, l)\<in>set tags. \<forall>j. find_sub u pend = Some j \<longrightarrow> i < j \<or> i = j \<and> length u \<le> length t))"

lemma best_of_step:
  assumes "best_of pend tags best"
  shows "best_of pend (tags @ [(u, l)]) (try_active pend (u, l) best)"
proof (cases "find_sub u pend")
  case None
  with assms show ?thesis
    by (cases best) (auto simp: best_of_def try_active_def)
next
  case (Some j)
  show ?thesis
  proof (cases best)
    case None
    with Some assms show ?thesis by (auto simp: best_of_def try_active_def replaces_def)
  next
    case best: (Some m)
    obtain i t k where m: "m = (i, t, k)" by (cases m)
    have "\<forall>(v, l')\<in>set tags. \<forall>n. find_sub v pend = Some n \<longrightarrow> i < n \<or> i = n \<and> length v \<le> length t"
      using assms best m by (simp add: best_of_def)
    then show ?thesis
      using Some assms best m
      by (fastforce simp: best_of_def try_active_def replaces_def)
  qed
qed

lemma best_of_fold: "best_of pend tags (fold (try_active pend) tags None)"
proof (induction tags rule: rev_induct)
  case Nil
  then show ?case by (simp add: best_of_def)
next
  case (snoc x xs)
  then show ?case by (cases x) (simp add: best_of_step)
qed

lemma find_next_tag_best:
  "best_of (acc_pending acc) (active_tags (acc_pairs acc) (acc_state acc)) (find_next_tag acc)"
  by (simp add: find_next_tag_def fold_try_pair best_of_fold)

lemma find_sub_drop_starts: "find_sub n s = Some i \<Longrightarrow> starts_with (drop i s) n \<and> i + length n \<le> length s"
  by (auto simp: find_sub_Some starts_with_iff) (metis length_append length_drop le_diff_conv2 le_add1 add.commute)

lemma find_next_tag_SomeD:
  assumes "find_next_tag acc = Some (i, t, k)"
  shows "(t, k) \<in> set (active_tags (acc_pairs acc) (acc_state acc))"
    and "t \<noteq> []"
    and "starts_with (drop i (acc_pending acc)) t"
    and "i + length t \<le> length (acc_pending acc)"
  using find_next_tag_best [of acc] assms find_sub_drop_starts
  by (auto simp: best_of_def dest: active_tags_nonempty)

lemma find_next_tag_None:
  "find_next_tag acc = None \<longleftrightarrow>
     (\<forall>(t, k)\<in>set (active_tags (acc_pairs acc) (acc_state acc)). find_sub t (acc_pending acc) = None)"
  using find_next_tag_best [of acc] by (cases "find_next_tag acc") (fastforce simp: best_of_def)+

lemma find_sub_None_suffix: "find_sub t (a @ b) = None \<Longrightarrow> find_sub t b = None"
proof -
  assume "find_sub t (a @ b) = None"
  then have "\<not> starts_with (drop (length a + j) (a @ b)) t" if "j \<le> length b" for j
    using that by (simp add: find_sub_None del: drop_append)
  then show ?thesis by (simp add: find_sub_None)
qed

subsection \<open>hold_partial_tail\<close>

text \<open>A byte \<open>0b10xxxxxx\<close> continues a UTF-8 character; \<open>char_indices\<close> yields the other offsets, and the
  prefixes that \<open>tail.chars()\<close> walks end where the next character starts.\<close>

definition char_starts :: "string \<Rightarrow> nat list" where
  "char_starts s = filter (\<lambda>i. \<not> is_continuation (s ! i)) [0..<length s]"

definition char_ends :: "string \<Rightarrow> nat list" where
  "char_ends s = filter (\<lambda>e. e = length s \<or> \<not> is_continuation (s ! e)) [1..<Suc (length s)]"

definition tag_prefix :: "tag_pairs \<Rightarrow> string \<Rightarrow> bool" where
  "tag_prefix ps sub =
     list_ex (\<lambda>(op, cl). op \<noteq> [] \<and>
        list_ex (\<lambda>needle. needle \<noteq> [] \<and> starts_with needle sub) [op, cl]) ps"

definition tail_matches :: "tag_pairs \<Rightarrow> string \<Rightarrow> bool" where
  "tail_matches ps rest = list_ex (\<lambda>e. tag_prefix ps (take e rest)) (char_ends rest)"

fun scan_tail :: "tag_pairs \<Rightarrow> string \<Rightarrow> nat \<Rightarrow> nat list \<Rightarrow> nat option" where
  "scan_tail ps pend min_pos [] = None"
| "scan_tail ps pend min_pos (pos # rest) =
     (if pos < min_pos then None
      else if tail_matches ps (drop pos pend) then Some pos
      else scan_tail ps pend min_pos rest)"

definition best_pos :: "accumulator \<Rightarrow> nat option" where
  "best_pos acc =
     (let max_keep = acc_longest_tag acc - 1;
          min_pos = length (acc_pending acc) - max_keep
      in scan_tail (acc_pairs acc) (acc_pending acc) min_pos (rev (char_starts (acc_pending acc))))"

definition hold_partial_tail :: "accumulator \<Rightarrow> string \<times> accumulator" where
  "hold_partial_tail acc =
     (if acc_pending acc = [] \<or> acc_longest_tag acc = 0
      then (acc_pending acc, acc\<lparr>acc_pending := []\<rparr>)
      else (case best_pos acc of
              None \<Rightarrow> (acc_pending acc, acc\<lparr>acc_pending := []\<rparr>)
            | Some pos \<Rightarrow>
                (if pos = 0 then ([], acc)
                 else (take pos (acc_pending acc), acc\<lparr>acc_pending := drop pos (acc_pending acc)\<rparr>))))"

subsection \<open>drain_resolved, feed and flush\<close>

definition side_event :: "tag_state \<Rightarrow> string \<Rightarrow> think_event list" where
  "side_event st s =
     (if s = [] then [] else [case st of InText \<Rightarrow> Text s | InReasoning \<Rightarrow> Reasoning s])"

definition state_after :: "tag_kind \<Rightarrow> tag_state" where
  "state_after k = (case k of OpenTag \<Rightarrow> InReasoning | CloseTag \<Rightarrow> InText)"

definition consume_tag :: "accumulator \<Rightarrow> nat \<Rightarrow> string \<Rightarrow> tag_kind \<Rightarrow> accumulator" where
  "consume_tag acc pos tag kind =
     acc\<lparr>acc_pending := drop (length tag) (drop pos (acc_pending acc)),
         acc_tag_count := acc_tag_count acc + 1,
         acc_state := state_after kind\<rparr>"

lemma consume_tag_shorter:
  assumes "find_next_tag acc = Some (pos, tag, kind)"
  shows "length (acc_pending (consume_tag acc pos tag kind)) < length (acc_pending acc)"
proof -
  have "0 < length tag" "pos + length tag \<le> length (acc_pending acc)"
    using find_next_tag_SomeD [OF assms] by auto
  then show ?thesis by (simp add: consume_tag_def del: length_greater_0_conv)
qed

function drain_resolved :: "accumulator \<Rightarrow> think_event list \<times> accumulator" where
  "drain_resolved acc =
     (case find_next_tag acc of
        None \<Rightarrow>
          (let (flushed, acc') = hold_partial_tail acc
           in (side_event (acc_state acc) flushed @ (if acc_pending acc' = [] then [] else [Pending]),
               acc'))
      | Some (pos, tag, kind) \<Rightarrow>
          (let pre = take pos (acc_pending acc);
               (evs, acc') = drain_resolved (consume_tag acc pos tag kind)
           in (side_event (acc_state acc) pre @ evs, acc')))"
  by pat_completeness auto
termination
  by (relation "measure (\<lambda>acc. length (acc_pending acc))")
    (auto intro: consume_tag_shorter)

declare drain_resolved.simps [simp del]

lemma drain_None:
  "find_next_tag acc = None \<Longrightarrow>
     drain_resolved acc =
       (side_event (acc_state acc) (fst (hold_partial_tail acc)) @
          (if acc_pending (snd (hold_partial_tail acc)) = [] then [] else [Pending]),
        snd (hold_partial_tail acc))"
  by (subst drain_resolved.simps) (simp add: case_prod_beta)

lemma drain_Some:
  "find_next_tag acc = Some (i, t, k) \<Longrightarrow>
     drain_resolved acc =
       apfst ((@) (side_event (acc_state acc) (take i (acc_pending acc)))) (drain_resolved (consume_tag acc i t k))"
  by (subst drain_resolved.simps) (simp add: case_prod_beta apfst_def map_prod_def)

lemma drain_induct [case_names held tag]:
  assumes "\<And>acc. find_next_tag acc = None \<Longrightarrow> P acc"
    and "\<And>acc i t k. find_next_tag acc = Some (i, t, k) \<Longrightarrow> P (consume_tag acc i t k) \<Longrightarrow> P acc"
  shows "P acc"
proof (induction acc rule: drain_resolved.induct)
  case (1 acc)
  then show ?case using assms by (cases "find_next_tag acc") auto
qed

definition feed :: "accumulator \<Rightarrow> string \<Rightarrow> think_event list \<times> accumulator" where
  "feed acc delta = drain_resolved (acc\<lparr>acc_pending := acc_pending acc @ delta\<rparr>)"

definition flush :: "accumulator \<Rightarrow> string \<times> accumulator" where
  "flush acc = (acc_pending acc, acc\<lparr>acc_pending := []\<rparr>)"

text \<open>Feeding a stream of deltas, one after the other.\<close>

fun feed_all :: "accumulator \<Rightarrow> string list \<Rightarrow> think_event list \<times> accumulator" where
  "feed_all acc [] = ([], acc)"
| "feed_all acc (d # ds) =
     (let (evs, acc') = feed acc d; (evs', acc'') = feed_all acc' ds in (evs @ evs', acc''))"

subsection \<open>extract_think_tags\<close>

text \<open>The loop over the events: \<open>(reasoning, text, saw_reasoning)\<close>.\<close>

fun collect_event :: "think_event \<Rightarrow> string \<times> string \<times> bool \<Rightarrow> string \<times> string \<times> bool" where
  "collect_event (Reasoning s) (r, t, saw) =
     ((if r \<noteq> [] \<and> s \<noteq> [] then r @ newline else r) @ s, t, True)"
| "collect_event (Text s) (r, t, saw) = (r, t @ s, saw)"
| "collect_event Pending (r, t, saw) = (r, t, saw)"

definition extract_think_tags :: "string \<Rightarrow> tag_pairs \<Rightarrow> string option \<times> string" where
  "extract_think_tags content ps =
     (let (events, acc) = feed (acc_new ps) content;
          (r, t, saw) = fold collect_event events ([], [], False);
          (flushed, acc') = flush acc;
          (r, t, saw) =
            (if flushed \<noteq> []
             then (if in_reasoning acc'
                   then ((if r \<noteq> [] then r @ newline else r) @ flushed, t, True)
                   else (r, t @ flushed, saw))
             else (r, t, saw))
      in (if saw \<or> acc_tag_count acc' > 0 then Some r else None, t))"

section \<open>The reference split\<close>

text \<open>
  The intended result, independent of chunks and buffers: walk the whole input, drop a tag where one
  starts (switching sides), otherwise put the byte on the current side. The result lists every
  surviving byte with its side, and the side at the end.
\<close>

function split_ref :: "tag_pairs \<Rightarrow> tag_state \<Rightarrow> string \<Rightarrow> (tag_state \<times> char) list \<times> tag_state" where
  "split_ref ps st s =
     (case s of
        [] \<Rightarrow> ([], st)
      | c # s' \<Rightarrow>
          (case tag_at ps st s of
             Some (t, k) \<Rightarrow> split_ref ps (state_after k) (drop (length t) s)
           | None \<Rightarrow> apfst (Cons (st, c)) (split_ref ps st s')))"
  by pat_completeness auto
termination
proof (relation "measure (\<lambda>(ps, st, s). length s)")
  fix ps st s c s' m t k
  assume "s = c # s'" "tag_at ps st s = Some m" "(t, k) = m"
  then have "t \<noteq> []" by (auto dest!: tag_at_in active_tags_nonempty)
  then have "0 < length t" by simp
  with \<open>s = c # s'\<close> show "((ps, state_after k, drop (length t) s), ps, st, s) \<in> measure (\<lambda>(ps, st, s). length s)"
    by (simp del: length_greater_0_conv)
qed auto

declare split_ref.simps [simp del]

definition on_side :: "tag_state \<Rightarrow> string \<Rightarrow> (tag_state \<times> char) list" where
  "on_side st s = map (Pair st) s"

fun event_bytes :: "think_event \<Rightarrow> (tag_state \<times> char) list" where
  "event_bytes (Text s) = on_side InText s"
| "event_bytes (Reasoning s) = on_side InReasoning s"
| "event_bytes Pending = []"

definition events_bytes :: "think_event list \<Rightarrow> (tag_state \<times> char) list" where
  "events_bytes evs = concat (map event_bytes evs)"

definition side :: "tag_state \<Rightarrow> (tag_state \<times> char) list \<Rightarrow> string" where
  "side st xs = map snd (filter (\<lambda>x. fst x = st) xs)"

lemma events_bytes_simps [simp]:
  "events_bytes [] = []"
  "events_bytes (xs @ ys) = events_bytes xs @ events_bytes ys"
  "events_bytes (side_event st s) = on_side st s"
  "events_bytes [Pending] = []"
  by (cases st; simp add: events_bytes_def side_event_def on_side_def)+

lemma split_ref_Nil [simp]: "split_ref ps st [] = ([], st)"
  by (subst split_ref.simps) simp

lemma split_ref_tag:
  "tag_at ps st s = Some (t, k) \<Longrightarrow> s \<noteq> [] \<Longrightarrow>
     split_ref ps st s = split_ref ps (state_after k) (drop (length t) s)"
  by (subst split_ref.simps) (auto split: list.splits)

lemma split_ref_no_tag:
  "tag_at ps st (c # s) = None \<Longrightarrow> split_ref ps st (c # s) = apfst (Cons (st, c)) (split_ref ps st s)"
  by (subst split_ref.simps) simp

lemma tag_at_None: "tag_at ps st s = None \<longleftrightarrow> (\<forall>(t, k)\<in>set (active_tags ps st). \<not> starts_with s t)"
  by (auto simp: tag_at_def find_None_iff)

text \<open>Where no tag starts, the split copies.\<close>

lemma split_ref_skip:
  assumes "k \<le> length s" and "\<forall>j<k. tag_at ps st (drop j s) = None"
  shows "split_ref ps st s = apfst ((@) (on_side st (take k s))) (split_ref ps st (drop k s))"
  using assms
proof (induction k arbitrary: s)
  case 0
  then show ?case by (simp add: on_side_def prod_eq_iff)
next
  case (Suc k)
  then obtain c s' where s: "s = c # s'" by (cases s) auto
  from Suc.prems(2) have "tag_at ps st (c # s') = None" using s by force
  moreover have "\<forall>j<k. tag_at ps st (drop j s') = None"
    using Suc.prems(2) s by fastforce
  ultimately show ?case using Suc.IH [of s'] Suc.prems(1) s
    by (simp add: split_ref_no_tag on_side_def prod_eq_iff)
qed

section \<open>What the event loop collects\<close>

definition reasonings :: "think_event list \<Rightarrow> string list" where
  "reasonings evs = List.map_filter (\<lambda>e. case e of Reasoning s \<Rightarrow> Some s | _ \<Rightarrow> None) evs"

lemma reasonings_simps [simp]:
  "reasonings [] = []"
  "reasonings (Reasoning s # evs) = s # reasonings evs"
  "reasonings (Text s # evs) = reasonings evs"
  "reasonings (Pending # evs) = reasonings evs"
  by (simp_all add: reasonings_def map_filter_simps)

lemma side_simps [simp]:
  "side st [] = []"
  "side st (xs @ ys) = side st xs @ side st ys"
  "side st (on_side st' s) = (if st = st' then s else [])"
  by (auto simp: side_def on_side_def filter_map o_def)

lemma side_events_reasoning: "side InReasoning (events_bytes evs) = concat (reasonings evs)"
proof (induction evs)
  case (Cons e evs)
  then show ?case by (cases e) (auto simp: events_bytes_def)
qed simp

lemma join_snoc: "bs \<noteq> [] \<Longrightarrow> join sep (bs @ [x]) = join sep bs @ sep @ x"
  by (induction sep bs rule: join.induct) auto

lemma join_eq_Nil: "[] \<notin> set bs \<Longrightarrow> join sep bs = [] \<longleftrightarrow> bs = []"
  by (induction sep bs rule: join.induct) auto

lemma fold_collect_event:
  assumes "[] \<notin> set bs" and "[] \<notin> set (reasonings evs)"
  shows "fold collect_event evs (join newline bs, t, bs \<noteq> []) =
    (join newline (bs @ reasonings evs), t @ side InText (events_bytes evs), bs @ reasonings evs \<noteq> [])"
  using assms
proof (induction evs arbitrary: bs t)
  case Nil
  then show ?case by simp
next
  case (Cons e evs)
  show ?case
  proof (cases e)
    case (Reasoning s)
    with Cons.prems have s: "s \<noteq> []" "[] \<notin> set (bs @ [s])" by auto
    have "collect_event e (join newline bs, t, bs \<noteq> []) = (join newline (bs @ [s]), t, bs @ [s] \<noteq> [])"
      using s Reasoning Cons.prems(1) by (auto simp: join_snoc join_eq_Nil)
    with Cons.IH [of "bs @ [s]" t] s Cons.prems Reasoning show ?thesis
      by (simp add: events_bytes_def)
  next
    case (Text s)
    with Cons.IH [of bs "t @ s"] Cons.prems show ?thesis by (simp add: events_bytes_def)
  next
    case Pending
    with Cons.IH [of bs t] Cons.prems show ?thesis by (simp add: events_bytes_def)
  qed
qed

lemma reasonings_append [simp]: "reasonings (xs @ ys) = reasonings xs @ reasonings ys"
  by (simp add: reasonings_def map_filter_def)

lemma side_event_nonempty: "[] \<notin> set (reasonings (side_event st s))"
  by (cases st) (auto simp: side_event_def)

lemma drain_events_nonempty: "[] \<notin> set (reasonings (fst (drain_resolved acc)))"
  by (induction acc rule: drain_induct) (simp_all add: drain_None drain_Some side_event_nonempty)

lemma drain_tag_count:
  "acc_tag_count acc + (if find_next_tag acc = None then 0 else 1) \<le> acc_tag_count (snd (drain_resolved acc))"
proof (induction acc rule: drain_induct)
  case (held acc)
  then show ?case by (auto simp: drain_None hold_partial_tail_def split: option.splits)
next
  case (tag acc i t k)
  then have "acc_tag_count acc + 1 \<le> acc_tag_count (snd (drain_resolved (consume_tag acc i t k)))"
    by (simp add: consume_tag_def split: if_splits)
  with tag.hyps show ?case by (simp add: drain_Some)
qed

section \<open>Tag sets the scanner is correct for\<close>

lemma scan_tail_SomeD:
  "scan_tail ps pend m xs = Some q \<Longrightarrow> q \<in> set xs \<and> tail_matches ps (drop q pend)"
  by (induction xs) (auto split: if_splits)

lemma scan_tail_latest:
  "sorted_wrt (>) xs \<Longrightarrow> j \<in> set xs \<Longrightarrow> m \<le> j \<Longrightarrow> tail_matches ps (drop j pend) \<Longrightarrow>
     \<exists>q. scan_tail ps pend m xs = Some q \<and> j \<le> q"
  by (induction xs) (auto intro: less_imp_le)

lemma char_starts_descending: "sorted_wrt (>) (rev (char_starts s))"
  by (simp add: sorted_wrt_rev char_starts_def sorted_wrt_filter)

lemma set_char_starts: "j \<in> set (char_starts s) \<longleftrightarrow> j < length s \<and> \<not> is_continuation (s ! j)"
  by (auto simp: char_starts_def)

lemma hold_partial_tail_split:
  "hold_partial_tail acc = (fl, acc') \<Longrightarrow>
     acc_pending acc = fl @ acc_pending acc' \<and> acc' = acc\<lparr>acc_pending := acc_pending acc'\<rparr>"
  by (auto simp: hold_partial_tail_def split: if_splits option.splits)

text \<open>All tags that \<open>hold_partial_tail\<close> looks for, in either state.\<close>

definition needles :: "tag_pairs \<Rightarrow> string set" where
  "needles ps = {t. \<exists>op cl. (op, cl) \<in> set ps \<and> op \<noteq> [] \<and> t \<in> {op, cl} \<and> t \<noteq> []}"

lemma active_needles: "(t, k) \<in> set (active_tags ps st) \<Longrightarrow> t \<in> needles ps"
  by (auto simp: active_tags_def needles_def pair_needles_def split: if_splits)

lemma tag_prefix_iff: "tag_prefix ps s \<longleftrightarrow> (\<exists>t\<in>needles ps. starts_with t s)"
  by (auto simp: tag_prefix_def needles_def list_ex_iff; blast)

lemma needle_length: "t \<in> needles ps \<Longrightarrow> length t \<le> longest_tag_of ps"
  unfolding longest_tag_of_def
  by (induction ps) (auto simp: needles_def le_max_iff_disj)

text \<open>
  The laws: every tag starts with the byte \<open>c0\<close> and has it nowhere else, \<open>c0\<close> starts a character, and
  no tag is a proper prefix of another or both an opening and a closing tag.
\<close>

locale tag_set =
  fixes ps :: tag_pairs and c0 :: char
  assumes tag_head: "t \<in> needles ps \<Longrightarrow> \<exists>r. t = c0 # r \<and> c0 \<notin> set r"
    and head_start: "\<not> is_continuation c0"
    and prefix_free: "t \<in> needles ps \<Longrightarrow> u \<in> needles ps \<Longrightarrow> starts_with t u \<Longrightarrow> t = u"
    and one_kind: "(t, k) \<in> set (active_tags ps st) \<Longrightarrow> (t, l) \<in> set (active_tags ps st) \<Longrightarrow> k = l"
begin

definition ok :: "accumulator \<Rightarrow> bool" where
  "ok acc \<longleftrightarrow> acc_pairs acc = ps \<and> acc_longest_tag acc = longest_tag_of ps"

lemma starts_with_nth: "starts_with s t \<Longrightarrow> i < length t \<Longrightarrow> s ! i = t ! i"
  by (auto simp: starts_with_iff nth_append)

text \<open>A tag that starts before an occurrence of \<open>c0\<close> ends before it.\<close>

lemma no_straddle:
  assumes "t \<in> needles ps" and "starts_with (drop p s) t" and "p < q" and "q < length s" and "s ! q = c0"
  shows "p + length t \<le> q"
proof (rule ccontr)
  assume "\<not> ?thesis"
  then have lt: "q - p < length t" using assms(3) by simp
  obtain r where r: "t = c0 # r" "c0 \<notin> set r" using tag_head [OF assms(1)] by blast
  have "drop p s ! (q - p) = t ! (q - p)"
    using starts_with_nth [OF assms(2) lt] .
  then have "t ! (q - p) = c0" using assms(3-5) by simp
  moreover have "t ! (q - p) \<in> set r"
    using lt assms(3) r(1) by (cases "q - p") auto
  ultimately show False using r(2) by simp
qed

lemma starts_with_drop_append:
  "starts_with (drop p (a @ b)) t \<Longrightarrow> p + length t \<le> length a \<Longrightarrow> starts_with (drop p a) t"
  by (simp add: starts_with_def)

lemma starts_with_drop_appendI:
  "starts_with (drop p a) t \<Longrightarrow> p \<le> length a \<Longrightarrow> starts_with (drop p (a @ b)) t"
  by (auto simp: starts_with_iff)

lemma starts_with_both: "starts_with s t \<Longrightarrow> starts_with s u \<Longrightarrow> starts_with t u \<or> starts_with u t"
  by (auto simp: starts_with_iff append_eq_append_conv2)

lemma tag_at_eqI:
  assumes "(t, k) \<in> set (active_tags ps st)" and "starts_with s t"
  shows "tag_at ps st s = Some (t, k)"
proof -
  have "tag_at ps st s \<noteq> None" using assms by (auto simp: tag_at_None)
  then obtain u l where u: "tag_at ps st s = Some (u, l)" by auto
  then have ul: "(u, l) \<in> set (active_tags ps st)" "starts_with s u" using tag_at_in by blast+
  have "u = t"
    using starts_with_both [OF assms(2) ul(2)] prefix_free active_needles assms(1) ul(1) by metis
  with ul(1) assms(1) have "l = k" using one_kind by blast
  with u \<open>u = t\<close> show ?thesis by simp
qed

lemma tag_first_byte:
  assumes "t \<in> needles ps" and "starts_with (drop i s) t"
  shows "i < length s \<and> s ! i = c0"
proof -
  obtain r where r: "t = c0 # r" using tag_head [OF assms(1)] by blast
  with assms(2) have d: "drop i s = c0 # (r @ drop (length t) (drop i s))"
    by (metis append_Cons append_eq_conv_conj starts_with_iff)
  then have "i < length s" by (metis drop_eq_Nil leI list.distinct(1))
  with d show ?thesis by (metis Cons_nth_drop_Suc list.inject)
qed

text \<open>A complete tag in the buffer is found at its place whatever follows, and no tag starts before it.\<close>

lemma next_tag_resolved:
  assumes "ok acc" and "find_next_tag acc = Some (i, t, k)"
  shows "tag_at ps (acc_state acc) (drop i (acc_pending acc @ b)) = Some (t, k)"
    and "\<forall>j<i. tag_at ps (acc_state acc) (drop j (acc_pending acc @ b)) = None"
proof -
  let ?p = "acc_pending acc" and ?st = "acc_state acc"
  have ps: "acc_pairs acc = ps" using assms(1) by (simp add: ok_def)
  note f = find_next_tag_SomeD [OF assms(2), unfolded ps]
  have t_at: "starts_with (drop i (?p @ b)) t"
    using f(4) by (intro starts_with_drop_appendI [OF f(3)]) simp
  then show "tag_at ps ?st (drop i (?p @ b)) = Some (t, k)" using f(1) by (rule tag_at_eqI [rotated])
  show "\<forall>j<i. tag_at ps ?st (drop j (?p @ b)) = None"
  proof (intro allI impI, rule ccontr)
    fix j assume "j < i" and "tag_at ps ?st (drop j (?p @ b)) \<noteq> None"
    then obtain u l where "tag_at ps ?st (drop j (?p @ b)) = Some (u, l)" by auto
    then have u: "(u, l) \<in> set (active_tags ps ?st)" "starts_with (drop j (?p @ b)) u"
      using tag_at_in by blast+
    have "i < length (?p @ b) \<and> (?p @ b) ! i = c0"
      using tag_first_byte active_needles f(1) t_at by blast
    then have "j + length u \<le> i"
      using no_straddle u active_needles \<open>j < i\<close> by blast
    then have "starts_with (drop j ?p) u"
      using f(4) by (intro starts_with_drop_append [OF u(2)]) simp
    then obtain n where "find_sub u ?p = Some n" "n \<le> j"
      using find_sub_le \<open>j < i\<close> f(4) by (metis add_leD1 le_trans less_imp_le_nat)
    moreover have "\<forall>(u, l)\<in>set (active_tags ps ?st). \<forall>j. find_sub u ?p = Some j \<longrightarrow> i \<le> j"
      using find_next_tag_best [of acc] assms(2) ps by (fastforce simp: best_of_def)
    ultimately show False using u(1) \<open>j < i\<close> by fastforce
  qed
qed

text \<open>A tag that starts in the buffer and runs past its end is held from its first byte on.\<close>

lemma partial_tag_held:
  assumes "ok acc" and "t \<in> needles ps" and "j < length (acc_pending acc)"
    and "starts_with (drop j (acc_pending acc @ b)) t"
    and "length (acc_pending acc) < j + length t"
  shows "\<exists>q. best_pos acc = Some q \<and> j \<le> q"
proof -
  let ?p = "acc_pending acc" and ?d = "drop j (acc_pending acc)"
  have st: "starts_with t ?d"
    using assms(3-5) starts_with_both [of "drop j (?p @ b)" t ?d]
    by (auto simp: starts_with_iff dest: arg_cong [where f = length])
  have len: "1 \<le> length ?d" "length ?d < length t" using assms(3,5) by auto
  have "tag_prefix ps (take (length ?d) ?d)" using assms(2) st by (auto simp: tag_prefix_iff)
  moreover have "length ?d \<in> set (char_ends ?d)" using len(1) by (simp add: char_ends_def)
  ultimately have "tail_matches ps ?d" unfolding tail_matches_def list_ex_iff by blast
  moreover have "j \<in> set (rev (char_starts ?p))"
    using tag_first_byte [OF assms(2,4)] assms(3) head_start by (simp add: set_char_starts nth_append)
  moreover have "length ?p - (acc_longest_tag acc - 1) \<le> j"
    using needle_length [OF assms(2)] len(2) assms(1,3) by (auto simp: ok_def)
  ultimately show ?thesis
    using scan_tail_latest [OF char_starts_descending] assms(1)
    by (simp add: best_pos_def Let_def ok_def)
qed

lemma best_pos_first_byte:
  assumes "ok acc" and "best_pos acc = Some q"
  shows "q < length (acc_pending acc) \<and> acc_pending acc ! q = c0"
proof -
  have "q \<in> set (char_starts (acc_pending acc))" and m: "tail_matches ps (drop q (acc_pending acc))"
    using assms scan_tail_SomeD by (fastforce simp: best_pos_def Let_def ok_def)+
  then have q: "q < length (acc_pending acc)" by (simp add: set_char_starts)
  from m obtain e t where e: "1 \<le> e" "t \<in> needles ps" "starts_with t (take e (drop q (acc_pending acc)))"
    by (auto simp: tail_matches_def list_ex_iff tag_prefix_iff char_ends_def)
  obtain r where "t = c0 # r" using tag_head [OF e(2)] by blast
  moreover have "0 < length (take e (drop q (acc_pending acc)))" using e(1) q by simp
  ultimately have "take e (drop q (acc_pending acc)) ! 0 = c0"
    using starts_with_nth [OF e(3), of 0] by simp
  then show ?thesis using q e(1) by simp
qed

lemma held_tail_resolved:
  assumes "ok acc" and "find_next_tag acc = None" and "hold_partial_tail acc = (fl, acc')"
  shows "\<forall>j<length fl. tag_at ps (acc_state acc) (drop j (acc_pending acc @ b)) = None"
proof (intro allI impI, rule ccontr)
  let ?p = "acc_pending acc" and ?st = "acc_state acc"
  fix j assume j: "j < length fl" and "tag_at ps ?st (drop j (?p @ b)) \<noteq> None"
  then obtain u l where "tag_at ps ?st (drop j (?p @ b)) = Some (u, l)" by auto
  then have ul: "(u, l) \<in> set (active_tags ps ?st)" and us: "starts_with (drop j (?p @ b)) u"
    using tag_at_in by blast+
  note un = active_needles [OF ul]
  have "?p = fl @ acc_pending acc'" using hold_partial_tail_split [OF assms(3)] by simp
  with j have jp: "j < length ?p" by simp
  have none: "find_sub u ?p = None"
    using find_next_tag_best [of acc] assms(1,2) ul by (fastforce simp: best_of_def ok_def)
  have beyond: "length ?p < j + length u"
    using none starts_with_drop_append [OF us] jp by (fastforce simp: find_sub_None not_less [symmetric])
  obtain q where q: "best_pos acc = Some q" "j \<le> q"
    using partial_tag_held [OF assms(1) un jp us beyond] by blast
  have "acc_longest_tag acc \<noteq> 0"
    using needle_length [OF un] beyond jp assms(1) by (auto simp: ok_def)
  then have "length fl \<le> q"
    using assms(3) q(1) jp by (auto simp: hold_partial_tail_def split: if_splits)
  then have "j < q" using j by simp
  moreover have "q < length (?p @ b)" "(?p @ b) ! q = c0"
    using best_pos_first_byte [OF assms(1) q(1)] by (auto simp: nth_append)
  ultimately have "j + length u \<le> q" using no_straddle [OF un us] by blast
  with beyond best_pos_first_byte [OF assms(1) q(1)] show False by simp
qed

text \<open>Draining commits exactly what the reference split of any continuation would commit.\<close>

lemma hold_partial_tail_ref:
  assumes "ok acc" and "find_next_tag acc = None" and h: "hold_partial_tail acc = (fl, acc1)"
  shows "ok acc1 \<and> find_next_tag acc1 = None \<and>
    split_ref ps (acc_state acc) (acc_pending acc @ b) =
      apfst ((@) (on_side (acc_state acc) fl)) (split_ref ps (acc_state acc1) (acc_pending acc1 @ b))"
proof -
  have sp: "acc_pending acc = fl @ acc_pending acc1" "acc1 = acc\<lparr>acc_pending := acc_pending acc1\<rparr>"
    using hold_partial_tail_split [OF h] by auto
  have fields: "acc_state acc1 = acc_state acc" "acc_pairs acc1 = acc_pairs acc"
      "acc_longest_tag acc1 = acc_longest_tag acc"
    using sp(2) by (metis accumulator.select_convs accumulator.update_convs(3) accumulator.surjective)+
  have "find_next_tag acc1 = None"
    using assms(2) sp(1) fields by (fastforce simp: find_next_tag_None intro: find_sub_None_suffix)
  moreover have "split_ref ps (acc_state acc) (acc_pending acc @ b) =
      apfst ((@) (on_side (acc_state acc) (take (length fl) (acc_pending acc @ b))))
        (split_ref ps (acc_state acc) (drop (length fl) (acc_pending acc @ b)))"
    by (rule split_ref_skip) (use sp held_tail_resolved [OF assms] in auto)
  ultimately show ?thesis using assms(1) sp(1) fields by (simp add: ok_def)
qed

lemma consume_tag_ref:
  assumes "ok acc" and f: "find_next_tag acc = Some (i, t, k)"
  shows "ok (consume_tag acc i t k) \<and>
    split_ref ps (acc_state acc) (acc_pending acc @ b) =
      apfst ((@) (on_side (acc_state acc) (take i (acc_pending acc))))
        (split_ref ps (acc_state (consume_tag acc i t k)) (acc_pending (consume_tag acc i t k) @ b))"
proof -
  let ?p = "acc_pending acc" and ?st = "acc_state acc"
  have i: "i + length t \<le> length ?p" "t \<noteq> []" using find_next_tag_SomeD [OF f] by auto
  have "split_ref ps ?st (?p @ b) =
      apfst ((@) (on_side ?st (take i (?p @ b)))) (split_ref ps ?st (drop i (?p @ b)))"
    by (rule split_ref_skip) (use i next_tag_resolved(2) [OF assms] in auto)
  also have "split_ref ps ?st (drop i (?p @ b)) =
      split_ref ps (state_after k) (drop (length t) (drop i (?p @ b)))"
    by (rule split_ref_tag [OF next_tag_resolved(1) [OF assms]]) (use i in \<open>cases t; simp\<close>)
  finally show ?thesis using assms(1) i by (simp add: consume_tag_def ok_def)
qed

lemma drain_resolved_ref:
  assumes "ok acc" and "drain_resolved acc = (evs, acc')"
  shows "ok acc' \<and> find_next_tag acc' = None \<and>
    split_ref ps (acc_state acc) (acc_pending acc @ b) =
      apfst ((@) (events_bytes evs)) (split_ref ps (acc_state acc') (acc_pending acc' @ b))"
  using assms
proof (induction acc arbitrary: evs rule: drain_induct)
  case (held acc)
  then show ?case
    using hold_partial_tail_ref [OF held.prems(1) held.hyps prod.collapse [symmetric], of b]
    by (auto simp: drain_None split: if_splits)
next
  case (tag acc i t k)
  obtain evs1 where d: "drain_resolved (consume_tag acc i t k) = (evs1, acc')"
      and evs: "events_bytes evs = on_side (acc_state acc) (take i (acc_pending acc)) @ events_bytes evs1"
    using tag.prems(2) by (auto simp: drain_Some [OF tag.hyps] apfst_def map_prod_def split: prod.splits)
  note c = consume_tag_ref [OF tag.prems(1) tag.hyps, of b]
  with tag.IH [OF conjunct1 [OF c] d] evs show ?case by (simp add: prod_eq_iff)
qed

lemma feed_ref:
  assumes "ok acc" and "feed acc d = (evs, acc')"
  shows "ok acc' \<and> find_next_tag acc' = None \<and>
    split_ref ps (acc_state acc) (acc_pending acc @ d @ b) =
      apfst ((@) (events_bytes evs)) (split_ref ps (acc_state acc') (acc_pending acc' @ b))"
  using drain_resolved_ref [of "acc\<lparr>acc_pending := acc_pending acc @ d\<rparr>" evs acc' b] assms
  by (simp add: feed_def ok_def)

lemma feed_all_ref:
  assumes "ok acc" and "find_next_tag acc = None" and "feed_all acc ds = (evs, acc')"
  shows "ok acc' \<and> find_next_tag acc' = None \<and>
    split_ref ps (acc_state acc) (acc_pending acc @ concat ds) =
      apfst ((@) (events_bytes evs)) (split_ref ps (acc_state acc') (acc_pending acc'))"
  using assms
proof (induction ds arbitrary: acc evs)
  case Nil
  then show ?case by (simp add: prod_eq_iff)
next
  case (Cons d ds)
  obtain evs1 acc1 where f: "feed acc d = (evs1, acc1)" by fastforce
  obtain evs2 where g: "feed_all acc1 ds = (evs2, acc')" "evs = evs1 @ evs2"
    using Cons.prems(3) f by (auto split: prod.splits)
  have 1: "ok acc1" "find_next_tag acc1 = None"
    "split_ref ps (acc_state acc) (acc_pending acc @ d @ concat ds) =
      apfst ((@) (events_bytes evs1)) (split_ref ps (acc_state acc1) (acc_pending acc1 @ concat ds))"
    using feed_ref [OF Cons.prems(1) f] by blast+
  from Cons.IH [OF 1(1,2) g(1)] 1(3) g(2) show ?case by (simp add: prod_eq_iff)
qed

text \<open>What is left in the buffer holds no tag and belongs to the current side.\<close>

lemma pending_ref:
  assumes "ok acc" and "find_next_tag acc = None"
  shows "split_ref ps (acc_state acc) (acc_pending acc) =
    (on_side (acc_state acc) (acc_pending acc), acc_state acc)"
proof -
  have "\<forall>j<length (acc_pending acc). tag_at ps (acc_state acc) (drop j (acc_pending acc)) = None"
    using assms by (fastforce simp: find_next_tag_None tag_at_None find_sub_None ok_def)
  from split_ref_skip [OF order_refl this] show ?thesis by simp
qed

lemma ok_new: "ok (acc_new ps)"
  by (simp add: ok_def acc_new_def)

theorem chunks_ref:
  assumes "feed_all (acc_new ps) ds = (evs, acc)"
  shows "(events_bytes evs @ on_side (acc_state acc) (acc_pending acc), acc_state acc) =
    split_ref ps InText (concat ds)"
proof -
  have "find_sub t [] = None" if "(t, k) \<in> set (active_tags ps InText)" for t k
    using active_tags_nonempty [OF that] by (simp add: find_sub_Nil)
  then have none: "find_next_tag (acc_new ps) = None"
    by (auto simp: find_next_tag_None acc_new_def)
  from feed_all_ref [OF ok_new none assms] have
    "ok acc" "find_next_tag acc = None"
    "split_ref ps InText (concat ds) =
       apfst ((@) (events_bytes evs)) (split_ref ps (acc_state acc) (acc_pending acc))"
    by (auto simp: acc_new_def)
  then show ?thesis using pending_ref by simp
qed

theorem extract_ref:
  assumes "extract_think_tags content ps = (r, t)" and "split_ref ps InText content = (bytes, st)"
  shows "t = side InText bytes \<and>
    (case r of
       None \<Rightarrow> bytes = on_side InText content
     | Some x \<Rightarrow> \<exists>bs. [] \<notin> set bs \<and> concat bs = side InReasoning bytes \<and> x = join newline bs)"
proof -
  obtain evs acc where f: "feed (acc_new ps) content = (evs, acc)" by fastforce
  have "feed_all (acc_new ps) [content] = (evs, acc)" using f by simp
  from chunks_ref [OF this] have bytes: "bytes = events_bytes evs @ on_side (acc_state acc) (acc_pending acc)"
    using assms(2) by auto
  let ?rs = "reasonings evs" and ?fl = "if acc_state acc = InReasoning \<and> acc_pending acc \<noteq> [] then [acc_pending acc] else []"
  have ne: "[] \<notin> set ?rs"
    using drain_events_nonempty f unfolding feed_def by (metis fst_conv)
  from fold_collect_event [of "[]" evs "[]"] ne
  have fold: "fold collect_event evs ([], [], False) = (join newline ?rs, side InText (events_bytes evs), ?rs \<noteq> [])"
    by simp
  have t: "t = side InText bytes" and
    r: "r = (if ?rs @ ?fl \<noteq> [] \<or> 0 < acc_tag_count acc then Some (join newline (?rs @ ?fl)) else None)"
    using assms(1) f fold bytes ne
    by (cases "acc_state acc"; auto simp: extract_think_tags_def flush_def in_reasoning_def join_eq_Nil join_snoc split: if_splits)+
  have none: "find_next_tag ((acc_new ps)\<lparr>acc_pending := content\<rparr>) = None" if "r = None"
    using drain_tag_count [of "(acc_new ps)\<lparr>acc_pending := content\<rparr>"] that r f
    by (auto simp: feed_def acc_new_def split: if_splits)
  have "bytes = on_side InText content" if "r = None"
    using pending_ref [OF _ none [OF that]] assms(2) ok_new by (simp add: ok_def acc_new_def)
  moreover have "concat (?rs @ ?fl) = side InReasoning bytes"
    using bytes by (cases "acc_state acc") (auto simp: side_events_reasoning)
  ultimately show ?thesis using t r ne by (auto split: option.splits if_splits intro!: exI [of _ "?rs @ ?fl"])
qed

end

section \<open>The built-in tags\<close>

lemma needles_builtin:
  "needles builtin_think_pairs = {''<think>'', ''</think>'', ''<thinking>'', ''</thinking>''}"
  by (auto simp: needles_def builtin_think_pairs_def)

lemma active_tags_builtin:
  "active_tags builtin_think_pairs InText = [(''<think>'', OpenTag), (''<thinking>'', OpenTag)]"
  "active_tags builtin_think_pairs InReasoning =
     [(''<think>'', OpenTag), (''</think>'', CloseTag), (''<thinking>'', OpenTag), (''</thinking>'', CloseTag)]"
  by (simp_all add: active_tags_def builtin_think_pairs_def pair_needles_def)

interpretation builtin: tag_set builtin_think_pairs "CHR ''<''"
proof
  fix t u :: string and k l :: tag_kind and st :: tag_state
  show "t \<in> needles builtin_think_pairs \<Longrightarrow> \<exists>r. t = CHR ''<'' # r \<and> CHR ''<'' \<notin> set r"
    by (auto simp: needles_builtin)
  show "\<not> is_continuation (CHR ''<'')"
    by (simp add: is_continuation_def)
  show "t \<in> needles builtin_think_pairs \<Longrightarrow> u \<in> needles builtin_think_pairs \<Longrightarrow> starts_with t u \<Longrightarrow> t = u"
    by (auto simp: needles_builtin starts_with_def)
  show "(t, k) \<in> set (active_tags builtin_think_pairs st) \<Longrightarrow>
      (t, l) \<in> set (active_tags builtin_think_pairs st) \<Longrightarrow> k = l"
    by (cases st) (auto simp: active_tags_builtin)
qed

text \<open>
  C39. However the upstream cuts a completion into deltas, the accumulator's events together with
  the bytes it still holds at the end put every byte on the side on which a scan of the whole
  completion puts it, drop exactly the recognised tags, and end in the same state.
\<close>

theorem think_chunk_invariance:
  "(case feed_all (acc_new builtin_think_pairs) ds of
      (evs, acc) \<Rightarrow>
        (events_bytes evs @ on_side (acc_state acc) (fst (flush acc)), acc_state (snd (flush acc)))) =
   split_ref builtin_think_pairs InText (concat ds)"
  using builtin.chunks_ref by (auto simp: flush_def split: prod.splits)

text \<open>
  The one-shot extraction used on complete bodies: the visible text is exactly the bytes that
  the reference split leaves outside the tags; no reasoning is reported only when the content
  comes back unchanged; otherwise the reasoning is the non-empty reasoning segments, which make up
  all the bytes inside the tags, joined by newlines.
\<close>

theorem extract_think_tags_correct:
  "(case (extract_think_tags content builtin_think_pairs, split_ref builtin_think_pairs InText content) of
      ((r, t), (bytes, st)) \<Rightarrow>
        t = side InText bytes \<and>
        (case r of
           None \<Rightarrow> bytes = on_side InText content
         | Some x \<Rightarrow> \<exists>bs. [] \<notin> set bs \<and> concat bs = side InReasoning bytes \<and> x = join newline bs))"
  using builtin.extract_ref by (auto split: prod.splits)

text \<open>
  One pass over the content is not enough to keep every tag from the client: removing a tag can
  bring the two halves of another one together.
\<close>

lemma extract_reassembles_tag:
  "extract_think_tags ''<th<think>x</think>ink>y</think>'' builtin_think_pairs =
     (Some ''x'', ''<think>y</think>'')"
  by code_simp

end
