(* ===== verification/Json_Value.thy ===== *)
theory Json_Value
  imports Proxy_Prelude
begin

text \<open>
  The data model of \<open>serde_json::Value\<close> and the part of its interface that the source uses. A
  \<open>serde_json\<close> map is a \<open>BTreeMap\<close> (the crate is built without \<open>preserve_order\<close>): an object is the list
  of its entries in increasing byte order of the keys. A number is an integer in the range of
  \<open>i64\<close> and \<open>u64\<close>, or a float; a finite \<open>f64\<close> is a rational number, and arithmetic on it is exact here.
  Reading and writing JSON text belongs to the library and is a parameter where it is used.
\<close>

datatype json =
    JNull
  | JBool bool
  | JInt int
  | JFloat rat
  | JStr string
  | JArr "json list"
  | JObj "(string \<times> json) list"

type_synonym json_map = "(string \<times> json) list"

fun is_null :: "json \<Rightarrow> bool" where
  "is_null JNull = True"
| "is_null _ = False"

fun is_object :: "json \<Rightarrow> bool" where
  "is_object (JObj _) = True"
| "is_object _ = False"

fun as_str :: "json \<Rightarrow> string option" where
  "as_str (JStr s) = Some s"
| "as_str _ = None"

fun as_bool :: "json \<Rightarrow> bool option" where
  "as_bool (JBool b) = Some b"
| "as_bool _ = None"

fun as_array :: "json \<Rightarrow> json list option" where
  "as_array (JArr xs) = Some xs"
| "as_array _ = None"

fun as_object :: "json \<Rightarrow> json_map option" where
  "as_object (JObj m) = Some m"
| "as_object _ = None"

fun as_u64 :: "json \<Rightarrow> u64 option" where
  "as_u64 (JInt i) = (if 0 \<le> i then Some (word_of_int i) else None)"
| "as_u64 _ = None"

fun as_i64 :: "json \<Rightarrow> int option" where
  "as_i64 (JInt i) = (if i < 2 ^ 63 then Some i else None)"
| "as_i64 _ = None"

fun as_f64 :: "json \<Rightarrow> rat option" where
  "as_f64 (JInt i) = Some (of_int i)"
| "as_f64 (JFloat r) = Some r"
| "as_f64 _ = None"

text \<open>\<open>Value::get\<close> with a string index, and the indexing \<open>v["k"]\<close>, which yields null for a missing key.\<close>

fun jget :: "json \<Rightarrow> string \<Rightarrow> json option" where
  "jget (JObj m) k = map_of m k"
| "jget _ k = None"

definition jindex :: "json \<Rightarrow> string \<Rightarrow> json" where
  "jindex v k = (case jget v k of Some x \<Rightarrow> x | None \<Rightarrow> JNull)"

section \<open>Ordered maps\<close>

fun obj_insert :: "string \<Rightarrow> 'v \<Rightarrow> (string \<times> 'v) list \<Rightarrow> (string \<times> 'v) list" where
  "obj_insert k v [] = [(k, v)]"
| "obj_insert k v ((k', v') # m) =
     (if k < k' then (k, v) # (k', v') # m
      else if k = k' then (k, v) # m
      else (k', v') # obj_insert k v m)"

fun obj_remove :: "string \<Rightarrow> (string \<times> 'v) list \<Rightarrow> (string \<times> 'v) list" where
  "obj_remove k [] = []"
| "obj_remove k ((k', v') # m) = (if k = k' then m else (k', v') # obj_remove k m)"

definition obj_wf :: "(string \<times> 'v) list \<Rightarrow> bool" where
  "obj_wf m = (sorted (map fst m) \<and> distinct (map fst m))"

text \<open>The literal of the \<open>json!\<close> macro: the entries in the order written.\<close>

definition obj_of :: "(string \<times> 'v) list \<Rightarrow> (string \<times> 'v) list" where
  "obj_of es = fold (\<lambda>(k, v) m. obj_insert k v m) es []"

lemma set_obj_insert_keys: "fst ` set (obj_insert k v m) = insert k (fst ` set m)"
  by (induction k v m rule: obj_insert.induct) auto

lemma obj_get_insert [simp]: "map_of (obj_insert k v m) k' = (if k' = k then Some v else map_of m k')"
  by (induction k v m rule: obj_insert.induct) auto

lemma obj_wf_Nil [simp]: "obj_wf []"
  by (simp add: obj_wf_def)

lemma obj_wf_Cons: "obj_wf ((k, v) # m) \<longleftrightarrow> (\<forall>x\<in>set m. k < fst x) \<and> obj_wf m"
  by (auto simp: obj_wf_def less_le)

lemma obj_wf_insert [simp]: "obj_wf m \<Longrightarrow> obj_wf (obj_insert k v m)"
proof (induction k v m rule: obj_insert.induct)
  case (2 k v k' v' m)
  have "k' < fst x" if x: "x \<in> set (obj_insert k v m)" and k: "\<not> k < k'" "k \<noteq> k'" for x
  proof -
    have "fst x \<in> insert k (fst ` set m)" using x by (simp flip: set_obj_insert_keys [where v = v])
    moreover have "k' < k" using k by simp
    ultimately show ?thesis using 2(2) unfolding obj_wf_Cons by (elim insertE imageE) auto
  qed
  with 2 show ?case by (simp add: obj_wf_Cons) (metis order.strict_trans)
qed (simp add: obj_wf_Cons)

lemma set_obj_remove: "set (obj_remove k m) \<subseteq> set m"
  by (induction k m rule: obj_remove.induct) auto

lemma obj_wf_remove [simp]: "obj_wf m \<Longrightarrow> obj_wf (obj_remove k m)"
proof (induction k m rule: obj_remove.induct)
  case (2 k k1 v1 m)
  then show ?case using set_obj_remove [of k m] by (auto simp: obj_wf_Cons)
qed simp

lemma obj_get_remove: "obj_wf m \<Longrightarrow> map_of (obj_remove k m) k' = (if k' = k then None else map_of m k')"
proof (induction k m rule: obj_remove.induct)
  case (2 k k1 v1 m)
  then have "map_of m k1 = None" by (force simp: obj_wf_Cons map_of_eq_None_iff)
  with 2 show ?case by (auto simp: obj_wf_Cons)
qed simp

lemma obj_wf_fold: "obj_wf m \<Longrightarrow> obj_wf (fold (\<lambda>(k, v). obj_insert k v) es m)"
  by (induction es arbitrary: m) auto

lemma obj_wf_obj_of [simp]: "obj_wf (obj_of es)"
  by (simp add: obj_of_def obj_wf_fold)

lemma obj_get_fold:
  "map_of (fold (\<lambda>(k, v). obj_insert k v) es m) k =
     (case map_of (rev es) k of Some v \<Rightarrow> Some v | None \<Rightarrow> map_of m k)"
  by (induction es arbitrary: m) (auto split: option.splits)

lemma obj_get_obj_of: "map_of (obj_of es) k = map_of (rev es) k"
  by (simp add: obj_of_def obj_get_fold split: option.splits)

text \<open>Two objects with the same lookups are the same object.\<close>

lemma obj_eqI:
  assumes "obj_wf m" and "obj_wf n" and "\<And>k. map_of m k = map_of n k"
  shows "m = n"
proof (rule map_sorted_distinct_set_unique [where f = fst])
  have "x \<in> set m \<longleftrightarrow> x \<in> set n" for x
    using assms map_of_eq_Some_iff [of m "fst x" "snd x"] map_of_eq_Some_iff [of n "fst x" "snd x"]
    by (simp add: obj_wf_def)
  then show "set m = set n" by blast
  then show "inj_on fst (set m \<union> set n)"
    using assms(1) by (simp add: obj_wf_def distinct_map)
qed (use assms(1,2) in \<open>simp_all add: obj_wf_def\<close>)

end
