(* ===== verification/Chat_Types.thy ===== *)
theory Chat_Types
  imports Json_Value
begin

text \<open>
  The OpenAI-compatible data types (\<open>types.rs\<close>) as records with the source's fields, and the
  deserialisers and serialisers that the source derives for them. A derived deserialiser accepts
  an object, or an array of the fields in declaration order whose missing tail only holds fields
  with a default; \<open>null\<close> and a missing field both give \<open>None\<close> for an \<open>Option\<close>. The serialised form of a
  struct is the list of entries in the order they are written.
\<close>

section \<open>Deriving deserialisers\<close>

text \<open>A field is its wire name and whether it has a \<open>serde(default)\<close>.\<close>

type_synonym fields = "(string \<times> bool) list"

definition struct_map :: "fields \<Rightarrow> json \<Rightarrow> json_map option" where
  "struct_map fs v =
     (case v of
        JObj m \<Rightarrow> Some m
      | JArr xs \<Rightarrow>
          (if length xs \<le> length fs \<and> list_all snd (drop (length xs) fs)
           then Some (zip (map fst fs) xs) else None)
      | _ \<Rightarrow> None)"

definition req_field :: "(json \<Rightarrow> 'a option) \<Rightarrow> json_map \<Rightarrow> string \<Rightarrow> 'a option" where
  "req_field dec m k = Option.bind (map_of m k) dec"

definition default_field :: "'a \<Rightarrow> (json \<Rightarrow> 'a option) \<Rightarrow> json_map \<Rightarrow> string \<Rightarrow> 'a option" where
  "default_field d dec m k = (case map_of m k of None \<Rightarrow> Some d | Some v \<Rightarrow> dec v)"

definition opt_field :: "(json \<Rightarrow> 'a option) \<Rightarrow> json_map \<Rightarrow> string \<Rightarrow> 'a option option" where
  "opt_field dec m k =
     (case map_of m k of
        None \<Rightarrow> Some None
      | Some v \<Rightarrow> if is_null v then Some None else map_option Some (dec v))"

fun dec_list :: "(json \<Rightarrow> 'a option) \<Rightarrow> json \<Rightarrow> 'a list option" where
  "dec_list dec (JArr xs) = those (map dec xs)"
| "dec_list dec _ = None"

fun dec_uint :: "nat \<Rightarrow> json \<Rightarrow> int option" where
  "dec_uint w (JInt i) = (if 0 \<le> i \<and> i < 2 ^ w then Some i else None)"
| "dec_uint w _ = None"

definition dec_u32 :: "json \<Rightarrow> u32 option" where
  "dec_u32 v = map_option word_of_int (dec_uint 32 v)"

definition dec_u64 :: "json \<Rightarrow> u64 option" where
  "dec_u64 v = map_option word_of_int (dec_uint 64 v)"

text \<open>\<open>Option::is_none\<close> fields are left out of the serialised form.\<close>

definition some_entry :: "string \<Rightarrow> ('a \<Rightarrow> json) \<Rightarrow> 'a option \<Rightarrow> json_map" where
  "some_entry k enc x = (case x of None \<Rightarrow> [] | Some v \<Rightarrow> [(k, enc v)])"

definition enc_uint :: "'w::len word \<Rightarrow> json" where
  "enc_uint w = JInt (uint w)"

definition enc_opt :: "('a \<Rightarrow> json) \<Rightarrow> 'a option \<Rightarrow> json" where
  "enc_opt enc x = (case x of None \<Rightarrow> JNull | Some v \<Rightarrow> enc v)"

lemma dec_enc_u32 [simp]: "dec_u32 (enc_uint (w::u32)) = Some w"
  by (simp add: dec_u32_def enc_uint_def uint_lt2p [where 'a = 32, simplified])

lemma map_of_some_entry:
  "map_of (some_entry k enc x @ m) k' =
     (if k' = k then (case x of None \<Rightarrow> map_of m k' | Some v \<Rightarrow> Some (enc v)) else map_of m k')"
  by (auto simp: some_entry_def split: option.splits)

lemma opt_field_entry:
  assumes "map_of m k = map_option enc x" and "\<And>v. x = Some v \<Longrightarrow> dec (enc v) = Some v \<and> \<not> is_null (enc v)"
  shows "opt_field dec m k = Some x"
  using assms by (cases x) (auto simp: opt_field_def)

lemma key_some_entry:
  "fst ` set (some_entry k enc x) \<subseteq> S \<longleftrightarrow> x = None \<or> k \<in> S"
  "k' \<in> fst ` set (some_entry k enc x) \<longleftrightarrow> x \<noteq> None \<and> k' = k"
  by (cases x; simp add: some_entry_def)+

lemma distinct_some_entry:
  "distinct (map fst (some_entry k enc x @ m)) \<longleftrightarrow> distinct (map fst m) \<and> (x = None \<or> k \<notin> fst ` set m)"
  by (auto simp: some_entry_def split: option.splits)

lemma those_map [simp]: "(\<And>x. x \<in> set xs \<Longrightarrow> f x = Some x) \<Longrightarrow> those (map f xs) = Some xs"
  by (induction xs) auto

section \<open>Requests\<close>

record tool_call_function =
  tcf_name :: string
  tcf_arguments :: string

record tool_call =
  tc_id :: string
  tc_type :: string
  tc_function :: tool_call_function

record message =
  msg_role :: string
  msg_content :: json
  msg_name :: "string option"
  msg_tool_calls :: "tool_call list option"
  msg_tool_call_id :: "string option"

record chat_request =
  req_model :: string
  req_messages :: "message list"
  req_stream :: "bool option"
  req_max_tokens :: "u32 option"
  req_temperature :: "rat option"
  req_top_p :: "rat option"
  req_stop :: "json option"
  req_presence_penalty :: "rat option"
  req_frequency_penalty :: "rat option"
  req_user :: "string option"
  req_tools :: "json option"
  req_tool_choice :: "json option"
  req_stream_options :: "json option"
  req_extra :: json

definition dec_tool_call_function :: "json \<Rightarrow> tool_call_function option" where
  "dec_tool_call_function v =
     Option.bind (struct_map [(''name'', False), (''arguments'', False)] v) (\<lambda>m.
     Option.bind (req_field as_str m ''name'') (\<lambda>n.
     Option.bind (req_field as_str m ''arguments'') (\<lambda>a.
     Some \<lparr>tcf_name = n, tcf_arguments = a\<rparr>)))"

definition enc_tool_call_function :: "tool_call_function \<Rightarrow> json" where
  "enc_tool_call_function f = JObj [(''name'', JStr (tcf_name f)), (''arguments'', JStr (tcf_arguments f))]"

definition dec_tool_call :: "json \<Rightarrow> tool_call option" where
  "dec_tool_call v =
     Option.bind (struct_map [(''id'', False), (''type'', False), (''function'', False)] v) (\<lambda>m.
     Option.bind (req_field as_str m ''id'') (\<lambda>i.
     Option.bind (req_field as_str m ''type'') (\<lambda>t.
     Option.bind (req_field dec_tool_call_function m ''function'') (\<lambda>f.
     Some \<lparr>tc_id = i, tc_type = t, tc_function = f\<rparr>))))"

definition enc_tool_call :: "tool_call \<Rightarrow> json" where
  "enc_tool_call t =
     JObj [(''id'', JStr (tc_id t)), (''type'', JStr (tc_type t)),
           (''function'', enc_tool_call_function (tc_function t))]"

definition message_fields :: fields where
  "message_fields =
     [(''role'', False), (''content'', True), (''name'', False), (''tool_calls'', False), (''tool_call_id'', False)]"

definition dec_message :: "json \<Rightarrow> message option" where
  "dec_message v =
     Option.bind (struct_map message_fields v) (\<lambda>m.
     Option.bind (req_field as_str m ''role'') (\<lambda>r.
     Option.bind (default_field JNull Some m ''content'') (\<lambda>c.
     Option.bind (opt_field as_str m ''name'') (\<lambda>n.
     Option.bind (opt_field (dec_list dec_tool_call) m ''tool_calls'') (\<lambda>ts.
     Option.bind (opt_field as_str m ''tool_call_id'') (\<lambda>ti.
     Some \<lparr>msg_role = r, msg_content = c, msg_name = n, msg_tool_calls = ts, msg_tool_call_id = ti\<rparr>))))))"

definition enc_message :: "message \<Rightarrow> json" where
  "enc_message m =
     JObj ([(''role'', JStr (msg_role m)), (''content'', msg_content m)] @
       some_entry ''name'' JStr (msg_name m) @
       some_entry ''tool_calls'' (JArr \<circ> map enc_tool_call) (msg_tool_calls m) @
       some_entry ''tool_call_id'' JStr (msg_tool_call_id m) @ [])"

text \<open>With a flattened field the deserialiser only accepts an object; the entries that no field
  claims make up \<open>extra\<close>.\<close>

definition request_keys :: "string list" where
  "request_keys =
     [''model'', ''messages'', ''stream'', ''max_tokens'', ''temperature'', ''top_p'', ''stop'',
      ''presence_penalty'', ''frequency_penalty'', ''user'', ''tools'', ''tool_choice'', ''stream_options'']"

definition dec_request :: "json \<Rightarrow> chat_request option" where
  "dec_request v =
     Option.bind (as_object v) (\<lambda>m.
     Option.bind (req_field as_str m ''model'') (\<lambda>md.
     Option.bind (req_field (dec_list dec_message) m ''messages'') (\<lambda>ms.
     Option.bind (opt_field as_bool m ''stream'') (\<lambda>st.
     Option.bind (opt_field dec_u32 m ''max_tokens'') (\<lambda>mt.
     Option.bind (opt_field as_f64 m ''temperature'') (\<lambda>te.
     Option.bind (opt_field as_f64 m ''top_p'') (\<lambda>tp.
     Option.bind (opt_field Some m ''stop'') (\<lambda>sp.
     Option.bind (opt_field as_f64 m ''presence_penalty'') (\<lambda>pp.
     Option.bind (opt_field as_f64 m ''frequency_penalty'') (\<lambda>fp.
     Option.bind (opt_field as_str m ''user'') (\<lambda>us.
     Option.bind (opt_field Some m ''tools'') (\<lambda>tl.
     Option.bind (opt_field Some m ''tool_choice'') (\<lambda>tc.
     Option.bind (opt_field Some m ''stream_options'') (\<lambda>so.
     Some \<lparr>req_model = md, req_messages = ms, req_stream = st, req_max_tokens = mt, req_temperature = te,
       req_top_p = tp, req_stop = sp, req_presence_penalty = pp, req_frequency_penalty = fp,
       req_user = us, req_tools = tl, req_tool_choice = tc, req_stream_options = so,
       req_extra = JObj (filter (\<lambda>(k, _). k \<notin> set request_keys) m)\<rparr>))))))))))))))"

text \<open>Serialising fails when \<open>extra\<close> is neither null, which is skipped, nor a map.\<close>

definition known_entries :: "chat_request \<Rightarrow> json_map" where
  "known_entries r =
     [(''model'', JStr (req_model r)), (''messages'', JArr (map enc_message (req_messages r)))] @
     some_entry ''stream'' JBool (req_stream r) @
     some_entry ''max_tokens'' enc_uint (req_max_tokens r) @
     some_entry ''temperature'' JFloat (req_temperature r) @
     some_entry ''top_p'' JFloat (req_top_p r) @
     some_entry ''stop'' id (req_stop r) @
     some_entry ''presence_penalty'' JFloat (req_presence_penalty r) @
     some_entry ''frequency_penalty'' JFloat (req_frequency_penalty r) @
     some_entry ''user'' JStr (req_user r) @
     some_entry ''tools'' id (req_tools r) @
     some_entry ''tool_choice'' id (req_tool_choice r) @
     some_entry ''stream_options'' id (req_stream_options r) @ []"

fun enc_request :: "chat_request \<Rightarrow> json_map option" where
  "enc_request r =
     (case req_extra r of
        JNull \<Rightarrow> Some (known_entries r)
      | JObj m \<Rightarrow> Some (known_entries r @ m)
      | _ \<Rightarrow> None)"

declare enc_request.simps [simp del]

section \<open>Responses\<close>

record usage =
  prompt_tokens :: u32
  completion_tokens :: u32
  total_tokens :: u32

record response_message =
  rm_role :: string
  rm_content :: "string option"
  rm_tool_calls :: "tool_call list option"
  rm_reasoning_content :: "string option"
  rm_reasoning :: "string option"
  rm_reasoning_text :: "string option"
  rm_thinking :: "json option"

record choice =
  ch_index :: u32
  ch_message :: response_message
  ch_finish_reason :: "string option"

record chat_response =
  resp_id :: string
  resp_object :: string
  resp_created :: u64
  resp_model :: string
  resp_choices :: "choice list"
  resp_usage :: "usage option"
  resp_raw_usage_json :: "json option"

definition usage_default :: usage where
  "usage_default = \<lparr>prompt_tokens = 0, completion_tokens = 0, total_tokens = 0\<rparr>"

definition dec_usage :: "json \<Rightarrow> usage option" where
  "dec_usage v =
     Option.bind (struct_map [(''prompt_tokens'', True), (''completion_tokens'', True), (''total_tokens'', True)] v) (\<lambda>m.
     Option.bind (default_field 0 dec_u32 m ''prompt_tokens'') (\<lambda>p.
     Option.bind (default_field 0 dec_u32 m ''completion_tokens'') (\<lambda>c.
     Option.bind (default_field 0 dec_u32 m ''total_tokens'') (\<lambda>t.
     Some \<lparr>prompt_tokens = p, completion_tokens = c, total_tokens = t\<rparr>))))"

definition dec_response_message :: "json \<Rightarrow> response_message option" where
  "dec_response_message v =
     Option.bind (struct_map [(''role'', True), (''content'', True), (''tool_calls'', True), (''reasoning_content'', True),
       (''reasoning'', True), (''reasoning_text'', True), (''thinking'', True)] v) (\<lambda>m.
     Option.bind (default_field ''assistant'' as_str m ''role'') (\<lambda>r.
     Option.bind (opt_field as_str m ''content'') (\<lambda>c.
     Option.bind (opt_field (dec_list dec_tool_call) m ''tool_calls'') (\<lambda>ts.
     Option.bind (opt_field as_str m ''reasoning_content'') (\<lambda>rc.
     Option.bind (opt_field as_str m ''reasoning'') (\<lambda>rs.
     Option.bind (opt_field as_str m ''reasoning_text'') (\<lambda>rt.
     Option.bind (opt_field Some m ''thinking'') (\<lambda>th.
     Some \<lparr>rm_role = r, rm_content = c, rm_tool_calls = ts, rm_reasoning_content = rc, rm_reasoning = rs,
       rm_reasoning_text = rt, rm_thinking = th\<rparr>))))))))"

definition dec_choice :: "json \<Rightarrow> choice option" where
  "dec_choice v =
     Option.bind (struct_map [(''index'', True), (''message'', False), (''finish_reason'', False)] v) (\<lambda>m.
     Option.bind (default_field 0 dec_u32 m ''index'') (\<lambda>i.
     Option.bind (req_field dec_response_message m ''message'') (\<lambda>ms.
     Option.bind (opt_field as_str m ''finish_reason'') (\<lambda>f.
     Some \<lparr>ch_index = i, ch_message = ms, ch_finish_reason = f\<rparr>))))"

text \<open>\<open>raw_usage_json\<close> is skipped: it is not read from the wire.\<close>

definition dec_response :: "json \<Rightarrow> chat_response option" where
  "dec_response v =
     Option.bind (struct_map [(''id'', True), (''object'', True), (''created'', True), (''model'', True),
       (''choices'', False), (''usage'', False)] v) (\<lambda>m.
     Option.bind (default_field [] as_str m ''id'') (\<lambda>i.
     Option.bind (default_field ''chat.completion'' as_str m ''object'') (\<lambda>ob.
     Option.bind (default_field 0 dec_u64 m ''created'') (\<lambda>cr.
     Option.bind (default_field [] as_str m ''model'') (\<lambda>md.
     Option.bind (req_field (dec_list dec_choice) m ''choices'') (\<lambda>cs.
     Option.bind (opt_field dec_usage m ''usage'') (\<lambda>us.
     Some \<lparr>resp_id = i, resp_object = ob, resp_created = cr, resp_model = md, resp_choices = cs,
       resp_usage = us, resp_raw_usage_json = None\<rparr>)))))))"

section \<open>Stream chunks\<close>

record delta_tool_call_function =
  dtf_name :: "string option"
  dtf_arguments :: "string option"

record delta_tool_call =
  dt_index :: u32
  dt_id :: "string option"
  dt_type :: "string option"
  dt_function :: "delta_tool_call_function option"

record delta =
  dl_role :: "string option"
  dl_content :: "string option"
  dl_tool_calls :: "delta_tool_call list option"
  dl_reasoning_content :: "string option"
  dl_reasoning :: "string option"
  dl_reasoning_text :: "string option"
  dl_thinking :: "json option"

record chunk_choice =
  cc_index :: u32
  cc_delta :: delta
  cc_finish_reason :: "string option"

record chat_chunk =
  ck_id :: string
  ck_object :: string
  ck_created :: u64
  ck_model :: string
  ck_choices :: "chunk_choice list"
  ck_usage :: "usage option"

subsection \<open>Requests survive being read and written\<close>

lemma dec_enc_tool_call [simp]: "dec_tool_call (enc_tool_call t) = Some t"
  by (simp add: dec_tool_call_def enc_tool_call_def dec_tool_call_function_def enc_tool_call_function_def
      struct_map_def req_field_def)

lemmas entry_simps = map_of_some_entry map_option_case struct_map_def req_field_def default_field_def

lemma dec_enc_message [simp]: "dec_message (enc_message m) = Some m"
proof -
  define es where "es = [(''role'', JStr (msg_role m)), (''content'', msg_content m)] @
       some_entry ''name'' JStr (msg_name m) @
       some_entry ''tool_calls'' (JArr \<circ> map enc_tool_call) (msg_tool_calls m) @
       some_entry ''tool_call_id'' JStr (msg_tool_call_id m) @ []"
  have "opt_field as_str es ''name'' = Some (msg_name m)"
      "opt_field as_str es ''tool_call_id'' = Some (msg_tool_call_id m)"
    by (rule opt_field_entry [where enc = JStr]; simp add: es_def entry_simps split: option.split del: map_of_append append_Nil2)+
  moreover have "opt_field (dec_list dec_tool_call) es ''tool_calls'' = Some (msg_tool_calls m)"
    by (rule opt_field_entry [where enc = "JArr \<circ> map enc_tool_call"];
        simp add: es_def entry_simps split: option.split del: map_of_append append_Nil2)
  moreover have "map_of es ''role'' = Some (JStr (msg_role m))" "map_of es ''content'' = Some (msg_content m)"
    by (simp_all add: es_def)
  ultimately show ?thesis
    by (simp add: dec_message_def enc_message_def es_def [symmetric] entry_simps del: append_Nil2 append_Cons)
qed

definition request_wf :: "chat_request \<Rightarrow> bool" where
  "request_wf r =
     (JNull \<notin> set_option (req_stop r) \<and> JNull \<notin> set_option (req_tools r) \<and>
      JNull \<notin> set_option (req_tool_choice r) \<and> JNull \<notin> set_option (req_stream_options r) \<and>
      (case req_extra r of
         JObj m \<Rightarrow> distinct (map fst m) \<and> list_all (\<lambda>(k, _). k \<notin> set request_keys) m
       | _ \<Rightarrow> False))"

lemma known_entries_keys: "set (map fst (known_entries r)) \<subseteq> set request_keys"
  by (simp add: known_entries_def request_keys_def image_Un key_some_entry)

lemma distinct_known_entries: "distinct (map fst (known_entries r))"
  by (simp add: known_entries_def distinct_some_entry image_Un key_some_entry del: map_append distinct_append append_Nil2)

lemma known_entries_lookup:
  assumes "list_all (\<lambda>(k, _). k \<notin> set request_keys) m" and "k \<in> set request_keys"
  shows "map_of (known_entries r @ m) k = map_of (known_entries r) k"
proof -
  have "map_of m k = None" using assms by (auto simp: map_of_eq_None_iff list_all_iff)
  then show ?thesis by (auto simp: map_add_def split: option.splits)
qed

lemma known_entries_get:
  "map_of (known_entries r) ''model'' = Some (JStr (req_model r))"
  "map_of (known_entries r) ''messages'' = Some (JArr (map enc_message (req_messages r)))"
  "map_of (known_entries r) ''stream'' = map_option JBool (req_stream r)"
  "map_of (known_entries r) ''max_tokens'' = map_option enc_uint (req_max_tokens r)"
  "map_of (known_entries r) ''temperature'' = map_option JFloat (req_temperature r)"
  "map_of (known_entries r) ''top_p'' = map_option JFloat (req_top_p r)"
  "map_of (known_entries r) ''stop'' = map_option id (req_stop r)"
  "map_of (known_entries r) ''presence_penalty'' = map_option JFloat (req_presence_penalty r)"
  "map_of (known_entries r) ''frequency_penalty'' = map_option JFloat (req_frequency_penalty r)"
  "map_of (known_entries r) ''user'' = map_option JStr (req_user r)"
  "map_of (known_entries r) ''tools'' = map_option id (req_tools r)"
  "map_of (known_entries r) ''tool_choice'' = map_option id (req_tool_choice r)"
  "map_of (known_entries r) ''stream_options'' = map_option id (req_stream_options r)"
  unfolding known_entries_def
  by (simp add: entry_simps split: option.split del: map_of_append append_Nil2)+

lemma opt_field_cong: "map_of m k = map_of m' k \<Longrightarrow> opt_field dec m k = opt_field dec m' k"
  by (simp add: opt_field_def)

lemma dec_enc_request:
  assumes wf: "request_wf r" and m: "req_extra r = JObj m"
  shows "dec_request (JObj (known_entries r @ m)) = Some r"
proof -
  let ?es = "known_entries r @ m"
  have disj: "list_all (\<lambda>(k, _). k \<notin> set request_keys) m" using wf m by (simp add: request_wf_def)
  have get: "map_of ?es k = map_of (known_entries r) k" if "k \<in> set request_keys" for k
    using known_entries_lookup [OF disj that] .
  have f64: "opt_field as_f64 ?es k = Some x"
    if "map_of (known_entries r) k = map_option JFloat x" "k \<in> set request_keys" for k x
    using that get by (intro opt_field_entry [where enc = JFloat]) auto
  have val: "opt_field Some ?es k = Some x"
    if "map_of (known_entries r) k = map_option id x" "k \<in> set request_keys" "JNull \<notin> set_option x" for k x
    using that get by (intro opt_field_entry [where enc = id]) (auto elim!: is_null.elims)
  have str: "opt_field as_str ?es ''user'' = Some (req_user r)"
    using get [of "''user''"] by (intro opt_field_entry [where enc = JStr]) (auto simp: known_entries_get request_keys_def)
  have bool: "opt_field as_bool ?es ''stream'' = Some (req_stream r)"
    using get [of "''stream''"] by (intro opt_field_entry [where enc = JBool]) (auto simp: known_entries_get request_keys_def)
  have u32: "opt_field dec_u32 ?es ''max_tokens'' = Some (req_max_tokens r)"
    using get [of "''max_tokens''"]
    by (intro opt_field_entry [where enc = enc_uint]) (auto simp: known_entries_get request_keys_def enc_uint_def dec_enc_u32 [unfolded enc_uint_def])
  have "filter (\<lambda>(k, _). k \<notin> set request_keys) ?es = m"
    using known_entries_keys [of r] disj by (auto simp: list_all_iff filter_empty_conv filter_id_conv)
  moreover have "map_of ?es ''model'' = Some (JStr (req_model r))"
      "map_of ?es ''messages'' = Some (JArr (map enc_message (req_messages r)))"
    using get [of "''model''"] get [of "''messages''"] by (auto simp: known_entries_get request_keys_def)
  ultimately show ?thesis
    using str bool u32 wf m
    by (simp add: dec_request_def req_field_def f64 val known_entries_get request_keys_def request_wf_def)
qed

lemma opt_field_value_not_null: "opt_field Some m k = Some x \<Longrightarrow> JNull \<notin> set_option x"
  by (auto simp: opt_field_def split: option.splits if_splits)

lemma dec_request_wf:
  assumes "dec_request (JObj m) = Some r" and "distinct (map fst m)"
  shows "request_wf r"
proof -
  have "distinct (map fst (filter (\<lambda>(k, _). k \<notin> set request_keys) m))"
    using assms(2) by (rule distinct_map_filter)
  then show ?thesis
    using assms(1)
    by (auto simp: dec_request_def bind_eq_Some_conv request_wf_def list_all_iff
        dest!: opt_field_value_not_null)
qed

lemma dec_request_extra:
  "dec_request (JObj m) = Some r \<Longrightarrow> req_extra r = JObj (filter (\<lambda>(k, _). k \<notin> set request_keys) m)"
  by (auto simp: dec_request_def bind_eq_Some_conv)

lemma known_entries_other: "k \<notin> set request_keys \<Longrightarrow> map_of (known_entries r) k = None"
  using known_entries_keys by (force simp: map_of_eq_None_iff)

lemma map_of_filter_key: "P k \<Longrightarrow> map_of (filter (\<lambda>(k, _). P k) m) k = map_of m k"
  by (induction m) auto


definition sample_request :: json_map where
  "sample_request =
     [(''messages'', JArr [JObj [(''role'', JStr ''user''), (''content'', JStr ''hi'')]]),
      (''model'', JStr ''gpt-4o''), (''seed'', JInt 7), (''stream'', JNull), (''temperature'', JInt 1)]"


end
