(* ===== verification/Response_Normalize.thy ===== *)
theory Response_Normalize
  imports Think_Tags Chat_Types
begin

text \<open>
  The normalisation of complete responses (\<open>response_normalize.rs\<close>): the provider's aliases for
  hidden reasoning are folded into \<open>reasoning_content\<close>, then think blocks inlined in the content
  are extracted into it.
\<close>

definition take_nonempty :: "string option \<Rightarrow> string option" where
  "take_nonempty slot = (case slot of Some s \<Rightarrow> if s \<noteq> [] then Some s else None | None \<Rightarrow> None)"

fun merge_nonempty :: "string option \<Rightarrow> string option \<Rightarrow> string option" where
  "merge_nonempty None None = None"
| "merge_nonempty (Some a) None = Some a"
| "merge_nonempty None (Some a) = Some a"
| "merge_nonempty (Some a) (Some b) =
     (if a = [] then Some b else if b = [] then Some a else Some (a @ newline @ b))"

definition fold_message_reasoning :: "response_message \<Rightarrow> response_message" where
  "fold_message_reasoning msg =
     (let parts = [];
          parts = parts @ (case take_nonempty (rm_reasoning_content msg) of Some s \<Rightarrow> [s] | None \<Rightarrow> []);
          parts = parts @ (case take_nonempty (rm_reasoning msg) of Some s \<Rightarrow> [s] | None \<Rightarrow> []);
          parts = parts @ (case take_nonempty (rm_reasoning_text msg) of Some s \<Rightarrow> [s] | None \<Rightarrow> []);
          msg = msg\<lparr>rm_reasoning_content := None, rm_reasoning := None, rm_reasoning_text := None\<rparr>;
          (parts, msg) =
            (case rm_thinking msg of
               Some (JStr s) \<Rightarrow> if s \<noteq> [] then (parts @ [s], msg\<lparr>rm_thinking := None\<rparr>) else (parts, msg)
             | _ \<Rightarrow> (parts, msg))
      in msg\<lparr>rm_reasoning_content := fold (\<lambda>next acc. merge_nonempty acc (Some next)) parts None\<rparr>)"

definition normalize_message :: "response_message \<Rightarrow> response_message" where
  "normalize_message msg =
     (let msg = fold_message_reasoning msg
      in case rm_content msg of
           None \<Rightarrow> msg
         | Some content \<Rightarrow>
             if content = [] then msg
             else
               let (extracted, cleaned) = extract_think_tags content builtin_think_pairs;
                   msg = msg\<lparr>rm_content := Some cleaned\<rparr>
               in case extracted of
                    Some x \<Rightarrow>
                      if x \<noteq> []
                      then msg\<lparr>rm_reasoning_content := merge_nonempty (rm_reasoning_content msg) (Some x)\<rparr>
                      else msg
                  | None \<Rightarrow> msg)"

definition normalize_chat_response :: "chat_response \<Rightarrow> chat_response" where
  "normalize_chat_response resp =
     resp\<lparr>resp_choices := map (\<lambda>c. c\<lparr>ch_message := normalize_message (ch_message c)\<rparr>) (resp_choices resp)\<rparr>"

section \<open>What the client sees\<close>

text \<open>The reasoning of a message: its non-empty sources in order of precedence.\<close>

definition thinking_text :: "json option \<Rightarrow> string option" where
  "thinking_text t = (case t of Some (JStr s) \<Rightarrow> Some s | _ \<Rightarrow> None)"

definition sources :: "string option list \<Rightarrow> string list" where
  "sources xs = filter (\<lambda>s. s \<noteq> []) (List.map_filter id xs)"

definition merged :: "string list \<Rightarrow> string option" where
  "merged parts = (if parts = [] then None else Some (join newline parts))"

lemma sources_simps [simp]:
  "sources [] = []"
  "sources (x # xs) = (case take_nonempty x of Some s \<Rightarrow> [s] | None \<Rightarrow> []) @ sources xs"
  by (auto simp: sources_def map_filter_def take_nonempty_def split: option.splits)

lemma sources_nonempty: "[] \<notin> set (sources xs)"
  by (simp add: sources_def)

lemma merge_merged:
  assumes "[] \<notin> set parts" and "s \<noteq> []"
  shows "merge_nonempty (merged parts) (Some s) = merged (parts @ [s])"
  using assms by (auto simp: merged_def join_snoc join_eq_Nil)

lemma fold_merge:
  assumes "[] \<notin> set parts" and "[] \<notin> set ss"
  shows "fold (\<lambda>next acc. merge_nonempty acc (Some next)) ss (merged parts) = merged (parts @ ss)"
  using assms by (induction ss arbitrary: parts) (auto simp: merge_merged)

lemma fold_merge_None:
  "[] \<notin> set ss \<Longrightarrow> fold (\<lambda>next acc. merge_nonempty acc (Some next)) ss None = merged ss"
  using fold_merge [of "[]" ss] by (simp add: merged_def)

definition alias_sources :: "response_message \<Rightarrow> string option list" where
  "alias_sources msg =
     [rm_reasoning_content msg, rm_reasoning msg, rm_reasoning_text msg, thinking_text (rm_thinking msg)]"

definition rest_thinking :: "json option \<Rightarrow> json option" where
  "rest_thinking t = (if take_nonempty (thinking_text t) = None then t else None)"

lemma fold_message_reasoning_eq:
  "fold_message_reasoning msg =
     msg\<lparr>rm_reasoning_content := merged (sources (alias_sources msg)), rm_reasoning := None,
       rm_reasoning_text := None, rm_thinking := rest_thinking (rm_thinking msg)\<rparr>"
proof -
  have "merged (sources (alias_sources msg)) =
      fold (\<lambda>next acc. merge_nonempty acc (Some next)) (sources (alias_sources msg)) None"
    using fold_merge_None [OF sources_nonempty] by simp
  then show ?thesis
    by (auto simp: fold_message_reasoning_def alias_sources_def Let_def rest_thinking_def thinking_text_def
        take_nonempty_def split: option.splits json.splits)
qed

definition normalized_message :: "response_message \<Rightarrow> response_message" where
  "normalized_message msg =
     msg\<lparr>rm_content := map_option (\<lambda>c. side InText (fst (split_ref builtin_think_pairs InText c))) (rm_content msg),
       rm_reasoning_content := merged (sources (alias_sources msg @
         [Option.bind (rm_content msg) (\<lambda>c. fst (extract_think_tags c builtin_think_pairs))])),
       rm_reasoning := None, rm_reasoning_text := None, rm_thinking := rest_thinking (rm_thinking msg)\<rparr>"

lemma snd_extract:
  "snd (extract_think_tags c builtin_think_pairs) = side InText (fst (split_ref builtin_think_pairs InText c))"
  using builtin.extract_ref [of c] by (metis prod.collapse)

lemma extract_empty: "extract_think_tags [] builtin_think_pairs = (None, [])"
  by code_simp

lemma sources_snoc: "sources (xs @ [x]) = sources xs @ (case take_nonempty x of Some s \<Rightarrow> [s] | None \<Rightarrow> [])"
  by (induction xs) simp_all

lemma normalize_message_eq: "normalize_message msg = normalized_message msg"
  using extract_empty snd_extract [of "[]"]
  by (cases "rm_content msg")
    (auto simp: normalize_message_def normalized_message_def fold_message_reasoning_eq Let_def sources_snoc
      snd_extract [symmetric] take_nonempty_def merge_merged [OF sources_nonempty] split: option.splits prod.splits)


end
