(* ===== verification/Bad_Keys.thy ===== *)
theory Bad_Keys
  imports Json_Value
begin

text \<open>
  Upstream credentials (\<open>KeyEntry\<close> of \<open>config/mod.rs\<close>) and the registry of temporarily excluded keys
  (\<open>BadKeyRegistry\<close> of \<open>router.rs\<close>). The registry keeps, per pool, the list of the identity hashes
  that were reported, with repetitions; what its clients rely on is the set of excluded
  (pool, hash) pairs, which the locale \<open>exclusions\<close> states and the registry is shown to implement.
  \<open>compute_key_hash\<close> is the first six bytes of a SHA-256 digest in hexadecimal: the digest belongs
  to a library, so the hash is a parameter \<open>H\<close> of what uses it.
\<close>

section \<open>Credentials\<close>

datatype credential_type = ApiKey | Oauth

record key_entry =
  ke_key :: string
  ke_weight :: u32
  ke_cred_type :: credential_type
  ke_refresh :: "string option"
  ke_expires :: "int option"
  ke_issuer :: "string option"
  ke_identity :: "string option"

definition api_key :: "string \<Rightarrow> u32 \<Rightarrow> key_entry" where
  "api_key key w =
     \<lparr>ke_key = key, ke_weight = w, ke_cred_type = ApiKey, ke_refresh = None, ke_expires = None,
      ke_issuer = None, ke_identity = None\<rparr>"

definition oauth_key :: "string \<Rightarrow> string \<Rightarrow> string \<Rightarrow> u32 \<Rightarrow> int option \<Rightarrow> key_entry" where
  "oauth_key access refresh issuer w expires =
     \<lparr>ke_key = access, ke_weight = w, ke_cred_type = Oauth, ke_refresh = Some refresh, ke_expires = expires,
      ke_issuer = Some issuer, ke_identity = None\<rparr>"

definition is_oauth :: "key_entry \<Rightarrow> bool" where
  "is_oauth k = (ke_cred_type k = Oauth)"

definition nonempty :: "string option \<Rightarrow> string option" where
  "nonempty x = (case x of Some s \<Rightarrow> if s = [] then None else Some s | None \<Rightarrow> None)"

definition identity_secret :: "key_entry \<Rightarrow> string" where
  "identity_secret k =
     (if is_oauth k then (case nonempty (ke_refresh k) of Some s \<Rightarrow> s | None \<Rightarrow> ke_key k) else ke_key k)"

definition identity_hash :: "(string \<Rightarrow> string) \<Rightarrow> key_entry \<Rightarrow> string" where
  "identity_hash H k = (case nonempty (ke_identity k) of Some s \<Rightarrow> s | None \<Rightarrow> H (identity_secret k))"

record pool_config =
  pc_keys :: "key_entry list"

section \<open>The registry\<close>

type_synonym registry = "(string, string list) dmap"

definition registry_new :: registry where
  "registry_new = []"

definition mark_bad :: "string \<Rightarrow> string \<Rightarrow> registry \<Rightarrow> registry" where
  "mark_bad pool_id key_hash bad = dm_insert pool_id (dm_get_or bad pool_id [] @ [key_hash]) bad"

definition is_bad :: "registry \<Rightarrow> string \<Rightarrow> string \<Rightarrow> bool" where
  "is_bad bad pool_id key_hash =
     (case dm_get bad pool_id of Some list \<Rightarrow> list_ex (\<lambda>k. k = key_hash) list | None \<Rightarrow> False)"

definition all_bad :: "registry \<Rightarrow> string \<Rightarrow> nat \<Rightarrow> bool" where
  "all_bad bad pool_id total_keys =
     (case dm_get bad pool_id of Some list \<Rightarrow> total_keys \<le> length list | None \<Rightarrow> False)"

definition registry_snapshot :: "registry \<Rightarrow> (string \<times> string) list" where
  "registry_snapshot bad = concat (map (\<lambda>(pool, keys). map (\<lambda>kh. (pool, kh)) keys) bad)"

definition remove_bad :: "string \<Rightarrow> string \<Rightarrow> registry \<Rightarrow> registry" where
  "remove_bad pool_id key_hash bad =
     (case dm_get bad pool_id of
        None \<Rightarrow> bad
      | Some list \<Rightarrow>
          (let list = filter (\<lambda>k. k \<noteq> key_hash) list
           in if list = [] then dm_remove pool_id bad else dm_insert pool_id list bad))"

section \<open>Its contract\<close>

locale exclusions =
  fixes inv :: "'r \<Rightarrow> bool"
    and mem :: "'r \<Rightarrow> string \<Rightarrow> string \<Rightarrow> bool"
    and mark :: "string \<Rightarrow> string \<Rightarrow> 'r \<Rightarrow> 'r"
    and revive :: "string \<Rightarrow> string \<Rightarrow> 'r \<Rightarrow> 'r"
    and entries :: "'r \<Rightarrow> (string \<times> string) list"
  assumes inv_mark: "inv r \<Longrightarrow> inv (mark p h r)"
    and inv_revive: "inv r \<Longrightarrow> inv (revive p h r)"
    and mem_mark: "mem (mark p h r) p' h' \<longleftrightarrow> (p', h') = (p, h) \<or> mem r p' h'"
    and mem_revive: "mem (revive p h r) p' h' \<longleftrightarrow> (p', h') \<noteq> (p, h) \<and> mem r p' h'"
    and entries_mem: "inv r \<Longrightarrow> set (entries r) = {(p, h). mem r p h}"
begin

text \<open>Excluding and re-admitting the keys of a batch.\<close>

lemma mem_mark_all:
  "mem (fold (\<lambda>(p, h). mark p h) es r) p' h' \<longleftrightarrow> (p', h') \<in> set es \<or> mem r p' h'"
  by (induction es arbitrary: r) (simp_all add: mem_mark case_prod_beta prod_eq_iff disj_assoc disj_left_commute)

lemma mem_revive_all:
  "mem (fold (\<lambda>(p, h). revive p h) es r) p' h' \<longleftrightarrow> (p', h') \<notin> set es \<and> mem r p' h'"
  by (induction es arbitrary: r) (simp_all add: mem_revive case_prod_beta prod_eq_iff conj_ac)

lemma revive_mark: "mem (revive p h (mark p h r)) p' h' \<longleftrightarrow> mem (revive p h r) p' h'"
  by (auto simp: mem_mark mem_revive)

lemma revive_entries:
  assumes "inv r"
  shows "\<not> mem (fold (\<lambda>(p, h). revive p h) (entries r) r) p h"
  using entries_mem [OF assms] by (auto simp: mem_revive_all)

end

definition registry_inv :: "registry \<Rightarrow> bool" where
  "registry_inv bad = (dm_wf bad \<and> list_all (\<lambda>(_, keys). keys \<noteq> []) bad)"

lemma is_bad_iff: "is_bad bad p h \<longleftrightarrow> h \<in> set (dm_get_or bad p [])"
  by (auto simp: is_bad_def dm_get_or_def list_ex_iff split: option.splits)

lemma registry_inv_mark: "registry_inv r \<Longrightarrow> registry_inv (mark_bad p h r)"
  by (simp add: registry_inv_def mark_bad_def dm_values_insert)

lemma registry_inv_remove: "registry_inv r \<Longrightarrow> registry_inv (remove_bad p h r)"
  by (cases "dm_get r p")
    (simp_all add: registry_inv_def remove_bad_def Let_def dm_values_insert dm_values_remove)

lemma is_bad_mark: "is_bad (mark_bad p h r) p' h' \<longleftrightarrow> (p', h') = (p, h) \<or> is_bad r p' h'"
  by (auto simp: is_bad_iff mark_bad_def)

lemma is_bad_remove: "is_bad (remove_bad p h r) p' h' \<longleftrightarrow> (p', h') \<noteq> (p, h) \<and> is_bad r p' h'"
  by (cases "dm_get r p") (auto simp: is_bad_iff remove_bad_def Let_def dm_get_or_def filter_empty_conv)

lemma set_registry_snapshot:
  assumes "dm_wf r"
  shows "set (registry_snapshot r) = {(p, h). is_bad r p h}"
proof -
  have "is_bad r p h \<longleftrightarrow> (\<exists>ks. (p, ks) \<in> set r \<and> h \<in> set ks)" for p h
    by (cases "dm_get r p") (simp_all add: is_bad_iff dm_get_or_def flip: dm_get_in_set [OF assms])
  then show ?thesis by (auto simp: registry_snapshot_def)
qed

interpretation reg: exclusions registry_inv is_bad mark_bad remove_bad registry_snapshot
  by (unfold_locales; (rule registry_inv_mark | rule registry_inv_remove | rule is_bad_mark | rule is_bad_remove
      | rule set_registry_snapshot)?) (simp_all add: registry_inv_def)

end
