(* ===== verification/App_Error.thy ===== *)
theory App_Error
  imports Proxy_Prelude
begin

text \<open>
  The gateway's error type (\<open>src/error.rs\<close>): \<open>AppError\<close>, its conversion to an OpenAI-format HTTP
  response, and the structured error codes the audit log derives from it (\<open>src/audit/mod.rs\<close>).
\<close>

section \<open>AppError\<close>

datatype app_error =
    Config string
  | Auth string
  | NotFound string
  | BadRequest string
  | Upstream (up_status: "u16 option") (up_retryable: bool) (up_bad_key_hint: bool) (up_msg: string)
  | Internal string

type_synonym 'a result = "app_error + 'a"

text \<open>The JSON body \<open>{error: {message, type, code}}\<close> and the HTTP status sent with it.\<close>

record error_body =
  eb_message :: string
  eb_type :: string
  eb_code :: u16

record error_response =
  er_status :: u16
  er_body :: error_body

text \<open>\<open>upstream_status.filter(|s| (400..600).contains(s))\<close>; \<open>StatusCode::from_u16\<close> accepts every
  code of that range, so the fallback is used exactly when the filter rejects.\<close>

definition upstream_http_status :: "u16 option \<Rightarrow> u16" where
  "upstream_http_status st =
     (case st of Some s \<Rightarrow> if 400 \<le> s \<and> s < 600 then s else 502 | None \<Rightarrow> 502)"

fun error_parts :: "app_error \<Rightarrow> u16 \<times> string \<times> string" where
  "error_parts (Config msg) = (500, ''config_error'', msg)"
| "error_parts (Auth msg) = (401, ''auth_error'', msg)"
| "error_parts (NotFound msg) = (404, ''not_found'', msg)"
| "error_parts (BadRequest msg) = (400, ''bad_request'', msg)"
| "error_parts (Upstream st _ _ msg) = (upstream_http_status st, ''upstream_error'', msg)"
| "error_parts (Internal msg) = (500, ''internal_error'', msg)"

definition into_response :: "app_error \<Rightarrow> error_response" where
  "into_response e =
     (case error_parts e of (status, error_type, message) \<Rightarrow>
        \<lparr>er_status = status,
         er_body = \<lparr>eb_message = message, eb_type = error_type, eb_code = status\<rparr>\<rparr>)"

lemma upstream_http_status_range:
  "400 \<le> upstream_http_status st \<and> upstream_http_status st < 600"
  by (auto simp: upstream_http_status_def split: option.splits)

lemma into_response_status:
  "400 \<le> er_status (into_response e) \<and> er_status (into_response e) < 600 \<and>
   eb_code (er_body (into_response e)) = er_status (into_response e)"
  using upstream_http_status_range [of "up_status e"] by (cases e) (auto simp: into_response_def)

section \<open>Structured error codes\<close>

datatype error_code =
    NoErrorCode
  | InvalidApiKey
  | RateLimitExceeded
  | ModelNotFound
  | ContentFilter
  | UpstreamTimeout
  | PoolExhausted
  | Other string

text \<open>\<open>to_string\<close> of an \<open>AppError\<close> (the \<open>thiserror\<close> format strings). The status is printed with its
  \<open>Debug\<close> form.\<close>

definition show_status :: "u16 option \<Rightarrow> string" where
  "show_status st = (case st of None \<Rightarrow> ''None'' | Some s \<Rightarrow> ''Some('' @ show_nat (unat s) @ '')'')"

fun error_to_string :: "app_error \<Rightarrow> string" where
  "error_to_string (Config m) = ''Configuration error: '' @ m"
| "error_to_string (Auth m) = ''Authentication failed: '' @ m"
| "error_to_string (NotFound m) = ''Not found: '' @ m"
| "error_to_string (BadRequest m) = ''Bad request: '' @ m"
| "error_to_string (Upstream st _ _ m) = ''Upstream error (status='' @ show_status st @ ''): '' @ m"
| "error_to_string (Internal m) = ''Internal error: '' @ m"

definition from_app_error :: "app_error \<Rightarrow> error_code" where
  "from_app_error err =
     (case err of
        Auth _ \<Rightarrow> InvalidApiKey
      | NotFound _ \<Rightarrow> ModelNotFound
      | Upstream st _ _ _ \<Rightarrow>
          (if st = Some 429 then RateLimitExceeded
           else if st = None then UpstreamTimeout
           else Other (error_to_string err))
      | Internal msg \<Rightarrow>
          (if starts_with msg ''all keys in pool'' then PoolExhausted
           else Other (error_to_string err))
      | _ \<Rightarrow> Other (error_to_string err))"

end
