(* ===== verification/Key_Router.thy ===== *)
theory Key_Router
  imports Bad_Keys App_Error
begin

text \<open>
  Model routing and weighted key selection (\<open>router.rs\<close>, with the routing boundary \<open>chat_service.rs\<close>).
  The registry of excluded keys is shared by every router built from the configuration, so it is a
  separate state that the operations read and return. \<open>WeightedIndex\<close> and the random generator
  belong to a library: a sampler maps the generator state and the weights to the index drawn, or to
  nothing when the distribution cannot be built.
\<close>

type_synonym route = "string \<times> pool_config \<times> json option \<times> string option"

record 'p router =
  rt_model_map :: "(string, route) dmap"
  rt_providers :: "(string, 'p) dmap"

type_synonym 'g sampler = "'g \<Rightarrow> u32 list \<Rightarrow> nat option"

definition resolve :: "'p router \<Rightarrow> string \<Rightarrow> ('p \<times> pool_config \<times> string \<times> json option \<times> string option) result" where
  "resolve rt model =
     (case dm_get (rt_model_map rt) model of
        None \<Rightarrow> Inl (NotFound (''model '' @ [CHR 0x27] @ model @ [CHR 0x27] @ '' not found''))
      | Some (pool_id, pool, default_params, upstream_model) \<Rightarrow>
          (case dm_get (rt_providers rt) pool_id of
             None \<Rightarrow> Inl (Config (''pool '' @ [CHR 0x27] @ pool_id @ [CHR 0x27] @ '' not found''))
           | Some provider \<Rightarrow> Inr (provider, pool, pool_id, default_params, upstream_model)))"

definition selectable :: "(string \<Rightarrow> string) \<Rightarrow> registry \<Rightarrow> string \<Rightarrow> key_entry \<Rightarrow> bool" where
  "selectable H bad pool_id k = (0 < ke_weight k \<and> \<not> is_bad bad pool_id (identity_hash H k))"

definition healthy_key_count :: "(string \<Rightarrow> string) \<Rightarrow> registry \<Rightarrow> pool_config \<Rightarrow> string \<Rightarrow> nat" where
  "healthy_key_count H bad pool pool_id = length (filter (selectable H bad pool_id) (pc_keys pool))"

definition pick_key ::
  "(string \<Rightarrow> string) \<Rightarrow> 'g sampler \<Rightarrow> 'g \<Rightarrow> registry \<Rightarrow> pool_config \<Rightarrow> string \<Rightarrow> key_entry option" where
  "pick_key H sample g bad pool pool_id =
     (let candidates = filter (\<lambda>(_, k). selectable H bad pool_id k) (List.enumerate 0 (pc_keys pool))
      in if candidates = [] then None
         else
           let weights = map (\<lambda>(_, k). ke_weight k) candidates
           in map_option (\<lambda>idx. snd (candidates ! idx)) (sample g weights))"

definition router_mark_bad :: "(string \<Rightarrow> string) \<Rightarrow> string \<Rightarrow> key_entry \<Rightarrow> registry \<Rightarrow> registry" where
  "router_mark_bad H pool_id key bad = mark_bad pool_id (identity_hash H key) bad"

definition try_demote ::
  "(string \<Rightarrow> string) \<Rightarrow> pool_config \<Rightarrow> string \<Rightarrow> key_entry \<Rightarrow> registry \<Rightarrow> bool \<times> registry" where
  "try_demote H pool pool_id key bad =
     (if healthy_key_count H bad pool pool_id \<le> 1 then (False, bad)
      else (True, router_mark_bad H pool_id key bad))"

definition pool_exhausted :: "string \<Rightarrow> app_error" where
  "pool_exhausted pool_id = Internal (''all keys in pool '' @ [CHR 0x27] @ pool_id @ [CHR 0x27] @ '' exhausted'')"

definition model_list :: "'p router \<Rightarrow> string list" where
  "model_list rt = sort (map fst (rt_model_map rt))"

definition model_pool_list :: "'p router \<Rightarrow> (string \<times> string) list" where
  "model_pool_list rt = sort_key fst (map (\<lambda>(model, pool, _, _, _). (model, pool)) (rt_model_map rt))"

record key_snapshot =
  ks_key_hash :: string
  ks_weight :: u32
  ks_healthy :: bool

record pool_snapshot =
  ps_pool_id :: string
  ps_keys :: "key_snapshot list"

definition snapshot_key :: "(string \<Rightarrow> string) \<Rightarrow> registry \<Rightarrow> string \<Rightarrow> key_entry \<Rightarrow> key_snapshot" where
  "snapshot_key H bad pool_id k =
     (let kh = identity_hash H k
      in \<lparr>ks_key_hash = kh, ks_weight = ke_weight k, ks_healthy = (\<not> is_bad bad pool_id kh)\<rparr>)"

fun pool_snapshots ::
  "(string \<Rightarrow> string) \<Rightarrow> registry \<Rightarrow> string list \<Rightarrow> (string \<times> route) list \<Rightarrow> pool_snapshot list" where
  "pool_snapshots H bad seen [] = []"
| "pool_snapshots H bad seen ((_, (pool_id, pool, _, _)) # rest) =
     (if pool_id \<in> set seen then pool_snapshots H bad seen rest
      else \<lparr>ps_pool_id = pool_id, ps_keys = map (snapshot_key H bad pool_id) (pc_keys pool)\<rparr> #
        pool_snapshots H bad (pool_id # seen) rest)"

definition router_pool_snapshot :: "(string \<Rightarrow> string) \<Rightarrow> registry \<Rightarrow> 'p router \<Rightarrow> pool_snapshot list" where
  "router_pool_snapshot H bad rt = pool_snapshots H bad [] (rt_model_map rt)"

text \<open>The handle through which a rebuilt router is swapped in (\<open>RouterHandle\<close>).\<close>

record 'p router_handle =
  rh_current :: "'p router"

definition handle_swap :: "'p router \<Rightarrow> 'p router_handle \<Rightarrow> 'p router_handle" where
  "handle_swap rt h = h\<lparr>rh_current := rt\<rparr>"

section \<open>Selection\<close>

text \<open>What the documentation of \<open>WeightedIndex\<close> promises: a distribution over positive weights whose
  sum fits the weight type can be built, and it draws an index in range.\<close>

definition sampler_ok :: "'g sampler \<Rightarrow> bool" where
  "sampler_ok sample =
     ((\<forall>g ws. ws \<noteq> [] \<longrightarrow> list_all (\<lambda>w. 0 < w) ws \<longrightarrow> sum_list (map unat ws) < 2 ^ 32 \<longrightarrow>
        (\<exists>i. sample g ws = Some i)) \<and>
      (\<forall>g ws i. sample g ws = Some i \<longrightarrow> i < length ws))"

lemma sampler_ok_in_range: "sampler_ok sample \<Longrightarrow> sample g ws = Some i \<Longrightarrow> i < length ws"
  by (simp add: sampler_ok_def)

lemma candidates_keys:
  "map snd (filter (\<lambda>(_, k). P k) (List.enumerate n ks)) = filter P ks"
  by (induction ks arbitrary: n) auto

lemma sum_list_filter_le: "sum_list (map f (filter P xs)) \<le> sum_list (map (f::_ \<Rightarrow> nat) xs)"
  by (induction xs) auto


lemma pick_key_Some:
  assumes "sampler_ok sample" and "pick_key H sample g bad pool pool_id = Some k"
  shows "k \<in> set (pc_keys pool) \<and> selectable H bad pool_id k"
proof -
  let ?c = "filter (\<lambda>(_, k). selectable H bad pool_id k) (List.enumerate 0 (pc_keys pool))"
  obtain i where i: "sample g (map (\<lambda>(_, k). ke_weight k) ?c) = Some i" and k: "k = snd (?c ! i)"
    using assms(2) by (auto simp: pick_key_def Let_def split: if_splits)
  have "i < length ?c" using sampler_ok_in_range [OF assms(1) i] by simp
  then have "snd (?c ! i) \<in> set (map snd ?c)" by (metis length_map nth_map nth_mem)
  then show ?thesis unfolding k candidates_keys by simp
qed

lemma pick_key_None:
  assumes ok: "sampler_ok sample" and fits: "sum_list (map (unat \<circ> ke_weight) (pc_keys pool)) < 2 ^ 32"
  shows "pick_key H sample g bad pool pool_id = None \<longleftrightarrow> healthy_key_count H bad pool pool_id = 0"
proof -
  let ?c = "filter (\<lambda>(_, k). selectable H bad pool_id k) (List.enumerate 0 (pc_keys pool))"
  let ?ws = "map (\<lambda>(_, k). ke_weight k) ?c"
  have "?ws = map ke_weight (map snd ?c)" by (simp add: case_prod_beta)
  then have ws: "?ws = map ke_weight (filter (selectable H bad pool_id) (pc_keys pool))"
    by (simp only: candidates_keys)
  have "length (map snd ?c) = healthy_key_count H bad pool pool_id"
    by (simp only: candidates_keys healthy_key_count_def)
  then have empty: "?c = [] \<longleftrightarrow> healthy_key_count H bad pool pool_id = 0" by (metis length_0_conv length_map)
  have "list_all (\<lambda>w. 0 < w) ?ws" unfolding ws by (auto simp: list_all_iff selectable_def)
  moreover have "sum_list (map unat ?ws) < 2 ^ 32"
    using sum_list_filter_le [of "unat \<circ> ke_weight" "selectable H bad pool_id" "pc_keys pool"] fits
    unfolding ws by simp
  ultimately have "?c \<noteq> [] \<Longrightarrow> \<exists>i. sample g ?ws = Some i"
    using ok by (simp add: sampler_ok_def)
  then show ?thesis using empty by (auto simp: pick_key_def Let_def)
qed


text \<open>A sampler that draws the first index, and a pool of two keys.\<close>

definition first_sampler :: "unit sampler" where
  "first_sampler g ws = (if ws = [] then None else Some 0)"

lemma sampler_ok_first: "sampler_ok first_sampler"
  by (auto simp: sampler_ok_def first_sampler_def split: if_splits)

definition two_keys :: pool_config where
  "two_keys = \<lparr>pc_keys = [api_key ''a'' 1, api_key ''b'' 2]\<rparr>"


section \<open>Demotion\<close>

lemma selectable_mark:
  "selectable H (mark_bad pool_id h bad) p k \<longleftrightarrow>
     selectable H bad p k \<and> \<not> (p = pool_id \<and> identity_hash H k = h)"
  by (auto simp: selectable_def is_bad_mark)

definition healthy_distinct :: "(string \<Rightarrow> string) \<Rightarrow> registry \<Rightarrow> pool_config \<Rightarrow> string \<Rightarrow> bool" where
  "healthy_distinct H bad pool pool_id =
     distinct (map (identity_hash H) (filter (selectable H bad pool_id) (pc_keys pool)))"

lemma filter_selectable_mark:
  "filter (selectable H (mark_bad q h bad) p) ks =
     filter (\<lambda>k. \<not> (p = q \<and> identity_hash H k = h)) (filter (selectable H bad p) ks)"
  unfolding filter_filter by (rule filter_cong) (simp_all add: selectable_mark)

lemma healthy_after_mark:
  "healthy_key_count H (mark_bad pool_id h bad) pool pool_id =
     length (filter (\<lambda>k. identity_hash H k \<noteq> h) (filter (selectable H bad pool_id) (pc_keys pool)))"
  by (simp add: healthy_key_count_def filter_selectable_mark del: filter_filter)

lemma length_filter_hash:
  assumes "distinct (map f ks)"
  shows "length (filter (\<lambda>k. f k \<noteq> h) ks) = (if h \<in> f ` set ks then length ks - 1 else length ks)"
proof -
  have "length (filter (\<lambda>k. f k \<noteq> h) ks) = length (filter (\<lambda>x. x \<noteq> h) (map f ks))"
    by (simp add: filter_map o_def)
  also have "filter (\<lambda>x. x \<noteq> h) (map f ks) = remove1 h (map f ks)"
    using distinct_remove1_removeAll [OF assms, of h] by (simp add: removeAll_filter_not_eq eq_commute)
  finally show ?thesis by (simp add: length_remove1)
qed

lemma healthy_distinct_mark: "healthy_distinct H bad pool p \<Longrightarrow> healthy_distinct H (mark_bad q h bad) pool p"
  unfolding healthy_distinct_def filter_selectable_mark by (rule distinct_map_filter)

text \<open>
  Demotion in a pool whose healthy keys have different identities: the last healthy key is
  never demoted, a successful demotion excludes exactly the given key, and otherwise nothing changes.
\<close>

theorem try_demote_keeps_last:
  assumes "healthy_distinct H bad pool pool_id" and "try_demote H pool pool_id key bad = (demoted, bad')"
    and "key \<in> set (pc_keys pool)" and "selectable H bad pool_id key"
  shows "healthy_key_count H bad' pool pool_id =
      (if demoted then healthy_key_count H bad pool pool_id - 1 else healthy_key_count H bad pool pool_id) \<and>
    1 \<le> healthy_key_count H bad' pool pool_id \<and>
    (demoted \<longleftrightarrow> 1 < healthy_key_count H bad pool pool_id) \<and>
    (\<forall>p h. is_bad bad' p h \<longleftrightarrow> is_bad bad p h \<or> demoted \<and> (p, h) = (pool_id, identity_hash H key))"
proof -
  let ?ks = "filter (selectable H bad pool_id) (pc_keys pool)"
  have "key \<in> set ?ks" using assms(3,4) by simp
  then have "length (filter (\<lambda>k. identity_hash H k \<noteq> identity_hash H key) ?ks) = length ?ks - 1"
    using length_filter_hash [OF assms(1) [unfolded healthy_distinct_def], of "identity_hash H key"]
    by (metis image_eqI)
  moreover have "0 < length ?ks" using \<open>key \<in> set ?ks\<close> by (rule length_pos_if_in_set)
  ultimately show ?thesis
    using assms(2) healthy_after_mark [of H pool_id "identity_hash H key" bad pool]
    by (auto simp: try_demote_def router_mark_bad_def is_bad_mark healthy_key_count_def Suc_le_eq split: if_splits)
qed

lemma try_demote_healthy:
  assumes "healthy_distinct H bad pool pool_id" and "1 \<le> healthy_key_count H bad pool pool_id"
  shows "healthy_distinct H (snd (try_demote H pool pool_id key bad)) pool pool_id \<and>
    1 \<le> healthy_key_count H (snd (try_demote H pool pool_id key bad)) pool pool_id"
  using assms length_filter_hash [OF assms(1) [unfolded healthy_distinct_def], of "identity_hash H key"]
  by (auto simp: try_demote_def router_mark_bad_def healthy_distinct_mark healthy_after_mark
      healthy_key_count_def [of H bad] split: if_splits)

theorem try_demote_keeps_last_witness:
  "1 \<le> healthy_key_count id (snd (try_demote id two_keys ''p'' (api_key ''a'' 1) registry_new)) two_keys ''p''"
proof -
  have "healthy_distinct id registry_new two_keys ''p''" by code_simp
  moreover have "api_key ''a'' 1 \<in> set (pc_keys two_keys)" by code_simp
  moreover have "selectable id registry_new ''p'' (api_key ''a'' 1)" by code_simp
  ultimately show ?thesis using try_demote_keeps_last [OF _ prod.collapse [symmetric]] by blast
qed

text \<open>
  C25. However many demotions are requested one after the other, of whatever keys, a pool whose
  healthy keys have different identities keeps a healthy key.
\<close>

theorem demotions_keep_one:
  assumes "healthy_distinct H bad pool pool_id" and "1 \<le> healthy_key_count H bad pool pool_id"
  shows "1 \<le> healthy_key_count H (fold (\<lambda>key bad. snd (try_demote H pool pool_id key bad)) keys bad) pool pool_id"
  using assms try_demote_healthy by (induction keys arbitrary: bad) simp_all

theorem demotions_keep_one_witness:
  "1 \<le> healthy_key_count id
     (fold (\<lambda>key bad. snd (try_demote id two_keys ''p'' key bad)) (pc_keys two_keys) registry_new) two_keys ''p''"
  by (rule demotions_keep_one) code_simp+

text \<open>
  The check and the exclusion are two steps: between them other requests run. A task is about to
  check the pool, about to exclude its key, or done with a verdict.
\<close>

datatype demotion = Checking key_entry | Marking key_entry | Demoted bool

inductive demote_step ::
  "(string \<Rightarrow> string) \<Rightarrow> pool_config \<Rightarrow> string \<Rightarrow> registry \<times> demotion list \<Rightarrow> registry \<times> demotion list \<Rightarrow> bool"
  for H pool pool_id where
  check_last: "i < length ts \<Longrightarrow> ts ! i = Checking key \<Longrightarrow> healthy_key_count H bad pool pool_id \<le> 1 \<Longrightarrow>
    demote_step H pool pool_id (bad, ts) (bad, ts[i := Demoted False])"
| check_more: "i < length ts \<Longrightarrow> ts ! i = Checking key \<Longrightarrow> \<not> healthy_key_count H bad pool pool_id \<le> 1 \<Longrightarrow>
    demote_step H pool pool_id (bad, ts) (bad, ts[i := Marking key])"
| exclude: "i < length ts \<Longrightarrow> ts ! i = Marking key \<Longrightarrow>
    demote_step H pool pool_id (bad, ts) (router_mark_bad H pool_id key bad, ts[i := Demoted True])"

text \<open>One task alone takes exactly the steps of \<^const>\<open>try_demote\<close>.\<close>

lemma demote_alone:
  "(demote_step H pool pool_id)\<^sup>*\<^sup>* (bad, [Checking key])
     (snd (try_demote H pool pool_id key bad), [Demoted (fst (try_demote H pool pool_id key bad))])"
proof (cases "healthy_key_count H bad pool pool_id \<le> 1")
  case True
  then show ?thesis
    using check_last [of 0 "[Checking key]" key H bad pool pool_id] by (auto simp: try_demote_def)
next
  case False
  then show ?thesis
    using check_more [of 0 "[Checking key]" key H bad pool pool_id]
      exclude [of 0 "[Marking key]" key H pool pool_id bad]
    by (auto simp: try_demote_def intro: converse_rtranclp_into_rtranclp)
qed

text \<open>
  Two requests that demote different keys of a pool with exactly two healthy keys at the same
  time can both pass the check before either key is excluded, and leave the pool without a healthy key.
\<close>

theorem demotion_race:
  "\<exists>bad'. (demote_step id two_keys ''p'')\<^sup>*\<^sup>*
       (registry_new, [Checking (api_key ''a'' 1), Checking (api_key ''b'' 2)])
       (bad', [Demoted True, Demoted True]) \<and>
     healthy_key_count id registry_new two_keys ''p'' = 2 \<and> healthy_key_count id bad' two_keys ''p'' = 0"
proof -
  let ?step = "demote_step id two_keys ''p''"
  let ?a = "api_key ''a'' 1" and ?b = "api_key ''b'' 2"
  let ?bad = "router_mark_bad id ''p'' ?a registry_new"
  have two: "healthy_key_count id registry_new two_keys ''p'' = 2" by code_simp
  have s1: "?step (registry_new, [Checking ?a, Checking ?b]) (registry_new, [Marking ?a, Checking ?b])"
    using check_more [of 0 "[Checking ?a, Checking ?b]" ?a id registry_new two_keys "''p''"] two by simp
  have s2: "?step (registry_new, [Marking ?a, Checking ?b]) (registry_new, [Marking ?a, Marking ?b])"
    using check_more [of 1 "[Marking ?a, Checking ?b]" ?b id registry_new two_keys "''p''"] two by simp
  have s3: "?step (registry_new, [Marking ?a, Marking ?b]) (?bad, [Demoted True, Marking ?b])"
    using exclude [of 0 "[Marking ?a, Marking ?b]" ?a id two_keys "''p''" registry_new] by simp
  have s4: "?step (?bad, [Demoted True, Marking ?b])
      (router_mark_bad id ''p'' ?b ?bad, [Demoted True, Demoted True])"
    using exclude [of 1 "[Demoted True, Marking ?b]" ?b id two_keys "''p''" ?bad] by simp
  then have "?step\<^sup>*\<^sup>* (registry_new, [Checking ?a, Checking ?b])
      (router_mark_bad id ''p'' ?b ?bad, [Demoted True, Demoted True])"
    using rtranclp.rtrancl_into_rtrancl [where r = ?step] r_into_rtranclp [where r = ?step, OF s1] s2 s3 by blast
  moreover have "healthy_key_count id (router_mark_bad id ''p'' ?b ?bad) two_keys ''p'' = 0" by code_simp
  ultimately show ?thesis using two by blast
qed

text \<open>
  A pool that lists the same key twice counts it as two healthy keys, so that demoting it
  empties the pool.
\<close>

theorem duplicate_key_demotion:
  assumes "0 < ke_weight key"
  shows "healthy_key_count H registry_new \<lparr>pc_keys = [key, key]\<rparr> pool_id = 2 \<and>
    fst (try_demote H \<lparr>pc_keys = [key, key]\<rparr> pool_id key registry_new) \<and>
    healthy_key_count H (snd (try_demote H \<lparr>pc_keys = [key, key]\<rparr> pool_id key registry_new))
      \<lparr>pc_keys = [key, key]\<rparr> pool_id = 0"
  using assms
  by (simp add: healthy_key_count_def try_demote_def router_mark_bad_def registry_new_def selectable_def
      is_bad_iff dm_get_or_def mark_bad_def)

theorem duplicate_key_demotion_witness:
  "healthy_key_count id (snd (try_demote id \<lparr>pc_keys = [api_key ''a'' 1, api_key ''a'' 1]\<rparr> ''p'' (api_key ''a'' 1) registry_new))
     \<lparr>pc_keys = [api_key ''a'' 1, api_key ''a'' 1]\<rparr> ''p'' = 0"
  using duplicate_key_demotion [of "api_key ''a'' 1" id "''p''"] by (simp add: api_key_def)

section \<open>Listings\<close>

lemma pool_snapshots_ids:
  "set (map ps_pool_id (pool_snapshots H bad seen es)) = fst ` snd ` set es - set seen \<and>
   distinct (map ps_pool_id (pool_snapshots H bad seen es))"
  by (induction H bad seen es rule: pool_snapshots.induct) auto

text \<open>
  The listings are faithful to the routing table: the model list is the sorted list of the
  routed models without repetition, and the health snapshot has every routed pool exactly once.
\<close>

theorem listings_correct:
  assumes "dm_wf (rt_model_map rt)"
  shows "sorted (model_list rt) \<and> distinct (model_list rt) \<and>
    set (model_list rt) = {m. dm_get (rt_model_map rt) m \<noteq> None} \<and>
    distinct (map ps_pool_id (router_pool_snapshot H bad rt)) \<and>
    set (map ps_pool_id (router_pool_snapshot H bad rt)) = fst ` snd ` set (rt_model_map rt)"
  using assms pool_snapshots_ids [of H bad "[]" "rt_model_map rt"]
  by (simp add: model_list_def router_pool_snapshot_def dm_wf_def map_of_eq_None_iff)

definition two_models :: "unit router" where
  "two_models = \<lparr>rt_model_map = [(''m2'', ''p'', two_keys, None, None), (''m1'', ''p'', two_keys, None, None)],
     rt_providers = [(''p'', ())]\<rparr>"

theorem listings_correct_witness:
  "model_list two_models = [''m1'', ''m2''] \<and> map ps_pool_id (router_pool_snapshot id registry_new two_models) = [''p''] \<and>
   sorted (model_list two_models)"
proof -
  have "dm_wf (rt_model_map two_models)" by code_simp
  from listings_correct [OF this, of id registry_new] show ?thesis
    by (auto simp: model_list_def router_pool_snapshot_def two_models_def)
qed

end
