(* ===== verification/Circuit_Breaker.thy ===== *)
theory Circuit_Breaker
  imports Proxy_Prelude
begin

text \<open>
  The per-key circuit breaker (\<open>circuit_breaker.rs\<close>). Every operation holds the lock of the map
  shard of its key for its whole run, so it is one atomic step; the time of \<open>Instant::now\<close> is an
  argument. The counters are 32-bit and wrap.
\<close>

datatype circuit_state = Closed | Open | HalfOpen

record circuit_entry =
  ce_failures :: u32
  ce_successes :: u32
  ce_last_failure_at :: "instant option"
  ce_opened_at :: "instant option"
  ce_state :: circuit_state

definition circuit_entry_new :: circuit_entry where
  "circuit_entry_new =
     \<lparr>ce_failures = 0, ce_successes = 0, ce_last_failure_at = None, ce_opened_at = None, ce_state = Closed\<rparr>"

record circuit_breaker =
  cb_circuits :: "(string \<times> string, circuit_entry) dmap"
  cb_failure_threshold :: u32
  cb_cooldown_secs :: u64
  cb_half_open_max :: u32
  cb_total_trips :: u64

definition circuit_breaker_new :: "u32 \<Rightarrow> u64 \<Rightarrow> u32 \<Rightarrow> circuit_breaker" where
  "circuit_breaker_new threshold cooldown half_open_max =
     \<lparr>cb_circuits = [], cb_failure_threshold = threshold, cb_cooldown_secs = cooldown,
      cb_half_open_max = half_open_max, cb_total_trips = 0\<rparr>"

definition with_defaults :: circuit_breaker where
  "with_defaults = circuit_breaker_new 5 60 3"

abbreviation entry_of :: "circuit_breaker \<Rightarrow> string \<times> string \<Rightarrow> circuit_entry" where
  "entry_of cb key \<equiv> dm_get_or (cb_circuits cb) key circuit_entry_new"

definition put_entry :: "string \<times> string \<Rightarrow> circuit_entry \<Rightarrow> circuit_breaker \<Rightarrow> circuit_breaker" where
  "put_entry key e cb = cb\<lparr>cb_circuits := dm_insert key e (cb_circuits cb)\<rparr>"

definition cooldown :: "circuit_breaker \<Rightarrow> duration" where
  "cooldown cb = from_secs (unat (cb_cooldown_secs cb))"

definition allow :: "instant \<Rightarrow> string \<times> string \<Rightarrow> circuit_breaker \<Rightarrow> bool \<times> circuit_breaker" where
  "allow now key cb =
     (let entry = entry_of cb key
      in case ce_state entry of
           Closed \<Rightarrow> (True, put_entry key entry cb)
         | Open \<Rightarrow>
             (case ce_opened_at entry of
                Some t \<Rightarrow>
                  if cooldown cb \<le> elapsed now t
                  then (True, put_entry key (entry\<lparr>ce_state := HalfOpen, ce_successes := 0\<rparr>) cb)
                  else (False, put_entry key entry cb)
              | None \<Rightarrow> (False, put_entry key entry cb))
         | HalfOpen \<Rightarrow> (ce_successes entry < cb_half_open_max cb, put_entry key entry cb))"

definition record_success :: "string \<times> string \<Rightarrow> circuit_breaker \<Rightarrow> circuit_breaker" where
  "record_success key cb =
     (let entry = entry_of cb key
      in case ce_state entry of
           Closed \<Rightarrow> put_entry key (entry\<lparr>ce_failures := 0\<rparr>) cb
         | HalfOpen \<Rightarrow>
             (let succ = ce_successes entry + 1;
                  entry = entry\<lparr>ce_successes := succ\<rparr>
              in if cb_half_open_max cb \<le> succ
                 then put_entry key (entry\<lparr>ce_state := Closed, ce_failures := 0\<rparr>) cb
                 else put_entry key entry cb)
         | Open \<Rightarrow> put_entry key entry cb)"

definition trip :: "instant \<Rightarrow> string \<times> string \<Rightarrow> circuit_entry \<Rightarrow> circuit_breaker \<Rightarrow> circuit_breaker" where
  "trip now key entry cb =
     (put_entry key (entry\<lparr>ce_state := Open, ce_opened_at := Some now\<rparr>) cb)\<lparr>cb_total_trips := cb_total_trips cb + 1\<rparr>"

definition record_failure :: "instant \<Rightarrow> string \<times> string \<Rightarrow> circuit_breaker \<Rightarrow> bool \<times> circuit_breaker" where
  "record_failure now key cb =
     (let entry = entry_of cb key
      in case ce_state entry of
           Closed \<Rightarrow>
             (let failures = ce_failures entry + 1;
                  entry = entry\<lparr>ce_last_failure_at := Some now, ce_failures := failures\<rparr>
              in if cb_failure_threshold cb \<le> failures then (True, trip now key entry cb)
                 else (False, put_entry key entry cb))
         | HalfOpen \<Rightarrow> (True, trip now key entry cb)
         | Open \<Rightarrow> (False, put_entry key entry cb))"

definition state_of :: "circuit_breaker \<Rightarrow> string \<times> string \<Rightarrow> circuit_state" where
  "state_of cb key = (case dm_get (cb_circuits cb) key of Some entry \<Rightarrow> ce_state entry | None \<Rightarrow> Closed)"

definition reset :: "string \<times> string \<Rightarrow> circuit_breaker \<Rightarrow> circuit_breaker" where
  "reset key cb =
     (case dm_get (cb_circuits cb) key of
        Some entry \<Rightarrow> put_entry key (entry\<lparr>ce_failures := 0, ce_successes := 0, ce_state := Closed\<rparr>) cb
      | None \<Rightarrow> cb)"

record circuit_snapshot =
  cs_pool_id :: string
  cs_key_hash :: string
  cs_state :: string
  cs_failures :: u32

definition circuit_snapshots :: "circuit_breaker \<Rightarrow> circuit_snapshot list" where
  "circuit_snapshots cb =
     map (\<lambda>((pool_id, key_hash), e).
        \<lparr>cs_pool_id = pool_id, cs_key_hash = key_hash,
         cs_state = (case ce_state e of Closed \<Rightarrow> ''closed'' | Open \<Rightarrow> ''open'' | HalfOpen \<Rightarrow> ''half_open''),
         cs_failures = ce_failures e\<rparr>) (cb_circuits cb)"

section \<open>Runs\<close>

datatype circuit_op =
    Allow instant "string \<times> string"
  | Success "string \<times> string"
  | Failure instant "string \<times> string"
  | Reset "string \<times> string"

fun circuit_exec :: "circuit_op \<Rightarrow> circuit_breaker \<Rightarrow> circuit_breaker" where
  "circuit_exec (Allow now key) cb = snd (allow now key cb)"
| "circuit_exec (Success key) cb = record_success key cb"
| "circuit_exec (Failure now key) cb = snd (record_failure now key cb)"
| "circuit_exec (Reset key) cb = reset key cb"

fun op_key :: "circuit_op \<Rightarrow> string \<times> string" where
  "op_key (Allow _ key) = key"
| "op_key (Success key) = key"
| "op_key (Failure _ key) = key"
| "op_key (Reset key) = key"

definition entry_inv :: "u32 \<Rightarrow> u32 \<Rightarrow> circuit_entry \<Rightarrow> bool" where
  "entry_inv threshold half_open_max e =
     (case ce_state e of
        Closed \<Rightarrow> ce_failures e < threshold
      | Open \<Rightarrow> ce_opened_at e \<noteq> None
      | HalfOpen \<Rightarrow> ce_opened_at e \<noteq> None \<and> ce_successes e < half_open_max)"

definition circuit_inv :: "circuit_breaker \<Rightarrow> bool" where
  "circuit_inv cb =
     (dm_wf (cb_circuits cb) \<and> 0 < cb_failure_threshold cb \<and> 0 < cb_half_open_max cb \<and>
      list_all (\<lambda>(_, e). entry_inv (cb_failure_threshold cb) (cb_half_open_max cb) e) (cb_circuits cb))"

lemma entry_of_put [simp]: "entry_of (put_entry key e cb) key' = (if key' = key then e else entry_of cb key')"
  by (simp add: put_entry_def)

lemma put_entry_fields [simp]:
  "cb_failure_threshold (put_entry key e cb) = cb_failure_threshold cb"
  "cb_half_open_max (put_entry key e cb) = cb_half_open_max cb"
  "cb_cooldown_secs (put_entry key e cb) = cb_cooldown_secs cb"
  "cb_total_trips (put_entry key e cb) = cb_total_trips cb"
  "cooldown (put_entry key e cb) = cooldown cb"
  by (simp_all add: put_entry_def cooldown_def)

lemma entry_of_trips [simp]: "entry_of (cb\<lparr>cb_total_trips := n\<rparr>) key = entry_of cb key"
  by simp

lemma circuit_inv_entry:
  assumes "circuit_inv cb"
  shows "entry_inv (cb_failure_threshold cb) (cb_half_open_max cb) (entry_of cb key)"
  using assms dm_values_get [of _ "cb_circuits cb" key]
  by (cases "dm_get (cb_circuits cb) key")
    (auto simp: circuit_inv_def dm_get_or_def circuit_entry_new_def entry_inv_def)

lemma circuit_inv_put:
  "circuit_inv cb \<Longrightarrow> entry_inv (cb_failure_threshold cb) (cb_half_open_max cb) e \<Longrightarrow> circuit_inv (put_entry key e cb)"
  unfolding circuit_inv_def put_entry_fields by (simp add: put_entry_def dm_values_insert)

lemma circuit_inv_trips [simp]: "circuit_inv (cb\<lparr>cb_total_trips := n\<rparr>) = circuit_inv cb"
  by (simp add: circuit_inv_def)

lemma circuit_inv_allow: "circuit_inv cb \<Longrightarrow> circuit_inv (snd (allow now key cb))"
  using circuit_inv_entry [of cb key]
  by (auto simp: allow_def Let_def entry_inv_def circuit_inv_def [of cb] split: circuit_state.splits option.splits
      intro!: circuit_inv_put)

lemma circuit_inv_success: "circuit_inv cb \<Longrightarrow> circuit_inv (record_success key cb)"
  using circuit_inv_entry [of cb key]
  by (auto simp: record_success_def Let_def entry_inv_def not_le circuit_inv_def [of cb] split: circuit_state.splits
      intro!: circuit_inv_put)

lemma circuit_inv_failure: "circuit_inv cb \<Longrightarrow> circuit_inv (snd (record_failure now key cb))"
  using circuit_inv_entry [of cb key]
  by (auto simp: record_failure_def trip_def Let_def entry_inv_def not_le split: circuit_state.splits
      intro!: circuit_inv_put)

lemma circuit_inv_reset: "circuit_inv cb \<Longrightarrow> circuit_inv (reset key cb)"
  by (auto simp: reset_def entry_inv_def circuit_inv_def [of cb] split: option.splits intro!: circuit_inv_put)

interpretation cbm: machine circuit_exec circuit_inv
proof
  fix op s
  show "circuit_inv s \<Longrightarrow> circuit_inv (circuit_exec op s)"
    by (cases op) (simp_all add: circuit_inv_allow circuit_inv_success circuit_inv_failure circuit_inv_reset)
qed

lemma circuit_inv_new: "0 < threshold \<Longrightarrow> 0 < half_open_max \<Longrightarrow> circuit_inv (circuit_breaker_new threshold cd half_open_max)"
  by (simp add: circuit_inv_def circuit_breaker_new_def)

lemma state_of_entry: "state_of cb key = ce_state (entry_of cb key)"
  by (simp add: state_of_def dm_get_or_def circuit_entry_new_def split: option.splits)

lemma exec_config [simp]:
  "cb_failure_threshold (circuit_exec op cb) = cb_failure_threshold cb"
  "cb_half_open_max (circuit_exec op cb) = cb_half_open_max cb"
  "cooldown (circuit_exec op cb) = cooldown cb"
  by (cases op; simp add: allow_def record_success_def record_failure_def reset_def trip_def Let_def cooldown_def
      split: circuit_state.splits option.splits)+

text \<open>
  After any run of the breaker a request is refused exactly when the key's circuit is open
  and the cooldown since it opened has not elapsed; a circuit in the half-open state admits
  requests, and a closed one has fewer failures than the threshold.
\<close>

theorem allow_after_run:
  assumes "0 < threshold" and "0 < half_open_max"
    and "cb = fold circuit_exec ops (circuit_breaker_new threshold cd half_open_max)"
  shows "(\<not> fst (allow now key cb) \<longleftrightarrow>
      state_of cb key = Open \<and> (\<exists>t. ce_opened_at (entry_of cb key) = Some t \<and> elapsed now t < cooldown cb)) \<and>
    (state_of cb key = Closed \<longrightarrow> ce_failures (entry_of cb key) < cb_failure_threshold cb)"
proof -
  have "circuit_inv cb" unfolding assms(3) by (intro cbm.run_inv circuit_inv_new assms)
  from circuit_inv_entry [OF this, of key] show ?thesis
    by (auto simp: allow_def Let_def state_of_entry entry_inv_def not_le not_less split: circuit_state.splits option.splits)
qed

theorem allow_after_run_witness:
  "\<not> fst (allow (from_secs 59) (''p'', ''k'') (fold circuit_exec (replicate 5 (Failure 0 (''p'', ''k''))) (circuit_breaker_new 5 60 3)))"
proof -
  let ?cb = "fold circuit_exec (replicate 5 (Failure 0 (''p'', ''k''))) (circuit_breaker_new 5 60 3)"
  have "state_of ?cb (''p'', ''k'') = Open" by code_simp
  moreover have "ce_opened_at (entry_of ?cb (''p'', ''k'')) = Some 0" by code_simp
  moreover have "cb_cooldown_secs ?cb = 60" by code_simp
  ultimately show ?thesis
    using allow_after_run [of 5 3 ?cb "replicate 5 (Failure 0 (''p'', ''k''))" 60 "from_secs 59" "(''p'', ''k'')"]
    by (simp add: cooldown_def elapsed_def)
qed

text \<open>While a circuit is open, only the cooldown or a reset ends it.\<close>

lemma open_step:
  assumes "ce_state (entry_of cb key) = Open" and "ce_opened_at (entry_of cb key) = Some t"
    and "op \<noteq> Reset key" and "\<And>now. op = Allow now key \<Longrightarrow> elapsed now t < cooldown cb"
  shows "ce_state (entry_of (circuit_exec op cb) key) = Open \<and>
    ce_opened_at (entry_of (circuit_exec op cb) key) = Some t"
  using assms
  by (cases op)
    (auto simp: allow_def record_success_def record_failure_def reset_def trip_def Let_def
      split: circuit_state.splits option.splits)

text \<open>
  C3. Once a circuit has tripped at time \<open>t\<close>, no sequence of operations on this or other keys
  admits a request for the key before the cooldown has elapsed, short of an explicit reset.
\<close>

theorem open_blocks_until_cooldown:
  assumes "record_failure t key cb = (True, cb0)" and "Reset key \<notin> set ops"
    and "\<forall>now. Allow now key \<in> set ops \<longrightarrow> elapsed now t < cooldown cb"
    and "elapsed now t < cooldown cb"
  shows "\<not> fst (allow now key (fold circuit_exec ops cb0))"
proof -
  let ?P = "\<lambda>s. ce_state (entry_of s key) = Open \<and> ce_opened_at (entry_of s key) = Some t \<and> cooldown s = cooldown cb"
  have "?P cb0" using assms(1)
    by (auto simp: record_failure_def trip_def Let_def cooldown_def put_entry_def split: circuit_state.splits if_splits)
  with assms(2,3) have "?P (fold circuit_exec ops cb0)"
  proof (induction ops arbitrary: cb0)
    case (Cons op ops)
    then have "?P (circuit_exec op cb0)" using open_step [of cb0 key t op] by auto
    with Cons show ?case by simp
  qed simp
  then show ?thesis using assms(4) by (simp add: allow_def Let_def)
qed

theorem open_blocks_until_cooldown_witness:
  "\<not> fst (allow (from_secs 30) (''p'', ''k'')
      (fold circuit_exec [Success (''p'', ''k''), Allow (from_secs 29) (''p'', ''k'')]
        (snd (record_failure 0 (''p'', ''k'') (circuit_breaker_new 1 60 3)))))"
proof (rule open_blocks_until_cooldown [where t = 0])
  show "record_failure 0 (''p'', ''k'') (circuit_breaker_new 1 60 3) =
      (True, snd (record_failure 0 (''p'', ''k'') (circuit_breaker_new 1 60 3)))"
    by (simp add: record_failure_def circuit_breaker_new_def dm_get_or_def circuit_entry_new_def)
qed (auto simp: elapsed_def cooldown_def circuit_breaker_new_def)

lemma u32_of_nat_Suc_unat: "unat (w::u32) = Suc n \<Longrightarrow> (of_nat n + 1 :: u32) = w"
  by (metis add.commute of_nat_Suc of_nat_unat ucast_id)

lemma u32_of_nat_Suc_less:
  assumes "Suc n < unat (w::u32)"
  shows "(of_nat n + 1 :: u32) < w"
proof -
  have "Suc n < 2 ^ 32" using assms unsigned_less [of w, where ?'a = nat] by simp
  then have "unat (of_nat (Suc n) :: u32) = Suc n" by (simp only: unat_of_nat) simp
  then have "(of_nat (Suc n) :: u32) < w" using assms by (simp only: word_less_nat_alt)
  then show ?thesis by (simp add: add.commute)
qed

lemma half_open_run:
  assumes "ce_state (entry_of cb key) = HalfOpen" and "ce_successes (entry_of cb key) = of_nat s"
    and "s + Suc d = unat (cb_half_open_max cb)"
  shows "ce_state (entry_of ((record_success key ^^ Suc d) cb) key) = Closed \<and>
    ce_failures (entry_of ((record_success key ^^ Suc d) cb) key) = 0"
  using assms
proof (induction d arbitrary: cb s)
  case 0
  then show ?case using u32_of_nat_Suc_unat [of "cb_half_open_max cb" s] by (simp add: record_success_def Let_def)
next
  case (Suc d)
  let ?cb = "record_success key cb"
  have "(of_nat s + 1 :: u32) < cb_half_open_max cb" using Suc.prems(3) by (intro u32_of_nat_Suc_less) simp
  then have "ce_state (entry_of ?cb key) = HalfOpen" "ce_successes (entry_of ?cb key) = of_nat (Suc s)"
      "cb_half_open_max ?cb = cb_half_open_max cb"
    using Suc.prems(1,2) by (simp_all add: record_success_def Let_def not_le [symmetric] add.commute)
  then have "ce_state (entry_of ((record_success key ^^ Suc d) ?cb) key) = Closed \<and>
      ce_failures (entry_of ((record_success key ^^ Suc d) ?cb) key) = 0"
    using Suc.prems(3) by (intro Suc.IH [of ?cb "Suc s"]) simp_all
  then show ?case by (simp only: funpow_Suc_right [of "Suc d"] comp_apply)
qed

text \<open>
  C4. Recovery: after the cooldown the next request is admitted and half-opens the circuit, and
  as many successes as the breaker asks for then close it again with a clean count of failures.
\<close>

theorem circuit_recovers:
  assumes "circuit_inv cb" and "ce_state (entry_of cb key) = Open" and "ce_opened_at (entry_of cb key) = Some t"
    and "cooldown cb \<le> elapsed now t"
  shows "fst (allow now key cb) \<and> state_of (snd (allow now key cb)) key = HalfOpen \<and>
    (let cb' = (record_success key ^^ unat (cb_half_open_max cb)) (snd (allow now key cb))
     in state_of cb' key = Closed \<and> ce_failures (entry_of cb' key) = 0)"
proof -
  let ?cb = "snd (allow now key cb)"
  have half: "fst (allow now key cb)" "ce_state (entry_of ?cb key) = HalfOpen" "ce_successes (entry_of ?cb key) = of_nat 0"
      "cb_half_open_max ?cb = cb_half_open_max cb"
    using assms by (simp_all add: allow_def Let_def)
  have "0 < unat (cb_half_open_max cb)" using assms(1) by (simp add: circuit_inv_def word_less_nat_alt)
  then obtain d where d: "unat (cb_half_open_max cb) = Suc d" using gr0_implies_Suc by blast
  from half_open_run [OF half(2,3), of d] d half show ?thesis by (simp add: state_of_entry Let_def)
qed

theorem circuit_recovers_witness:
  "state_of (snd (allow (from_secs 60) (''p'', ''k'') (snd (record_failure 0 (''p'', ''k'') (circuit_breaker_new 1 60 3))))) (''p'', ''k'') = HalfOpen"
proof -
  let ?cb = "snd (record_failure 0 (''p'', ''k'') (circuit_breaker_new 1 60 3))"
  have "circuit_inv ?cb" by (intro circuit_inv_failure circuit_inv_new) simp_all
  moreover have "ce_state (entry_of ?cb (''p'', ''k'')) = Open" by code_simp
  moreover have "ce_opened_at (entry_of ?cb (''p'', ''k'')) = Some 0" by code_simp
  moreover have "cooldown ?cb \<le> elapsed (from_secs 60) 0"
    by (simp add: elapsed_def cooldown_def record_failure_def circuit_breaker_new_def trip_def put_entry_def Let_def
        dm_get_or_def circuit_entry_new_def)
  ultimately show ?thesis using circuit_recovers [of ?cb "(''p'', ''k'')" 0 "from_secs 60"] by blast
qed

abbreviation fail_at :: "instant \<Rightarrow> string \<times> string \<Rightarrow> circuit_breaker \<Rightarrow> circuit_breaker" where
  "fail_at now key cb \<equiv> snd (record_failure now key cb)"

lemma failures_below_threshold:
  assumes "ce_state (entry_of cb key) = Closed" and "ce_failures (entry_of cb key) = 0"
    and "n < unat (cb_failure_threshold cb)"
  shows "ce_state (entry_of ((fail_at now key ^^ n) cb) key) = Closed \<and>
    ce_failures (entry_of ((fail_at now key ^^ n) cb) key) = of_nat n \<and>
    cb_failure_threshold ((fail_at now key ^^ n) cb) = cb_failure_threshold cb \<and>
    cb_total_trips ((fail_at now key ^^ n) cb) = cb_total_trips cb"
  using assms
proof (induction n)
  case (Suc n)
  have "(of_nat n + 1 :: u32) < cb_failure_threshold cb" using Suc.prems(3) by (rule u32_of_nat_Suc_less)
  with Suc show ?case by (simp add: record_failure_def Let_def not_le [symmetric] add.commute)
qed simp

text \<open>
  A closed circuit with no recorded failure trips at exactly the configured number of
  consecutive failures, once.
\<close>

theorem trips_at_threshold:
  assumes "ce_state (entry_of cb key) = Closed" and "ce_failures (entry_of cb key) = 0"
    and "0 < cb_failure_threshold cb"
  shows "(\<forall>n. n < unat (cb_failure_threshold cb) \<longrightarrow> state_of ((fail_at now key ^^ n) cb) key = Closed) \<and>
    state_of ((fail_at now key ^^ unat (cb_failure_threshold cb)) cb) key = Open \<and>
    cb_total_trips ((fail_at now key ^^ unat (cb_failure_threshold cb)) cb) = cb_total_trips cb + 1"
proof -
  have "0 < unat (cb_failure_threshold cb)" using assms(3) by (simp add: word_less_nat_alt)
  then obtain d where d: "unat (cb_failure_threshold cb) = Suc d" using gr0_implies_Suc by blast
  with failures_below_threshold [OF assms(1,2), of d now] u32_of_nat_Suc_unat [OF d]
  have "state_of ((fail_at now key ^^ Suc d) cb) key = Open \<and>
      cb_total_trips ((fail_at now key ^^ Suc d) cb) = cb_total_trips cb + 1"
    by (simp add: record_failure_def trip_def Let_def state_of_entry)
  then show ?thesis using failures_below_threshold [OF assms(1,2), of _ now] d by (simp add: state_of_entry)
qed

theorem trips_at_threshold_witness:
  "state_of ((fail_at 0 (''p'', ''k'') ^^ 4) with_defaults) (''p'', ''k'') = Closed \<and>
   state_of ((fail_at 0 (''p'', ''k'') ^^ 5) with_defaults) (''p'', ''k'') = Open"
  using trips_at_threshold [of with_defaults "(''p'', ''k'')" 0]
  by (simp add: with_defaults_def circuit_breaker_new_def dm_get_or_def circuit_entry_new_def)

end
