(* ===== verification/Alerts.thy ===== *)
theory Alerts
  imports Proxy_Prelude
begin

text \<open>
  Alert events and the background task that drains them (\<open>alerts/mod.rs\<close>). What the task receives
  from the broadcast channel and the shutdown signal is a list of inputs; the outcome of each
  delivery attempt on a channel is a parameter.
\<close>

type_synonym i64 = int

datatype alert_event =
    UpstreamError i64 string string string "u16 option" string
  | LatencySpike i64 string i64 u64
  | RateLimited i64 string
  | PoolExhausted i64 string

type_synonym alert_snapshot = "alert_event list"

definition push_snapshot :: "alert_event \<Rightarrow> alert_snapshot \<Rightarrow> alert_snapshot" where
  "push_snapshot event snap =
     (let snap = snap @ [event] in if 1024 < length snap then drop 1 snap else snap)"

text \<open>The delivery of one event on one channel: the number of attempts made, whether one succeeded
  and the time slept between them. \<open>outcome n\<close> is the result of the \<open>n\<close>th attempt.\<close>

record delivery =
  dv_attempts :: nat
  dv_delivered :: bool
  dv_slept :: duration

definition backoff :: "nat \<Rightarrow> duration" where
  "backoff attempts = (if attempts = 1 then from_secs 1 else if attempts = 2 then from_secs 2 else from_secs 4)"

function deliver_loop :: "(nat \<Rightarrow> bool) \<Rightarrow> nat \<Rightarrow> duration \<Rightarrow> delivery" where
  "deliver_loop outcome attempts slept =
     (let attempts = attempts + 1
      in if outcome attempts then \<lparr>dv_attempts = attempts, dv_delivered = True, dv_slept = slept\<rparr>
         else if 3 \<le> attempts then \<lparr>dv_attempts = attempts, dv_delivered = False, dv_slept = slept\<rparr>
         else deliver_loop outcome attempts (slept + backoff attempts))"
  by pat_completeness auto
termination
  by (relation "measure (\<lambda>(_, attempts, _). 3 - attempts)") auto

declare deliver_loop.simps [simp del]

datatype alert_input = Received alert_event | Lagged nat | ChannelClosed | Shutdown

text \<open>The task: the events it dispatches to every channel, in order, and the final snapshot.\<close>

fun alert_loop :: "alert_input list \<Rightarrow> alert_snapshot \<Rightarrow> alert_event list \<times> alert_snapshot" where
  "alert_loop [] snap = ([], snap)"
| "alert_loop (Received event # inputs) snap =
     (let (dispatched, snap) = alert_loop inputs (push_snapshot event snap) in (event # dispatched, snap))"
| "alert_loop (Lagged n # inputs) snap = alert_loop inputs snap"
| "alert_loop (ChannelClosed # inputs) snap = ([], snap)"
| "alert_loop (Shutdown # inputs) snap = ([], snap)"

definition sign_body :: "(string \<Rightarrow> string \<Rightarrow> string) \<Rightarrow> string \<Rightarrow> u64 \<Rightarrow> string \<Rightarrow> string" where
  "sign_body hmac_hex secret ts body = hmac_hex secret (show_nat (unat ts) @ ''.'' @ body)"

section \<open>Properties\<close>

lemma push_snapshot_recent:
  assumes "snap = drop (length es - 1024) es"
  shows "push_snapshot e snap = drop (length (es @ [e]) - 1024) (es @ [e])"
proof (cases "length es < 1024")
  case True
  then show ?thesis using assms by (simp add: push_snapshot_def)
next
  case False
  then have "length (es @ [e]) - 1024 = Suc (length es - 1024)" "1024 < length (snap @ [e])"
    using assms by simp_all
  moreover have "drop 1 (snap @ [e]) = drop (Suc (length es - 1024)) (es @ [e])"
    using assms False by (simp add: drop_Suc tl_drop flip: drop_drop)
  ultimately show ?thesis by (simp add: push_snapshot_def Let_def)
qed

text \<open>
  The task dispatches exactly the events received before it stops, in order, and the
  dashboard's ring buffer holds the last 1024 of them.
\<close>

theorem alert_loop_snapshot:
  "snd (alert_loop inputs (drop (length es - 1024) es)) =
     (let all = es @ fst (alert_loop inputs (drop (length es - 1024) es)) in drop (length all - 1024) all) \<and>
   fst (alert_loop inputs snap) =
     List.map_filter (\<lambda>i. case i of Received e \<Rightarrow> Some e | _ \<Rightarrow> None)
       (takeWhile (\<lambda>i. i \<noteq> ChannelClosed \<and> i \<noteq> Shutdown) inputs)"
proof (intro conjI)
  show "snd (alert_loop inputs (drop (length es - 1024) es)) =
     (let all = es @ fst (alert_loop inputs (drop (length es - 1024) es)) in drop (length all - 1024) all)"
  proof (induction inputs arbitrary: es)
    case (Cons i inputs)
    show ?case
    proof (cases i)
      case (Received e)
      then show ?thesis using Cons.IH [of "es @ [e]"] push_snapshot_recent [OF refl, of e es]
        by (simp add: Let_def case_prod_beta)
    qed (use Cons.IH [of es] in simp_all)
  qed simp
  show "fst (alert_loop inputs snap) = List.map_filter (\<lambda>i. case i of Received e \<Rightarrow> Some e | _ \<Rightarrow> None)
       (takeWhile (\<lambda>i. i \<noteq> ChannelClosed \<and> i \<noteq> Shutdown) inputs)"
    by (induction inputs snap rule: alert_loop.induct) (simp_all add: map_filter_simps case_prod_beta)
qed

text \<open>
  A delivery makes at most three attempts, succeeds exactly when one of them does, stops at
  the first success, and sleeps at most three seconds in all.
\<close>

theorem deliver_at_most_three:
  "dv_attempts (deliver_loop outcome 0 0) \<le> 3 \<and>
   (dv_delivered (deliver_loop outcome 0 0) \<longleftrightarrow> outcome 1 \<or> outcome 2 \<or> outcome 3) \<and>
   (dv_delivered (deliver_loop outcome 0 0) \<longleftrightarrow> outcome (dv_attempts (deliver_loop outcome 0 0))) \<and>
   dv_slept (deliver_loop outcome 0 0) \<le> from_secs 3"
  by (simp add: deliver_loop.simps [of outcome 0] deliver_loop.simps [of outcome 1]
      deliver_loop.simps [of outcome 2] deliver_loop.simps [of outcome "Suc 0"]
      deliver_loop.simps [of outcome "Suc (Suc 0)"] backoff_def numeral_2_eq_2 numeral_3_eq_3)

end
