(* ===== verification/Rate_Limiter.thy ===== *)
theory Rate_Limiter
  imports Alerts App_Error
begin

text \<open>
  The token-bucket rate limiter (\<open>ratelimit/mod.rs\<close>). The bucket's \<open>f64\<close> token count is a rational
  number and its arithmetic is exact; the clock is an argument. The map entry stays locked while a
  request consumes, so a request is one atomic step.
\<close>

definition as_secs :: "duration \<Rightarrow> rat" where
  "as_secs d = of_nat d / 1000000000"

record token_bucket =
  tb_tokens :: rat
  tb_last_refill :: instant
  tb_capacity :: rat

definition bucket_new :: "instant \<Rightarrow> rat \<Rightarrow> token_bucket" where
  "bucket_new now capacity = \<lparr>tb_tokens = capacity, tb_last_refill = now, tb_capacity = capacity\<rparr>"

definition refill :: "instant \<Rightarrow> token_bucket \<Rightarrow> token_bucket" where
  "refill now b =
     (let el = as_secs (elapsed now (tb_last_refill b))
      in if 0 < el
         then b\<lparr>tb_tokens := min (tb_tokens b + el * (tb_capacity b / 60)) (tb_capacity b), tb_last_refill := now\<rparr>
         else b)"

definition consume :: "instant \<Rightarrow> token_bucket \<Rightarrow> bool \<times> token_bucket" where
  "consume now b =
     (let b = refill now b
      in if 1 \<le> tb_tokens b then (True, b\<lparr>tb_tokens := tb_tokens b - 1\<rparr>) else (False, b))"

record rate_limiter =
  rl_buckets :: "(string, token_bucket) dmap"
  rl_capacity :: rat

definition rate_limiter_new :: "nat \<Rightarrow> rate_limiter" where
  "rate_limiter_new requests_per_minute = \<lparr>rl_buckets = [], rl_capacity = of_nat requests_per_minute\<rparr>"

definition rate_limited_body :: error_body where
  "rate_limited_body = \<lparr>eb_message = ''rate limited'', eb_type = ''rate_limit'', eb_code = 429\<rparr>"

text \<open>The middleware: either the response of the limiter, or the request goes on to the next layer
  (\<open>None\<close>). The tenant is the authenticated client's, empty when the request carries none.\<close>

definition rate_limit_middleware ::
  "instant \<Rightarrow> i64 \<Rightarrow> string option \<Rightarrow> rate_limiter \<Rightarrow> error_response option \<times> alert_event list \<times> rate_limiter" where
  "rate_limit_middleware now ts client rl =
     (let tenant_id = (case client of Some t \<Rightarrow> t | None \<Rightarrow> [])
      in if tenant_id = [] then (None, [], rl)
         else
           let bucket = dm_get_or (rl_buckets rl) tenant_id (bucket_new now (rl_capacity rl));
               (ok, bucket) = consume now bucket;
               rl = rl\<lparr>rl_buckets := dm_insert tenant_id bucket (rl_buckets rl)\<rparr>
           in if \<not> ok
              then (Some \<lparr>er_status = 429, er_body = rate_limited_body\<rparr>, [RateLimited ts tenant_id], rl)
              else (None, [], rl))"

section \<open>One bucket\<close>

definition bucket_inv :: "token_bucket \<Rightarrow> bool" where
  "bucket_inv b = (0 \<le> tb_tokens b \<and> tb_tokens b \<le> tb_capacity b)"

lemma as_secs_nonneg [simp]: "0 \<le> as_secs d"
  by (simp add: as_secs_def)

lemma refill_inv: "bucket_inv b \<Longrightarrow> bucket_inv (refill now b)"
  by (auto simp: bucket_inv_def refill_def Let_def min_def)

lemma consume_inv: "bucket_inv b \<Longrightarrow> bucket_inv (snd (consume now b))"
  using refill_inv [of b now] by (auto simp: consume_def Let_def bucket_inv_def)

lemma consume_fields [simp]: "tb_capacity (snd (consume now b)) = tb_capacity b"
  by (simp add: consume_def refill_def Let_def)

text \<open>The requests of one tenant at the times \<open>ts\<close>: how many are admitted, and the final bucket.\<close>

fun admitted :: "instant list \<Rightarrow> token_bucket \<Rightarrow> nat \<times> token_bucket" where
  "admitted [] b = (0, b)"
| "admitted (t # ts) b =
     (let (ok, b) = consume t b; (n, b) = admitted ts b in ((if ok then 1 else 0) + n, b))"

lemma last_refill_consume: "tb_last_refill b \<le> t \<Longrightarrow> tb_last_refill (snd (consume t b)) = t"
  by (auto simp: consume_def refill_def Let_def elapsed_def as_secs_def)

lemma refill_tokens:
  assumes "bucket_inv b" and "tb_last_refill b \<le> t"
  shows "tb_tokens (refill t b) \<le> tb_tokens b + as_secs (t - tb_last_refill b) * (tb_capacity b / 60)"
  using assms by (auto simp: refill_def Let_def elapsed_def bucket_inv_def)

lemma consume_tokens:
  assumes "bucket_inv b" and "tb_last_refill b \<le> t"
  shows "(if fst (consume t b) then 1 else 0) + tb_tokens (snd (consume t b)) \<le>
    tb_tokens b + as_secs (t - tb_last_refill b) * (tb_capacity b / 60)"
  using refill_tokens [OF assms] by (simp add: consume_def Let_def)

lemma as_secs_add: "a \<le> b \<Longrightarrow> b \<le> c \<Longrightarrow> as_secs (b - a) + as_secs (c - b) = as_secs (c - a)"
  by (simp add: as_secs_def of_nat_diff diff_divide_distrib)

lemma admitted_tokens:
  assumes "bucket_inv b" and "sorted (tb_last_refill b # ts)" and "\<forall>t\<in>set ts. t \<le> e" and "tb_last_refill b \<le> e"
  shows "of_nat (fst (admitted ts b)) + tb_tokens (snd (admitted ts b)) \<le>
    tb_tokens b + as_secs (e - tb_last_refill b) * (tb_capacity b / 60)"
  using assms
proof (induction ts arbitrary: b)
  case Nil
  then show ?case by (simp add: bucket_inv_def)
next
  case (Cons t ts)
  let ?b = "snd (consume t b)" and ?r = "tb_capacity b / 60"
  have t: "tb_last_refill b \<le> t" "t \<le> e" and last: "tb_last_refill ?b = t"
    using Cons.prems last_refill_consume [of b t] by auto
  have "of_nat (fst (admitted ts ?b)) + tb_tokens (snd (admitted ts ?b)) \<le> tb_tokens ?b + as_secs (e - t) * ?r"
    using Cons.IH [of ?b] Cons.prems consume_inv [of b t] last t by simp
  moreover have "as_secs (t - tb_last_refill b) * ?r + as_secs (e - t) * ?r = as_secs (e - tb_last_refill b) * ?r"
    using as_secs_add [OF t] by (simp flip: distrib_right)
  ultimately show ?case
    using consume_tokens [OF Cons.prems(1) t(1)] by (simp add: Let_def case_prod_beta split: if_splits)
qed

lemma admitted_inv: "bucket_inv b \<Longrightarrow> bucket_inv (snd (admitted ts b))"
  by (induction ts arbitrary: b) (simp_all add: Let_def case_prod_beta consume_inv)

lemma admitted_bound:
  assumes "0 \<le> capacity" and "sorted (t0 # ts)" and "\<forall>t\<in>set ts. t \<le> e" and "t0 \<le> e"
  shows "of_nat (fst (admitted ts (bucket_new t0 capacity))) \<le> capacity + as_secs (e - t0) / 60 * capacity"
proof -
  let ?b = "bucket_new t0 capacity"
  have inv: "bucket_inv ?b" using assms(1) by (simp add: bucket_inv_def bucket_new_def)
  have "0 \<le> tb_tokens (snd (admitted ts ?b))" using admitted_inv [OF inv] by (simp add: bucket_inv_def)
  then show ?thesis
    using admitted_tokens [OF inv, of ts e] assms by (simp add: bucket_new_def)
qed

section \<open>All tenants\<close>

text \<open>Requests of several tenants through the middleware: whether each one goes through.\<close>

fun run_requests :: "(instant \<times> string) list \<Rightarrow> rate_limiter \<Rightarrow> bool list" where
  "run_requests [] rl = []"
| "run_requests ((t, tenant) # rs) rl =
     (let (resp, _, rl) = rate_limit_middleware t 0 (Some tenant) rl in (resp = None) # run_requests rs rl)"

definition tenant_times :: "string \<Rightarrow> (instant \<times> string) list \<Rightarrow> instant list" where
  "tenant_times tenant rs = map fst (filter (\<lambda>(_, x). x = tenant) rs)"

definition passed :: "string \<Rightarrow> (instant \<times> string) list \<Rightarrow> rate_limiter \<Rightarrow> nat" where
  "passed tenant rs rl = length (filter (\<lambda>((_, x), ok). x = tenant \<and> ok) (zip rs (run_requests rs rl)))"

abbreviation after_request :: "instant \<Rightarrow> string \<Rightarrow> rate_limiter \<Rightarrow> rate_limiter" where
  "after_request t x rl \<equiv> snd (snd (rate_limit_middleware t 0 (Some x) rl))"

lemma passed_Nil [simp]: "passed tenant [] rl = 0"
  by (simp add: passed_def)

lemma passed_Cons:
  "passed tenant ((t, x) # rs) rl =
     (if x = tenant \<and> fst (rate_limit_middleware t 0 (Some x) rl) = None then 1 else 0) +
     passed tenant rs (after_request t x rl)"
  by (auto simp: passed_def case_prod_beta)

lemma tenant_times_simps [simp]:
  "tenant_times tenant [] = []"
  "tenant_times tenant ((t, x) # rs) = (if x = tenant then t # tenant_times tenant rs else tenant_times tenant rs)"
  by (simp_all add: tenant_times_def)

lemma middleware_tenant:
  assumes "tenant \<noteq> []" and "b = dm_get_or (rl_buckets rl) tenant (bucket_new t (rl_capacity rl))"
  shows "fst (rate_limit_middleware t ts (Some tenant) rl) = None \<longleftrightarrow> fst (consume t b)"
    and "snd (snd (rate_limit_middleware t ts (Some tenant) rl)) =
      rl\<lparr>rl_buckets := dm_insert tenant (snd (consume t b)) (rl_buckets rl)\<rparr>"
  using assms by (simp_all add: rate_limit_middleware_def Let_def case_prod_beta)

lemma middleware_other:
  assumes "x \<noteq> tenant"
  shows "dm_get (rl_buckets (after_request t x rl)) tenant = dm_get (rl_buckets rl) tenant"
    and "rl_capacity (after_request t x rl) = rl_capacity rl"
  using assms by (simp_all add: rate_limit_middleware_def Let_def case_prod_beta)

lemma passed_known:
  assumes "tenant \<noteq> []" and "dm_get (rl_buckets rl) tenant = Some b"
  shows "passed tenant rs rl = fst (admitted (tenant_times tenant rs) b)"
  using assms(2)
proof (induction rs arbitrary: rl b)
  case (Cons r rs)
  obtain t x where r: "r = (t, x)" by fastforce
  show ?case
  proof (cases "x = tenant")
    case True
    note mw = middleware_tenant [OF assms(1) refl, where rl = rl and t = t and ts = 0]
    have b: "dm_get_or (rl_buckets rl) tenant d = b" for d using Cons.prems by (simp add: dm_get_or_def)
    show ?thesis using Cons.IH [of "after_request t tenant rl" "snd (consume t b)"] mw b r True
      by (simp add: passed_Cons case_prod_beta)
  next
    case False
    then show ?thesis using Cons.IH Cons.prems middleware_other [OF False, of t rl] r by (simp add: passed_Cons)
  qed
qed simp

lemma passed_new:
  assumes "tenant \<noteq> []" and "dm_get (rl_buckets rl) tenant = None"
  shows "passed tenant rs rl =
    (case tenant_times tenant rs of
       [] \<Rightarrow> 0
     | t # ts \<Rightarrow> fst (admitted (t # ts) (bucket_new t (rl_capacity rl))))"
  using assms(2)
proof (induction rs arbitrary: rl)
  case (Cons r rs)
  obtain t x where r: "r = (t, x)" by fastforce
  show ?case
  proof (cases "x = tenant")
    case True
    note mw = middleware_tenant [OF assms(1) refl, where rl = rl and t = t and ts = 0]
    have b: "dm_get_or (rl_buckets rl) tenant d = d" for d using Cons.prems by (simp add: dm_get_or_def)
    show ?thesis
      using passed_known [OF assms(1), of "after_request t tenant rl" "snd (consume t (bucket_new t (rl_capacity rl)))" rs] mw b r True
      by (simp add: passed_Cons case_prod_beta)
  next
    case False
    then show ?thesis using Cons.IH Cons.prems middleware_other [OF False, of t rl] r by (simp add: passed_Cons cong: list.case_cong)
  qed
qed simp

lemma sorted_tenant_times: "sorted (map fst rs) \<Longrightarrow> sorted (tenant_times tenant rs)"
  unfolding tenant_times_def by (rule sorted_filter)



text \<open>
  A client that keeps to the configured rate is not refused: a bucket with capacity at least
  one that has rested for the time of one request admits the next one.
\<close>

theorem rested_bucket_admits:
  assumes "bucket_inv b" and "1 \<le> tb_capacity b" and "60 / tb_capacity b \<le> as_secs (elapsed now (tb_last_refill b))"
  shows "fst (consume now b)"
proof -
  let ?el = "as_secs (elapsed now (tb_last_refill b))"
  have pos: "0 < ?el" using assms(2,3) by (smt (verit) divide_pos_pos order.strict_trans1 zero_less_numeral order.strict_trans2 zero_less_one)
  have "1 \<le> ?el * (tb_capacity b / 60)" using assms(2,3) by (simp add: field_simps)
  then have "1 \<le> tb_tokens (refill now b)"
    using assms(1,2) pos by (simp add: refill_def Let_def bucket_inv_def)
  then show ?thesis by (simp add: consume_def Let_def)
qed

theorem rested_bucket_admits_witness:
  "fst (consume (from_secs 1) \<lparr>tb_tokens = 0, tb_last_refill = 0, tb_capacity = 60\<rparr>)"
  by (rule rested_bucket_admits) (simp_all add: bucket_inv_def as_secs_def elapsed_def)

end
