(* ===== verification/Concurrency_Limiter.thy ===== *)
theory Concurrency_Limiter
  imports Proxy_Prelude
begin

text \<open>
  The per-tenant and global limits on requests in flight (\<open>concurrency.rs\<close>). A semaphore is the
  number of its available permits. A guard holds one permit of its tenant and one global permit
  and gives both back when it is dropped.
\<close>

record concurrency_limiter =
  cl_semaphores :: "(string, nat) dmap"
  cl_max_per_tenant :: nat
  cl_total_max :: nat
  cl_global :: nat

definition limiter_new :: "nat \<Rightarrow> nat \<Rightarrow> concurrency_limiter" where
  "limiter_new max_per_tenant total_max =
     \<lparr>cl_semaphores = [], cl_max_per_tenant = max_per_tenant, cl_total_max = total_max, cl_global = total_max\<rparr>"

definition set_permits :: "string \<Rightarrow> nat \<Rightarrow> concurrency_limiter \<Rightarrow> concurrency_limiter" where
  "set_permits tenant n cl = cl\<lparr>cl_semaphores := dm_insert tenant n (cl_semaphores cl)\<rparr>"

text \<open>\<open>true\<close> when a guard is returned. When the global semaphore is exhausted, the tenant's permit
  that was just taken is dropped, which gives it back.\<close>

definition acquire :: "string \<Rightarrow> concurrency_limiter \<Rightarrow> bool \<times> concurrency_limiter" where
  "acquire tenant cl =
     (let sem = dm_get_or (cl_semaphores cl) tenant (cl_max_per_tenant cl);
          cl = set_permits tenant sem cl
      in if sem = 0 then (False, cl)
         else if cl_global cl = 0 then (False, cl)
         else (True, (set_permits tenant (sem - 1) cl)\<lparr>cl_global := cl_global cl - 1\<rparr>))"

definition drop_guard :: "string \<Rightarrow> concurrency_limiter \<Rightarrow> concurrency_limiter" where
  "drop_guard tenant cl =
     (let sem = dm_get_or (cl_semaphores cl) tenant (cl_max_per_tenant cl)
      in (set_permits tenant (sem + 1) cl)\<lparr>cl_global := cl_global cl + 1\<rparr>)"

text \<open>The permits that \<open>Semaphore::try_acquire(..).is_ok()\<close> obtains are dropped at the end of the
  statement.\<close>

definition try_acquire :: "string \<Rightarrow> concurrency_limiter \<Rightarrow> bool \<times> concurrency_limiter" where
  "try_acquire tenant cl =
     (let sem = dm_get_or (cl_semaphores cl) tenant (cl_max_per_tenant cl);
          cl = set_permits tenant sem cl;
          tenant_ok = (0 < sem);
          global_ok = (0 < cl_global cl)
      in if tenant_ok \<and> global_ok then (True, cl)
         else (False, if tenant_ok then set_permits tenant (sem + 1) cl else cl))"

definition available :: "concurrency_limiter \<Rightarrow> string \<Rightarrow> nat" where
  "available cl tenant = (case dm_get (cl_semaphores cl) tenant of Some s \<Rightarrow> s | None \<Rightarrow> cl_max_per_tenant cl)"

definition global_available :: "concurrency_limiter \<Rightarrow> nat" where
  "global_available cl = cl_global cl"

definition tenant_usage :: "concurrency_limiter \<Rightarrow> string \<Rightarrow> nat" where
  "tenant_usage cl tenant = cl_max_per_tenant cl - available cl tenant"

section \<open>Requests in flight\<close>

text \<open>The handler's use: a request that starts acquires a guard, or is turned away; a request that
  ends drops its guard. The state carries the tenants of the guards that are alive.\<close>

datatype flight_op = Start string | Finish string

fun flight_exec :: "flight_op \<Rightarrow> concurrency_limiter \<times> string list \<Rightarrow> concurrency_limiter \<times> string list" where
  "flight_exec (Start tenant) (cl, held) =
     (case acquire tenant cl of (ok, cl) \<Rightarrow> (cl, if ok then tenant # held else held))"
| "flight_exec (Finish tenant) (cl, held) =
     (if tenant \<in> set held then (drop_guard tenant cl, remove1 tenant held) else (cl, held))"

fun flight_inv :: "concurrency_limiter \<times> string list \<Rightarrow> bool" where
  "flight_inv (cl, held) =
     (cl_global cl + length held = cl_total_max cl \<and>
      (\<forall>t. available cl t + count_list held t = cl_max_per_tenant cl))"

lemma available_get_or: "available cl t = dm_get_or (cl_semaphores cl) t (cl_max_per_tenant cl)"
  by (simp add: available_def dm_get_or_def)

lemma set_permits_fields [simp]:
  "cl_global (set_permits t n cl) = cl_global cl"
  "cl_total_max (set_permits t n cl) = cl_total_max cl"
  "cl_max_per_tenant (set_permits t n cl) = cl_max_per_tenant cl"
  "available (set_permits t n cl) t' = (if t' = t then n else available cl t')"
  by (simp_all add: set_permits_def available_get_or)

lemma available_global [simp]: "available (cl\<lparr>cl_global := n\<rparr>) t = available cl t"
  by (simp add: available_get_or)

lemma acquire_simps:
  "fst (acquire t cl) \<longleftrightarrow> 0 < available cl t \<and> 0 < cl_global cl"
  "available (snd (acquire t cl)) t' = (if t' = t \<and> fst (acquire t cl) then available cl t - 1 else available cl t')"
  "cl_global (snd (acquire t cl)) = (if fst (acquire t cl) then cl_global cl - 1 else cl_global cl)"
  "cl_total_max (snd (acquire t cl)) = cl_total_max cl"
  "cl_max_per_tenant (snd (acquire t cl)) = cl_max_per_tenant cl"
  by (auto simp: acquire_def Let_def available_get_or [symmetric])

lemma drop_guard_simps [simp]:
  "available (drop_guard t cl) t' = (if t' = t then available cl t + 1 else available cl t')"
  "cl_global (drop_guard t cl) = cl_global cl + 1"
  "cl_total_max (drop_guard t cl) = cl_total_max cl"
  "cl_max_per_tenant (drop_guard t cl) = cl_max_per_tenant cl"
  by (auto simp: drop_guard_def Let_def available_get_or [symmetric])

lemma count_list_remove1: "count_list (remove1 x xs) y = (if y = x then count_list xs y - 1 else count_list xs y)"
  by (induction xs) auto

lemma count_list_pos: "x \<in> set xs \<Longrightarrow> 0 < count_list xs x"
  by (induction xs) auto

lemma flight_inv_start:
  assumes "flight_inv (cl, held)"
  shows "flight_inv (flight_exec (Start t) (cl, held))"
proof -
  have "available cl t + count_list held t = cl_max_per_tenant cl" using assms by simp
  with assms show ?thesis by (auto simp: case_prod_beta acquire_simps simp del: add_Suc_right)
qed

lemma flight_inv_finish:
  assumes "flight_inv (cl, held)"
  shows "flight_inv (flight_exec (Finish t) (cl, held))"
proof (cases "t \<in> set held")
  case True
  then have "0 < length held" by (rule length_pos_if_in_set)
  moreover have "available cl t + count_list held t = cl_max_per_tenant cl" using assms by simp
  then have "0 < cl_max_per_tenant cl" using count_list_pos [OF True] by linarith
  ultimately show ?thesis
    using True assms count_list_pos [OF True]
    by (auto simp: count_list_remove1 length_remove1 simp del: length_greater_0_conv)
qed (use assms in simp)

interpretation fl: machine flight_exec flight_inv
proof
  fix op s
  show "flight_inv s \<Longrightarrow> flight_inv (flight_exec op s)"
    by (cases s; cases op) (simp_all only: flight_inv_start flight_inv_finish)
qed

lemma flight_inv_new: "flight_inv (limiter_new m n, [])"
  by (simp add: limiter_new_def available_def)

lemma flight_config:
  "cl_max_per_tenant (fst (fold flight_exec ops (cl, held))) = cl_max_per_tenant cl \<and>
   cl_total_max (fst (fold flight_exec ops (cl, held))) = cl_total_max cl"
proof (induction ops arbitrary: cl held)
  case (Cons op ops)
  obtain cl1 held1 where e: "flight_exec op (cl, held) = (cl1, held1)" by fastforce
  then have "cl_max_per_tenant cl1 = cl_max_per_tenant cl \<and> cl_total_max cl1 = cl_total_max cl"
    by (cases op) (auto simp: case_prod_beta acquire_simps split: if_splits)
  with Cons.IH [of cl1 held1] e show ?case by simp
qed simp



text \<open>
  \<open>try_acquire\<close> does not reserve anything and creates permits: when the global limit is
  exhausted, every call raises the tenant's available permits by one, past its configured maximum.
\<close>

theorem try_acquire_leaks:
  assumes "cl_global cl = 0" and "0 < available cl t"
  shows "available (((\<lambda>cl. snd (try_acquire t cl)) ^^ k) cl) t = available cl t + k \<and>
    (0 < cl_global cl' \<longrightarrow> available (snd (try_acquire t cl')) t = available cl' t)"
proof (intro conjI impI)
  have "cl_global (((\<lambda>cl. snd (try_acquire t cl)) ^^ k) cl) = 0 \<and>
      available (((\<lambda>cl. snd (try_acquire t cl)) ^^ k) cl) t = available cl t + k"
    using assms by (induction k) (simp_all add: try_acquire_def Let_def available_get_or [symmetric])
  then show "available (((\<lambda>cl. snd (try_acquire t cl)) ^^ k) cl) t = available cl t + k" by simp
qed (simp add: try_acquire_def Let_def available_get_or [symmetric])

theorem try_acquire_leaks_witness:
  "available (((\<lambda>cl. snd (try_acquire ''a'' cl)) ^^ 3) (limiter_new 1 0)) ''a'' = 4"
  using try_acquire_leaks [of "limiter_new 1 0" "''a''" 3] by (simp add: limiter_new_def available_def)

end
