(* ===== verification/Prompt_Cache.thy ===== *)
theory Prompt_Cache
  imports Chat_Types "HOL-Library.Countable"
begin

text \<open>
  The in-memory response cache (\<open>cache/mod.rs\<close>). The digest, the JSON writer and the rendering of a
  float are library code and parameters of the key; the clock is an argument. The iteration order
  of the map is the order of its association list.
\<close>

section \<open>The key\<close>

definition sep :: char where
  "sep = CHR 0xFF"

definition cache_preimage :: "(json \<Rightarrow> string) \<Rightarrow> (rat \<Rightarrow> string) \<Rightarrow> chat_request \<Rightarrow> string" where
  "cache_preimage ser show_f64 req =
     req_model req @ [sep] @
     concat (map (\<lambda>m. msg_role m @ [sep] @ ser (msg_content m) @ [sep]) (req_messages req)) @
     [sep] @ (case req_temperature req of Some t \<Rightarrow> show_f64 t | None \<Rightarrow> []) @
     [sep] @ ser (enc_opt id (req_tools req))"

definition cache_key :: "(string \<Rightarrow> string) \<Rightarrow> (json \<Rightarrow> string) \<Rightarrow> (rat \<Rightarrow> string) \<Rightarrow> chat_request \<Rightarrow> string" where
  "cache_key digest ser show_f64 req = digest (cache_preimage ser show_f64 req)"

section \<open>The cache\<close>

record cache_entry =
  cen_response :: chat_response
  cen_created_at :: instant

record prompt_cache =
  pca_inner :: "(string, cache_entry) dmap"
  pca_max_entries :: nat
  pca_ttl :: duration
  pca_system_prompt_shard :: bool

definition cache_new :: "nat \<Rightarrow> prompt_cache" where
  "cache_new max_entries =
     \<lparr>pca_inner = [], pca_max_entries = (if max_entries = 0 then 256 else max_entries),
      pca_ttl = from_secs 300, pca_system_prompt_shard = False\<rparr>"

definition with_ttl :: "u64 \<Rightarrow> prompt_cache \<Rightarrow> prompt_cache" where
  "with_ttl ttl_secs c = c\<lparr>pca_ttl := from_secs (unat ttl_secs)\<rparr>"

definition cache_get :: "instant \<Rightarrow> string \<Rightarrow> prompt_cache \<Rightarrow> chat_response option \<times> prompt_cache" where
  "cache_get now key c =
     (case dm_get (pca_inner c) key of
        None \<Rightarrow> (None, c)
      | Some e \<Rightarrow>
          if pca_ttl c < elapsed now (cen_created_at e) then (None, c\<lparr>pca_inner := dm_remove key (pca_inner c)\<rparr>)
          else (Some (cen_response e), c))"

definition older :: "string \<times> cache_entry \<Rightarrow> (string \<times> instant) option \<Rightarrow> (string \<times> instant) option" where
  "older entry oldest =
     (let t = cen_created_at (snd entry)
      in case oldest of
           None \<Rightarrow> Some (fst entry, t)
         | Some oe \<Rightarrow> if t < snd oe then Some (fst entry, t) else oldest)"

definition evict_oldest_if_needed :: "prompt_cache \<Rightarrow> prompt_cache" where
  "evict_oldest_if_needed c =
     (if length (pca_inner c) < pca_max_entries c then c
      else case map_option fst (fold older (pca_inner c) None) of
             Some k \<Rightarrow> c\<lparr>pca_inner := dm_remove k (pca_inner c)\<rparr>
           | None \<Rightarrow> c)"

definition cache_put :: "instant \<Rightarrow> string \<Rightarrow> chat_response \<Rightarrow> prompt_cache \<Rightarrow> prompt_cache" where
  "cache_put now key resp c =
     (let c = evict_oldest_if_needed c
      in c\<lparr>pca_inner := dm_insert key \<lparr>cen_response = resp, cen_created_at = now\<rparr> (pca_inner c)\<rparr>)"

definition stale_keys :: "instant \<Rightarrow> prompt_cache \<Rightarrow> string list" where
  "stale_keys now c = map fst (filter (\<lambda>(_, e). pca_ttl c < elapsed now (cen_created_at e)) (pca_inner c))"

definition prune :: "instant \<Rightarrow> prompt_cache \<Rightarrow> nat \<times> prompt_cache" where
  "prune now c =
     (let c' = c\<lparr>pca_inner := fold dm_remove (stale_keys now c) (pca_inner c)\<rparr>
      in (length (pca_inner c) - length (pca_inner c'), c'))"

section \<open>The key tells requests apart\<close>

fun tokens :: "string list \<Rightarrow> string" where
  "tokens [] = []"
| "tokens (t # ts) = t @ [sep] @ tokens ts"

lemma tokens_append: "tokens (xs @ ys) = tokens xs @ tokens ys"
  by (induction xs) simp_all

lemma append_sep_inject:
  assumes "sep \<notin> set x" and "sep \<notin> set y" and "x @ [sep] @ r = y @ [sep] @ s"
  shows "x = y \<and> r = s"
proof -
  have head: "takeWhile (\<lambda>c. c \<noteq> sep) (z @ [sep] @ q) = z" if "sep \<notin> set z" for z q
    using that by (subst takeWhile_append2) auto
  have "x = y" using head [OF assms(1), of r] head [OF assms(2), of s] assms(3) by metis
  with assms(3) show ?thesis by simp
qed

lemma tokens_inject:
  assumes "\<forall>t\<in>set xs. sep \<notin> set t" and "\<forall>t\<in>set ys. sep \<notin> set t" and "tokens xs = tokens ys"
  shows "xs = ys"
  using assms
proof (induction xs arbitrary: ys)
  case Nil
  then show ?case by (cases ys) simp_all
next
  case (Cons x xs)
  then obtain y ys' where ys: "ys = y # ys'" by (cases ys) simp_all
  have "x = y \<and> tokens xs = tokens ys'"
    using Cons.prems unfolding ys by (intro append_sep_inject) simp_all
  moreover from this have "xs = ys'" using Cons.prems unfolding ys by (intro Cons.IH) simp_all
  ultimately show ?case by (simp add: ys)
qed

definition msg_tokens :: "(json \<Rightarrow> string) \<Rightarrow> message list \<Rightarrow> string list" where
  "msg_tokens ser ms = concat (map (\<lambda>m. [msg_role m, ser (msg_content m)]) ms)"

lemma tokens_msgs:
  "tokens (msg_tokens ser ms) = concat (map (\<lambda>m. msg_role m @ [sep] @ ser (msg_content m) @ [sep]) ms)"
  by (induction ms) (simp_all add: msg_tokens_def)

lemma msg_tokens_inject:
  assumes "inj ser" and "msg_tokens ser ms = msg_tokens ser ns"
  shows "map (\<lambda>m. (msg_role m, msg_content m)) ms = map (\<lambda>m. (msg_role m, msg_content m)) ns"
  using assms(2)
proof (induction ms arbitrary: ns)
  case Nil
  then show ?case by (cases ns) (simp_all add: msg_tokens_def)
next
  case (Cons m ms)
  then obtain n ns' where "ns = n # ns'" by (cases ns) (simp_all add: msg_tokens_def)
  with Cons show ?case using assms(1) by (simp add: msg_tokens_def inj_eq)
qed

text \<open>Valid UTF-8 never contains the byte 255. What the writers promise: their output is UTF-8,
  different values are written differently, and a number is never written as nothing.\<close>

definition writers_ok :: "(json \<Rightarrow> string) \<Rightarrow> (rat \<Rightarrow> string) \<Rightarrow> bool" where
  "writers_ok ser show_f64 =
     (inj ser \<and> inj show_f64 \<and> (\<forall>v. sep \<notin> set (ser v)) \<and> (\<forall>r. sep \<notin> set (show_f64 r) \<and> show_f64 r \<noteq> []))"

definition utf8_request :: "chat_request \<Rightarrow> bool" where
  "utf8_request req = (sep \<notin> set (req_model req) \<and> list_all (\<lambda>m. sep \<notin> set (msg_role m)) (req_messages req))"

definition request_tokens :: "(json \<Rightarrow> string) \<Rightarrow> (rat \<Rightarrow> string) \<Rightarrow> chat_request \<Rightarrow> string list" where
  "request_tokens ser show_f64 req =
     req_model req # msg_tokens ser (req_messages req) @
       [[], case req_temperature req of Some t \<Rightarrow> show_f64 t | None \<Rightarrow> [], ser (enc_opt id (req_tools req))]"

lemma preimage_tokens: "cache_preimage ser show_f64 req @ [sep] = tokens (request_tokens ser show_f64 req)"
  by (simp add: cache_preimage_def request_tokens_def tokens_append tokens_msgs)

lemma request_tokens_utf8:
  assumes "writers_ok ser show_f64" and "utf8_request req"
  shows "\<forall>t\<in>set (request_tokens ser show_f64 req). sep \<notin> set t"
  using assms
  by (auto simp: request_tokens_def msg_tokens_def writers_ok_def utf8_request_def list_all_iff split: option.splits)

text \<open>
  C17. The bytes that are hashed into the cache key determine the model, the role and content of
  every message in order, the temperature and the tools: two requests that differ in one of them
  are hashed from different bytes.
\<close>

theorem cache_preimage_inject:
  assumes "writers_ok ser show_f64" and "utf8_request r" and "utf8_request s"
    and "cache_preimage ser show_f64 r = cache_preimage ser show_f64 s"
  shows "req_model r = req_model s \<and>
    map (\<lambda>m. (msg_role m, msg_content m)) (req_messages r) = map (\<lambda>m. (msg_role m, msg_content m)) (req_messages s) \<and>
    req_temperature r = req_temperature s \<and> enc_opt id (req_tools r) = enc_opt id (req_tools s)"
proof -
  have eq: "request_tokens ser show_f64 r = request_tokens ser show_f64 s"
    using assms by (intro tokens_inject request_tokens_utf8) (simp_all flip: preimage_tokens)
  then have "msg_tokens ser (req_messages r) = msg_tokens ser (req_messages s)"
    by (simp add: request_tokens_def)
  then have msgs: "map (\<lambda>m. (msg_role m, msg_content m)) (req_messages r) = map (\<lambda>m. (msg_role m, msg_content m)) (req_messages s)"
    using assms(1) by (intro msg_tokens_inject) (simp_all add: writers_ok_def)
  have ne: "show_f64 x \<noteq> []" "[] \<noteq> show_f64 x" for x using assms(1) by (metis writers_ok_def)+
  have inj: "inj ser" "inj show_f64" using assms(1) by (simp_all add: writers_ok_def)
  have "req_temperature r = req_temperature s"
    using eq by (cases "req_temperature r"; cases "req_temperature s") (simp_all add: request_tokens_def ne inj_eq [OF inj(2)])
  with eq msgs show ?thesis by (simp add: request_tokens_def inj_eq [OF inj(1)])
qed

text \<open>Writers that satisfy the requirement, and two conversations that only differ in their second message.\<close>

instance json :: countable
  by countable_datatype

definition unary_ser :: "json \<Rightarrow> string" where
  "unary_ser v = replicate (to_nat v) (CHR ''1'')"

definition unary_f64 :: "rat \<Rightarrow> string" where
  "unary_f64 r = replicate (Suc (to_nat r)) (CHR ''1'')"

lemma writers_ok_unary: "writers_ok unary_ser unary_f64"
proof -
  have "inj unary_ser" "inj unary_f64"
    by (auto simp: inj_def unary_ser_def unary_f64_def replicate_eq_replicate simp del: replicate_Suc)
  then show ?thesis by (simp add: writers_ok_def unary_ser_def unary_f64_def sep_def)
qed

definition plain_message :: "string \<Rightarrow> string \<Rightarrow> message" where
  "plain_message role text =
     \<lparr>msg_role = role, msg_content = JStr text, msg_name = None, msg_tool_calls = None, msg_tool_call_id = None\<rparr>"

definition plain_request :: "message list \<Rightarrow> chat_request" where
  "plain_request ms =
     \<lparr>req_model = ''m'', req_messages = ms, req_stream = None, req_max_tokens = None, req_temperature = Some 0,
      req_top_p = None, req_stop = None, req_presence_penalty = None, req_frequency_penalty = None, req_user = None,
      req_tools = None, req_tool_choice = None, req_stream_options = None, req_extra = JObj []\<rparr>"

theorem cache_preimage_inject_witness:
  "cache_preimage unary_ser unary_f64 (plain_request [plain_message ''system'' ''s'', plain_message ''user'' ''a'']) \<noteq>
   cache_preimage unary_ser unary_f64 (plain_request [plain_message ''system'' ''s'', plain_message ''user'' ''b''])"
proof
  let ?r = "\<lambda>t. plain_request [plain_message ''system'' ''s'', plain_message ''user'' t]"
  have utf8: "utf8_request (?r t)" for t
    by (simp add: utf8_request_def plain_request_def plain_message_def sep_def)
  assume "cache_preimage unary_ser unary_f64 (?r ''a'') = cache_preimage unary_ser unary_f64 (?r ''b'')"
  from cache_preimage_inject [OF writers_ok_unary utf8 utf8 this] show False
    by (simp add: plain_request_def plain_message_def)
qed

text \<open>
  The key does not depend on the length limit, the sampling range, the stop sequences or the
  fields the gateway passes through: two requests that differ only there share a cache entry.
\<close>

theorem cache_key_ignores:
  "cache_key digest ser show_f64
     (r\<lparr>req_max_tokens := mt, req_top_p := tp, req_stop := st, req_presence_penalty := pp,
        req_frequency_penalty := fp, req_tool_choice := tc, req_extra := ex\<rparr>) =
   cache_key digest ser show_f64 r"
  by (simp add: cache_key_def cache_preimage_def)

section \<open>Runs of the cache\<close>

datatype cache_op = Get instant string | Put instant string chat_response | Prune instant

fun cache_exec :: "cache_op \<Rightarrow> prompt_cache \<Rightarrow> prompt_cache" where
  "cache_exec (Get now key) c = snd (cache_get now key c)"
| "cache_exec (Put now key resp) c = cache_put now key resp c"
| "cache_exec (Prune now) c = snd (prune now c)"

definition cache_inv :: "prompt_cache \<Rightarrow> bool" where
  "cache_inv c = (dm_wf (pca_inner c) \<and> length (pca_inner c) \<le> pca_max_entries c \<and> 0 < pca_max_entries c)"

lemma older_Some [simp]: "older e oldest \<noteq> None"
  by (simp add: older_def Let_def split: option.splits)

lemma fold_older:
  assumes "fold older es (Some (k0, t0)) = Some (k, t)"
  shows "(k, t) \<in> insert (k0, t0) ((\<lambda>e. (fst e, cen_created_at (snd e))) ` set es) \<and> t \<le> t0 \<and>
    (\<forall>e\<in>set es. t \<le> cen_created_at (snd e))"
  using assms
proof (induction es arbitrary: k0 t0)
  case (Cons e es)
  obtain k1 t1 where o: "older e (Some (k0, t0)) = Some (k1, t1)" using older_Some by fastforce
  then have "(k1, t1) \<in> {(k0, t0), (fst e, cen_created_at (snd e))}" "t1 \<le> t0" "t1 \<le> cen_created_at (snd e)"
    by (auto simp: older_def Let_def split: if_splits)
  moreover have "(k, t) \<in> insert (k1, t1) ((\<lambda>e. (fst e, cen_created_at (snd e))) ` set es) \<and> t \<le> t1 \<and>
      (\<forall>e\<in>set es. t \<le> cen_created_at (snd e))"
    using Cons.prems o by (intro Cons.IH) simp
  ultimately show ?case by auto
qed simp

lemma oldest_key:
  assumes "es \<noteq> []"
  obtains k e where "map_option fst (fold older es None) = Some k" and "(k, e) \<in> set es"
    and "\<forall>x\<in>set es. cen_created_at e \<le> cen_created_at (snd x)"
proof -
  obtain x xs where es: "es = x # xs" using assms by (cases es) auto
  have "older x None = Some (fst x, cen_created_at (snd x))" by (simp add: older_def Let_def)
  moreover have "fold older xs (Some p) \<noteq> None" for p
    by (induction xs arbitrary: p) (simp_all, metis older_Some not_None_eq)
  ultimately obtain k t where f: "fold older es None = Some (k, t)"
    using es by (metis fold_simps(2) not_None_eq surj_pair)
  then have "(k, t) \<in> (\<lambda>e. (fst e, cen_created_at (snd e))) ` set es" and "\<forall>e\<in>set es. t \<le> cen_created_at (snd e)"
    using fold_older [of xs "fst x" "cen_created_at (snd x)" k t] es by (auto simp: older_def Let_def)
  then obtain e where "(k, e) \<in> set es" "t = cen_created_at e" by auto
  with f \<open>\<forall>e\<in>set es. t \<le> cen_created_at (snd e)\<close> that show thesis by simp
qed

lemma evict_fields [simp]:
  "pca_max_entries (evict_oldest_if_needed c) = pca_max_entries c"
  "pca_ttl (evict_oldest_if_needed c) = pca_ttl c"
  by (simp_all add: evict_oldest_if_needed_def split: option.splits)

lemma evict_wf [simp]: "dm_wf (pca_inner c) \<Longrightarrow> dm_wf (pca_inner (evict_oldest_if_needed c))"
  by (simp add: evict_oldest_if_needed_def split: option.splits)

lemma evict_eq:
  assumes "\<not> length (pca_inner c) < pca_max_entries c" and "map_option fst (fold older (pca_inner c) None) = Some k"
  shows "evict_oldest_if_needed c = c\<lparr>pca_inner := dm_remove k (pca_inner c)\<rparr>"
  using assms(1) unfolding evict_oldest_if_needed_def assms(2) by simp

lemma evict_makes_room:
  assumes "cache_inv c"
  shows "length (pca_inner (evict_oldest_if_needed c)) < pca_max_entries c"
proof (cases "length (pca_inner c) < pca_max_entries c")
  case False
  then have "pca_inner c \<noteq> []" using assms by (auto simp: cache_inv_def)
  then obtain k e where k: "map_option fst (fold older (pca_inner c) None) = Some k" "(k, e) \<in> set (pca_inner c)"
    by (rule oldest_key)
  moreover have "dm_get (pca_inner c) k \<noteq> None" using weak_map_of_SomeI [OF k(2)] by auto
  moreover have "0 < length (pca_inner c)" using k(2) by (rule length_pos_if_in_set)
  ultimately show ?thesis
    using assms evict_eq [OF False k(1)]
    by (auto simp: cache_inv_def length_dm_remove del: length_greater_0_conv)
qed (simp add: evict_oldest_if_needed_def)

lemma length_fold_remove: "dm_wf m \<Longrightarrow> dm_wf (fold dm_remove ks m) \<and> length (fold dm_remove ks m) \<le> length m"
proof (induction ks arbitrary: m)
  case (Cons k ks)
  from Cons.IH [of "dm_remove k m"] Cons.prems show ?case
    by (auto simp: length_dm_remove split: if_splits intro: order.trans)
qed simp

lemma cache_exec_config [simp]:
  "pca_max_entries (cache_exec op c) = pca_max_entries c"
  "pca_ttl (cache_exec op c) = pca_ttl c"
  by (cases op; simp add: cache_get_def cache_put_def prune_def Let_def split: option.splits)+

interpretation cache: machine cache_exec cache_inv
proof
  fix op s
  assume inv: "cache_inv s"
  show "cache_inv (cache_exec op s)"
  proof (cases op)
    case (Get now key)
    with inv show ?thesis by (auto simp: cache_inv_def cache_get_def length_dm_remove split: option.splits)
  next
    case (Put now key resp)
    with inv evict_makes_room [OF inv] show ?thesis
      by (auto simp: cache_inv_def cache_put_def Let_def length_dm_insert)
  next
    case (Prune now)
    with inv length_fold_remove [of "pca_inner s" "stale_keys now s"] show ?thesis
      by (auto simp: cache_inv_def prune_def Let_def)
  qed
qed

lemma cache_inv_new: "cache_inv (cache_new n)"
  by (simp add: cache_inv_def cache_new_def)

text \<open>Every entry of the cache was put there by the run.\<close>

definition from_puts :: "cache_op list \<Rightarrow> prompt_cache \<Rightarrow> bool" where
  "from_puts ops c =
     (\<forall>k e. dm_get (pca_inner c) k = Some e \<longrightarrow> Put (cen_created_at e) k (cen_response e) \<in> set ops)"

lemma dm_get_fold_remove: "dm_get (fold dm_remove ks m) k = Some v \<Longrightarrow> dm_get m k = Some v"
proof (induction ks arbitrary: m)
  case (Cons x ks)
  have "dm_get (dm_remove x m) k = Some v" by (rule Cons.IH) (use Cons.prems in simp)
  then show ?case by (simp split: if_splits)
qed simp

lemma from_puts_evict: "from_puts ops c \<Longrightarrow> from_puts ops (evict_oldest_if_needed c)"
  by (auto simp: from_puts_def evict_oldest_if_needed_def split: option.splits if_splits)

lemma from_puts_exec:
  assumes "op \<in> set ops" and "from_puts ops c"
  shows "from_puts ops (cache_exec op c)"
proof (cases op)
  case (Get now key)
  with assms(2) show ?thesis by (auto simp: from_puts_def cache_get_def split: option.splits if_splits)
next
  case (Put now key resp)
  with assms(1) from_puts_evict [OF assms(2)] show ?thesis
    by (auto simp: from_puts_def cache_put_def Let_def)
next
  case (Prune now)
  with assms(2) show ?thesis by (auto simp: from_puts_def prune_def Let_def dest: dm_get_fold_remove)
qed

lemma run_config: "pca_ttl (fold cache_exec ops c) = pca_ttl c \<and> pca_max_entries (fold cache_exec ops c) = pca_max_entries c"
  by (induction ops arbitrary: c) simp_all

text \<open>
  C18. After any run the cache holds at most its configured number of entries, and it only
  answers with a response that was put under the same key no longer ago than the time to live.
\<close>

theorem cache_sound:
  assumes "c = fold cache_exec ops (cache_new n)" and "fst (cache_get now key c) = Some resp"
  shows "length (pca_inner c) \<le> (if n = 0 then 256 else n) \<and>
    (\<exists>t. Put t key resp \<in> set ops \<and> elapsed now t \<le> from_secs 300)"
proof -
  have "from_puts ops c" unfolding assms(1)
    by (rule cache.run_preserves [OF cache_inv_new]) (simp_all add: from_puts_exec, simp add: from_puts_def cache_new_def)
  moreover have "cache_inv c" unfolding assms(1) by (rule cache.run_inv [OF cache_inv_new])
  moreover have "pca_ttl c = from_secs 300" "pca_max_entries c = (if n = 0 then 256 else n)"
    using run_config [of ops "cache_new n"] by (simp_all add: assms(1) cache_new_def)
  ultimately show ?thesis
    using assms(2) by (auto simp: cache_get_def from_puts_def cache_inv_def not_less split: option.splits if_splits)
qed

text \<open>
  C19. What was put is found: a lookup within the time to live returns the response last put
  under the key, and putting keeps every other entry except, when the cache is full, one of the oldest.
\<close>

theorem cache_complete:
  assumes "cache_inv c" and "elapsed later now \<le> pca_ttl c"
  shows "fst (cache_get later key (cache_put now key resp c)) = Some resp \<and>
    (\<exists>victim. \<forall>k e. k \<noteq> key \<longrightarrow> dm_get (pca_inner c) k = Some e \<longrightarrow>
       dm_get (pca_inner (cache_put now key resp c)) k = Some e \<or>
       k = victim \<and> length (pca_inner c) = pca_max_entries c \<and>
       (\<forall>x\<in>set (pca_inner c). cen_created_at e \<le> cen_created_at (snd x)))"
proof (intro conjI)
  show "fst (cache_get later key (cache_put now key resp c)) = Some resp"
    using assms(2) by (simp add: cache_get_def cache_put_def Let_def)
  have len: "length (pca_inner c) \<le> pca_max_entries c" and wf: "dm_wf (pca_inner c)"
    using assms(1) by (simp_all add: cache_inv_def)
  show "\<exists>victim. \<forall>k e. k \<noteq> key \<longrightarrow> dm_get (pca_inner c) k = Some e \<longrightarrow>
       dm_get (pca_inner (cache_put now key resp c)) k = Some e \<or>
       k = victim \<and> length (pca_inner c) = pca_max_entries c \<and>
       (\<forall>x\<in>set (pca_inner c). cen_created_at e \<le> cen_created_at (snd x))"
  proof (cases "length (pca_inner c) < pca_max_entries c")
    case True
    then show ?thesis by (simp add: cache_put_def evict_oldest_if_needed_def)
  next
    case False
    then have "pca_inner c \<noteq> []" using assms(1) by (auto simp: cache_inv_def)
    then obtain v e where v: "map_option fst (fold older (pca_inner c) None) = Some v" "(v, e) \<in> set (pca_inner c)"
        "\<forall>x\<in>set (pca_inner c). cen_created_at e \<le> cen_created_at (snd x)"
      by (rule oldest_key)
    note evict_eq [OF False v(1)]
    moreover have "dm_get (pca_inner c) v = Some e" using v(2) dm_get_in_set [OF wf] by blast
    ultimately show ?thesis using v(3) False len by (intro exI [of _ v]) (simp add: cache_put_def Let_def)
  qed
qed

definition sample_response :: chat_response where
  "sample_response =
     \<lparr>resp_id = ''r1'', resp_object = ''chat.completion'', resp_created = 0, resp_model = ''m'', resp_choices = [],
      resp_usage = None, resp_raw_usage_json = None\<rparr>"

theorem cache_sound_witness:
  "\<exists>t. Put t ''k'' sample_response \<in> set [Put 0 ''k'' sample_response, Prune (from_secs 10)] \<and>
     elapsed (from_secs 20) t \<le> from_secs 300"
proof -
  let ?ops = "[Put 0 ''k'' sample_response, Prune (from_secs 10)]"
  have "fst (cache_get (from_secs 20) ''k'' (fold cache_exec ?ops (cache_new 1))) = Some sample_response"
    by (simp add: cache_put_def evict_oldest_if_needed_def cache_new_def prune_def stale_keys_def cache_get_def
        elapsed_def dm_insert_def)
  from cache_sound [OF refl this] show ?thesis by blast
qed

theorem cache_complete_witness:
  "fst (cache_get (from_secs 300) ''k'' (cache_put 0 ''k'' sample_response (cache_new 1))) = Some sample_response"
  using cache_complete [OF cache_inv_new, of "from_secs 300" 0 1 "''k''" sample_response]
  by (simp add: elapsed_def cache_new_def)

section \<open>The byte-level backend\<close>

text \<open>\<open>MemoryBackend\<close>: values with their own time to live in whole seconds.\<close>

type_synonym memory_backend = "(string, string \<times> instant \<times> u64) dmap"

definition backend_get :: "instant \<Rightarrow> string \<Rightarrow> memory_backend \<Rightarrow> string option \<times> memory_backend" where
  "backend_get now key store =
     (case dm_get store key of
        None \<Rightarrow> (None, store)
      | Some (data, created, ttl) \<Rightarrow>
          if unat ttl < elapsed now created div from_secs 1 then (None, dm_remove key store)
          else (Some data, store))"

definition backend_set :: "instant \<Rightarrow> string \<Rightarrow> string \<Rightarrow> u64 \<Rightarrow> memory_backend \<Rightarrow> memory_backend" where
  "backend_set now key data ttl_secs store = dm_insert key (data, now, ttl_secs) store"

definition backend_delete :: "string \<Rightarrow> memory_backend \<Rightarrow> memory_backend" where
  "backend_delete key store = dm_remove key store"

definition backend_exists :: "string \<Rightarrow> memory_backend \<Rightarrow> bool" where
  "backend_exists key store = (dm_get store key \<noteq> None)"

lemma backend_get_set:
  "fst (backend_get later key (backend_set now key data ttl store)) =
     (if elapsed later now < from_secs (unat ttl + 1) then Some data else None)"
  by (auto simp: backend_get_def backend_set_def div_less_iff_less_mult not_less less_Suc_eq_le
      less_mult_imp_div_less split: if_splits)

lemma backend_get_delete: "fst (backend_get later key (backend_delete key store)) = None"
  by (simp add: backend_get_def backend_delete_def)

end
