(* ===== verification/Pricing.thy ===== *)
theory Pricing
  imports Chat_Types
begin

text \<open>
  Accounting prices: the price table and its lookup (\<open>config/pricing.rs\<close>), its two configuration
  shapes, and the composition of the effective table from the catalog, the startup configuration
  and the database (\<open>compose_pricing\<close> of \<open>config_store.rs\<close>). Prices are finite, so an \<open>f64\<close> is a
  rational number; arithmetic on it is exact here.
\<close>

record price_entry =
  pe_prompt :: rat
  pe_completion :: rat

definition zero_price :: price_entry where
  "zero_price = \<lparr>pe_prompt = 0, pe_completion = 0\<rparr>"

record model_pricing =
  mp_default :: price_entry
  mp_tenants :: "(string, price_entry) dmap"

record pricing_config =
  pr_models :: "(string, model_pricing) dmap"

definition price_lookup :: "pricing_config \<Rightarrow> string \<Rightarrow> string option \<Rightarrow> price_entry" where
  "price_lookup pc model tenant =
     (case dm_get (pr_models pc) model of
        None \<Rightarrow> zero_price
      | Some mp \<Rightarrow>
          (case Option.bind tenant (dm_get (mp_tenants mp)) of
             Some pe \<Rightarrow> pe
           | None \<Rightarrow> mp_default mp))"

definition cost_usd :: "pricing_config \<Rightarrow> string \<Rightarrow> string option \<Rightarrow> int \<Rightarrow> int \<Rightarrow> rat option" where
  "cost_usd pc model tenant pt ct =
     (let price = price_lookup pc model tenant
      in if pe_prompt price = 0 \<and> pe_completion price = 0 then None
         else Some (of_int pt * pe_prompt price / 1000000 +
           of_int ct * pe_completion price / 1000000))"

section \<open>Configuration shapes\<close>

definition dec_price_entry :: "json \<Rightarrow> price_entry option" where
  "dec_price_entry v =
     Option.bind (struct_map [(''prompt'', True), (''completion'', True)] v) (\<lambda>m.
     Option.bind (default_field 0 as_f64 m ''prompt'') (\<lambda>p.
     Option.bind (default_field 0 as_f64 m ''completion'') (\<lambda>c.
     Some \<lparr>pe_prompt = p, pe_completion = c\<rparr>)))"

fun dec_map :: "(json \<Rightarrow> 'a option) \<Rightarrow> json \<Rightarrow> (string, 'a) dmap option" where
  "dec_map dec (JObj m) = those (map (\<lambda>(k, v). map_option (Pair k) (dec v)) m)"
| "dec_map dec _ = None"

definition dec_model_pricing :: "json \<Rightarrow> model_pricing option" where
  "dec_model_pricing v =
     Option.bind (struct_map [(''default'', True), (''tenants'', True)] v) (\<lambda>m.
     Option.bind (default_field zero_price dec_price_entry m ''default'') (\<lambda>d.
     Option.bind (default_field [] (dec_map dec_price_entry) m ''tenants'') (\<lambda>ts.
     Some \<lparr>mp_default = d, mp_tenants = ts\<rparr>)))"

text \<open>The untagged enumeration: the nested shape first, then the flat one.\<close>

definition dec_pricing_v2 :: "json \<Rightarrow> pricing_config option" where
  "dec_pricing_v2 v =
     Option.bind (struct_map [(''models'', False)] v) (\<lambda>m.
     Option.bind (req_field (dec_map dec_model_pricing) m ''models'') (\<lambda>ms. Some \<lparr>pr_models = ms\<rparr>))"

definition dec_pricing_v1 :: "json \<Rightarrow> pricing_config option" where
  "dec_pricing_v1 v =
     map_option (\<lambda>flat. \<lparr>pr_models = map (\<lambda>(model, price). (model, \<lparr>mp_default = price, mp_tenants = []\<rparr>)) flat\<rparr>)
       (dec_map dec_price_entry v)"

definition dec_pricing :: "json \<Rightarrow> pricing_config option" where
  "dec_pricing v = (case dec_pricing_v2 v of Some pc \<Rightarrow> Some pc | None \<Rightarrow> dec_pricing_v1 v)"

section \<open>The effective table\<close>

record pricing_override =
  po_model_id :: string
  po_tenant_id :: "string option"
  po_input_price :: rat
  po_output_price :: rat
  po_effective_from :: int
  po_effective_until :: "int option"

definition is_effective_at :: "int \<Rightarrow> pricing_override \<Rightarrow> bool" where
  "is_effective_at now_ms ov =
     (if now_ms < po_effective_from ov then False
      else case po_effective_until ov of None \<Rightarrow> True | Some until \<Rightarrow> now_ms < until)"

record registry_entry =
  re_id :: string
  re_display_name :: string
  re_provider_kind :: string
  re_provider_config_id :: "string option"
  re_supports_vision :: bool
  re_supports_tool_calling :: bool
  re_supports_json_mode :: bool
  re_max_context_tokens :: int
  re_max_output_tokens :: int
  re_input_price :: "rat option"
  re_output_price :: "rat option"
  re_capabilities_json :: "string option"
  re_enabled :: bool

definition empty_pricing :: model_pricing where
  "empty_pricing = \<lparr>mp_default = zero_price, mp_tenants = []\<rparr>"

definition or_zero :: "rat option \<Rightarrow> rat" where
  "or_zero x = (case x of Some r \<Rightarrow> r | None \<Rightarrow> 0)"

definition catalog_price :: "registry_entry \<Rightarrow> price_entry" where
  "catalog_price e = \<lparr>pe_prompt = or_zero (re_input_price e), pe_completion = or_zero (re_output_price e)\<rparr>"

definition override_price :: "pricing_override \<Rightarrow> price_entry" where
  "override_price ov = \<lparr>pe_prompt = po_input_price ov, pe_completion = po_output_price ov\<rparr>"

type_synonym price_table = "(string, model_pricing) dmap"

abbreviation slot :: "price_table \<Rightarrow> string \<Rightarrow> model_pricing" where
  "slot models model \<equiv> dm_get_or models model empty_pricing"

definition add_catalog :: "registry_entry \<Rightarrow> price_table \<Rightarrow> price_table" where
  "add_catalog e models = dm_insert (re_id e) \<lparr>mp_default = catalog_price e, mp_tenants = []\<rparr> models"

definition is_priced :: "price_entry \<Rightarrow> bool" where
  "is_priced pe = (0 < pe_prompt pe \<or> 0 < pe_completion pe)"

definition layer_yaml :: "model_pricing \<Rightarrow> model_pricing \<Rightarrow> model_pricing" where
  "layer_yaml yaml s =
     (let s = (if is_priced (mp_default yaml) then s\<lparr>mp_default := mp_default yaml\<rparr> else s)
      in s\<lparr>mp_tenants := fold (\<lambda>(tenant, price) ts. dm_insert tenant price ts) (mp_tenants yaml) (mp_tenants s)\<rparr>)"

definition add_yaml :: "string \<times> model_pricing \<Rightarrow> price_table \<Rightarrow> price_table" where
  "add_yaml my models =
     (case my of (model, yaml) \<Rightarrow> dm_insert model (layer_yaml yaml (slot models model)) models)"

definition add_global :: "pricing_override \<Rightarrow> price_table \<Rightarrow> price_table" where
  "add_global ov models =
     dm_insert (po_model_id ov) ((slot models (po_model_id ov))\<lparr>mp_default := override_price ov\<rparr>) models"

definition add_tenant :: "pricing_override \<Rightarrow> price_table \<Rightarrow> price_table" where
  "add_tenant ov models =
     (case po_tenant_id ov of
        None \<Rightarrow> models
      | Some tenant \<Rightarrow>
          let s = slot models (po_model_id ov)
          in dm_insert (po_model_id ov) (s\<lparr>mp_tenants := dm_insert tenant (override_price ov) (mp_tenants s)\<rparr>) models)"

definition compose_pricing ::
  "pricing_config \<Rightarrow> registry_entry list \<Rightarrow> pricing_override list \<Rightarrow> int \<Rightarrow> pricing_config" where
  "compose_pricing bootstrap catalog overrides now_ms =
     (let models = fold add_catalog catalog [];
          models = fold add_yaml (pr_models bootstrap) models;
          models = fold add_global
            (filter (\<lambda>ov. po_tenant_id ov = None) (filter (is_effective_at now_ms) overrides)) models;
          models = fold add_tenant
            (filter (\<lambda>ov. is_effective_at now_ms ov \<and> po_tenant_id ov \<noteq> None) overrides) models
      in \<lparr>pr_models = models\<rparr>)"

section \<open>What each layer does to a model's entry\<close>

text \<open>A loop that touches one key per element acts on the entry of a key through its own elements.\<close>

lemma fold_keyed:
  assumes "\<And>x m. x \<in> set xs \<Longrightarrow> dm_get_or (f x m) k d = (if key x = k then upd x (dm_get_or m k d) else dm_get_or m k d)"
  shows "dm_get_or (fold f xs m) k d = fold upd (filter (\<lambda>x. key x = k) xs) (dm_get_or m k d)"
  using assms
proof (induction xs arbitrary: m)
  case (Cons x xs)
  have "dm_get_or (fold f xs (f x m)) k d = fold upd (filter (\<lambda>x. key x = k) xs) (dm_get_or (f x m) k d)"
    by (rule Cons.IH) (simp add: Cons.prems)
  then show ?case by (simp add: Cons.prems)
qed simp

lemma fold_const_last: "fold (\<lambda>x _. g x) xs s = (if xs = [] then s else g (last xs))"
  by (induction xs arbitrary: s) auto

lemma filter_key_unique:
  "dm_wf m \<Longrightarrow> filter (\<lambda>x. fst x = k) m = (case dm_get m k of None \<Rightarrow> [] | Some v \<Rightarrow> [(k, v)])"
proof (induction m)
  case (Cons x m)
  have "dm_get m (fst x) = None" "dm_wf m"
    using Cons.prems by (auto simp: dm_wf_def map_of_eq_None_iff)
  then show ?case using Cons.IH by (cases x) auto
qed simp

lemma fold_insert_get:
  "dm_wf ys \<Longrightarrow> dm_get (fold (\<lambda>(k, v) m. dm_insert k v m) ys m) k =
     (case dm_get ys k of Some v \<Rightarrow> Some v | None \<Rightarrow> dm_get m k)"
proof (induction ys arbitrary: m)
  case (Cons y ys)
  have "dm_get ys (fst y) = None" "dm_wf ys"
    using Cons.prems by (auto simp: dm_wf_def map_of_eq_None_iff)
  then show ?case using Cons.IH [of "case y of (k, v) \<Rightarrow> dm_insert k v m"]
    by (cases y) (auto split: option.split)
qed simp

lemma price_lookup_slot:
  "price_lookup pc model tenant =
     (let s = slot (pr_models pc) model
      in case Option.bind tenant (dm_get (mp_tenants s)) of Some pe \<Rightarrow> pe | None \<Rightarrow> mp_default s)"
  by (simp add: price_lookup_def dm_get_or_def empty_pricing_def split: option.split)

definition last_of :: "('a \<Rightarrow> bool) \<Rightarrow> 'a list \<Rightarrow> 'a option" where
  "last_of P xs = (let ys = filter P xs in if ys = [] then None else Some (last ys))"

lemma slot_catalog:
  "slot (fold add_catalog catalog []) model =
     \<lparr>mp_default = (case last_of (\<lambda>e. re_id e = model) catalog of Some e \<Rightarrow> catalog_price e | None \<Rightarrow> zero_price),
      mp_tenants = []\<rparr>"
proof -
  have "slot (fold add_catalog catalog []) model =
      fold (\<lambda>e _. \<lparr>mp_default = catalog_price e, mp_tenants = []\<rparr>) (filter (\<lambda>e. re_id e = model) catalog)
        (slot [] model)"
    by (rule fold_keyed) (simp add: add_catalog_def)
  then show ?thesis by (simp add: fold_const_last last_of_def dm_get_or_def empty_pricing_def Let_def)
qed

lemma slot_yaml:
  assumes "dm_wf ys"
  shows "slot (fold add_yaml ys m) model =
    (case dm_get ys model of None \<Rightarrow> slot m model | Some yaml \<Rightarrow> layer_yaml yaml (slot m model))"
proof -
  have "slot (fold add_yaml ys m) model =
      fold (\<lambda>y. layer_yaml (snd y)) (filter (\<lambda>y. fst y = model) ys) (slot m model)"
    by (rule fold_keyed) (auto simp: add_yaml_def split: prod.split)
  then show ?thesis by (simp add: filter_key_unique [OF assms] split: option.split)
qed

lemma fold_default:
  "fold (\<lambda>ov s. s\<lparr>mp_default := override_price ov\<rparr>) ovs s =
     (if ovs = [] then s else s\<lparr>mp_default := override_price (last ovs)\<rparr>)"
  by (induction ovs arbitrary: s) auto

lemma slot_global:
  "slot (fold add_global ovs m) model =
     (case last_of (\<lambda>ov. po_model_id ov = model) ovs of None \<Rightarrow> slot m model
      | Some ov \<Rightarrow> (slot m model)\<lparr>mp_default := override_price ov\<rparr>)"
proof -
  have "slot (fold add_global ovs m) model =
      fold (\<lambda>ov s. s\<lparr>mp_default := override_price ov\<rparr>) (filter (\<lambda>ov. po_model_id ov = model) ovs) (slot m model)"
    by (rule fold_keyed) (auto simp: add_global_def)
  then show ?thesis by (simp add: fold_default last_of_def Let_def)
qed

definition put_tenant :: "pricing_override \<Rightarrow> model_pricing \<Rightarrow> model_pricing" where
  "put_tenant ov s = s\<lparr>mp_tenants := dm_insert (the (po_tenant_id ov)) (override_price ov) (mp_tenants s)\<rparr>"

lemma fold_put_tenant:
  "mp_default (fold put_tenant ovs s) = mp_default s"
  "dm_get (mp_tenants (fold put_tenant ovs s)) t =
     (case last_of (\<lambda>ov. the (po_tenant_id ov) = t) ovs of None \<Rightarrow> dm_get (mp_tenants s) t
      | Some ov \<Rightarrow> Some (override_price ov))"
  by (induction ovs arbitrary: s) (auto simp: put_tenant_def last_of_def Let_def)

lemma slot_tenant:
  assumes "\<And>ov. ov \<in> set ovs \<Longrightarrow> po_tenant_id ov \<noteq> None"
  shows "slot (fold add_tenant ovs m) model = fold put_tenant (filter (\<lambda>ov. po_model_id ov = model) ovs) (slot m model)"
proof (rule fold_keyed)
  fix ov m
  assume "ov \<in> set ovs"
  then obtain t where "po_tenant_id ov = Some t" using assms by blast
  then show "slot (add_tenant ov m) model = (if po_model_id ov = model then put_tenant ov (slot m model) else slot m model)"
    by (auto simp: add_tenant_def put_tenant_def Let_def)
qed

lemma slot_tenant_filter:
  "slot (fold add_tenant (filter (\<lambda>ov. P ov \<and> po_tenant_id ov \<noteq> None) ovs) m) model =
     fold put_tenant (filter (\<lambda>ov. po_model_id ov = model) (filter (\<lambda>ov. P ov \<and> po_tenant_id ov \<noteq> None) ovs)) (slot m model)"
  by (rule slot_tenant) simp

lemma last_of_filter: "last_of P (filter Q xs) = last_of (\<lambda>x. Q x \<and> P x) xs"
  by (simp add: last_of_def)

lemma last_of_cong: "(\<And>x. x \<in> set xs \<Longrightarrow> P x = Q x) \<Longrightarrow> last_of P xs = last_of Q xs"
  unfolding last_of_def by (metis (mono_tags, lifting) filter_cong)

section \<open>The price a request is charged\<close>

text \<open>What the layers amount to, for a model and for a model and tenant.\<close>

definition base_price ::
  "pricing_config \<Rightarrow> registry_entry list \<Rightarrow> pricing_override list \<Rightarrow> int \<Rightarrow> string \<Rightarrow> price_entry" where
  "base_price bootstrap catalog overrides now model =
     (case last_of (\<lambda>ov. is_effective_at now ov \<and> po_tenant_id ov = None \<and> po_model_id ov = model) overrides of
        Some ov \<Rightarrow> override_price ov
      | None \<Rightarrow>
          if is_priced (price_lookup bootstrap model None) then price_lookup bootstrap model None
          else case last_of (\<lambda>e. re_id e = model) catalog of Some e \<Rightarrow> catalog_price e | None \<Rightarrow> zero_price)"

definition tenant_price ::
  "pricing_config \<Rightarrow> pricing_override list \<Rightarrow> int \<Rightarrow> string \<Rightarrow> string \<Rightarrow> price_entry option" where
  "tenant_price bootstrap overrides now model tenant =
     (case last_of (\<lambda>ov. is_effective_at now ov \<and> po_tenant_id ov = Some tenant \<and> po_model_id ov = model) overrides of
        Some ov \<Rightarrow> Some (override_price ov)
      | None \<Rightarrow> Option.bind (dm_get (pr_models bootstrap) model) (\<lambda>mp. dm_get (mp_tenants mp) tenant))"

definition pricing_wf :: "pricing_config \<Rightarrow> bool" where
  "pricing_wf pc = (dm_wf (pr_models pc) \<and> list_all (\<lambda>(_, mp). dm_wf (mp_tenants mp)) (pr_models pc))"

lemma layer_yaml_default:
  "mp_default (layer_yaml yaml s) = (if is_priced (mp_default yaml) then mp_default yaml else mp_default s)"
  by (simp add: layer_yaml_def Let_def)

lemma layer_yaml_tenants:
  "dm_wf (mp_tenants yaml) \<Longrightarrow> dm_get (mp_tenants (layer_yaml yaml s)) t =
     (case dm_get (mp_tenants yaml) t of Some pe \<Rightarrow> Some pe | None \<Rightarrow> dm_get (mp_tenants s) t)"
  by (simp add: layer_yaml_def Let_def fold_insert_get cong: option.case_cong)

lemma compose_default:
  assumes "pricing_wf bootstrap"
  shows "mp_default (slot (pr_models (compose_pricing bootstrap catalog overrides now)) model) =
    base_price bootstrap catalog overrides now model"
proof -
  have nz: "\<not> is_priced zero_price" by (simp add: is_priced_def zero_price_def)
  show ?thesis
    using assms nz unfolding pricing_wf_def compose_pricing_def Let_def base_price_def pricing_config.simps
      slot_tenant_filter
    by (simp add: fold_put_tenant slot_global last_of_filter conj_assoc slot_yaml slot_catalog
        layer_yaml_default price_lookup_def split: option.split)
qed

lemma compose_tenant:
  assumes "pricing_wf bootstrap"
  shows "dm_get (mp_tenants (slot (pr_models (compose_pricing bootstrap catalog overrides now)) model)) tenant =
    tenant_price bootstrap overrides now model tenant"
proof -
  have wf: "dm_wf (pr_models bootstrap)"
    and wfm: "\<And>mp. dm_get (pr_models bootstrap) model = Some mp \<Longrightarrow> dm_wf (mp_tenants mp)"
    using assms by (auto simp: pricing_wf_def dest: dm_values_get [where k = model])
  let ?P = "\<lambda>ov. is_effective_at now ov \<and> po_tenant_id ov = Some tenant \<and> po_model_id ov = model"
  have sel: "last_of (\<lambda>ov. (is_effective_at now ov \<and> po_tenant_id ov \<noteq> None) \<and>
      po_model_id ov = model \<and> the (po_tenant_id ov) = tenant) overrides = last_of ?P overrides"
    by (rule last_of_cong) auto
  have yaml: "dm_get (mp_tenants (slot (fold add_yaml (pr_models bootstrap) (fold add_catalog catalog [])) model)) tenant =
      Option.bind (dm_get (pr_models bootstrap) model) (\<lambda>mp. dm_get (mp_tenants mp) tenant)"
    by (auto simp: slot_yaml [OF wf] slot_catalog layer_yaml_tenants dest: wfm split: option.split)
  have glob: "mp_tenants (slot (fold add_global ovs m) model) = mp_tenants (slot m model)" for ovs m
    by (simp add: slot_global split: option.split)
  show ?thesis
    unfolding compose_pricing_def Let_def tenant_price_def pricing_config.simps slot_tenant_filter fold_put_tenant
      last_of_filter sel glob yaml
    by (rule refl)
qed


definition sample_pricing :: pricing_config where
  "sample_pricing = \<lparr>pr_models =
     [(''gpt'', \<lparr>mp_default = \<lparr>pe_prompt = 2, pe_completion = 4\<rparr>,
        mp_tenants = [(''acme'', \<lparr>pe_prompt = 1, pe_completion = 1\<rparr>)]\<rparr>)]\<rparr>"

definition sample_override :: pricing_override where
  "sample_override = \<lparr>po_model_id = ''gpt'', po_tenant_id = None, po_input_price = 9, po_output_price = 9,
     po_effective_from = 0, po_effective_until = None\<rparr>"


section \<open>The two configuration shapes\<close>

lemma those_map_cong:
  "(\<And>x. x \<in> set xs \<Longrightarrow> f x = map_option h (g x)) \<Longrightarrow> those (map f xs) = map_option (map h) (those (map g xs))"
proof (induction xs)
  case (Cons x xs)
  have "those (map f xs) = map_option (map h) (those (map g xs))"
    by (rule Cons.IH) (simp add: Cons.prems)
  moreover have "f x = map_option h (g x)" by (simp add: Cons.prems)
  ultimately show ?case by (auto simp: option.map_comp comp_def split: option.split)
qed simp

lemma dec_map_comp:
  assumes "\<And>v. dec' (g v) = map_option h (dec v)"
  shows "dec_map dec' (JObj (map (\<lambda>(k, v). (k, g v)) m)) = map_option (map (\<lambda>(k, x). (k, h x))) (dec_map dec (JObj m))"
  unfolding dec_map.simps list.map_comp
  by (rule those_map_cong) (auto simp: assms option.map_comp comp_def)

text \<open>
  A readable flat price table means the nested one with every price as the default of its model
  and no tenant prices: both are read to the same table.
\<close>

theorem flat_pricing_equivalent:
  assumes "''models'' \<notin> fst ` set flat" and "dec_map dec_price_entry (JObj flat) = Some prices"
  shows "dec_pricing (JObj flat) =
      Some \<lparr>pr_models = map (\<lambda>(model, price). (model, \<lparr>mp_default = price, mp_tenants = []\<rparr>)) prices\<rparr> \<and>
    dec_pricing (JObj [(''models'', JObj (map (\<lambda>(model, price). (model, JObj [(''default'', price)])) flat))]) =
      dec_pricing (JObj flat)"
proof -
  let ?nested = "JObj (map (\<lambda>(model, price). (model, JObj [(''default'', price)])) flat)"
  have "map_of flat ''models'' = None" using assms(1) by (simp add: map_of_eq_None_iff)
  then have flat: "dec_pricing (JObj flat) = dec_pricing_v1 (JObj flat)"
    by (simp add: dec_pricing_def dec_pricing_v2_def struct_map_def req_field_def)
  have entry: "dec_model_pricing (JObj [(''default'', v)]) = map_option (\<lambda>p. \<lparr>mp_default = p, mp_tenants = []\<rparr>) (dec_price_entry v)" for v
    by (cases "dec_price_entry v") (simp_all add: dec_model_pricing_def struct_map_def default_field_def)
  have "dec_map dec_model_pricing ?nested = Some (map (\<lambda>(k, p). (k, \<lparr>mp_default = p, mp_tenants = []\<rparr>)) prices)"
    using dec_map_comp [where dec = dec_price_entry and dec' = dec_model_pricing and g = "\<lambda>v. JObj [(''default'', v)]"
        and h = "\<lambda>p. \<lparr>mp_default = p, mp_tenants = []\<rparr>" and m = flat, OF entry] assms(2)
    by simp
  then have "dec_pricing (JObj [(''models'', ?nested)]) =
      Some \<lparr>pr_models = map (\<lambda>(k, p). (k, \<lparr>mp_default = p, mp_tenants = []\<rparr>)) prices\<rparr>"
    by (simp add: dec_pricing_def dec_pricing_v2_def struct_map_def req_field_def del: dec_map.simps)
  then show ?thesis
    unfolding flat by (simp add: dec_pricing_v1_def assms(2) del: dec_map.simps)
qed

theorem flat_pricing_equivalent_witness:
  "dec_pricing (JObj [(''models'', JObj [(''gpt'', JObj [(''default'', JObj [(''prompt'', JInt 2)])])])]) =
   dec_pricing (JObj [(''gpt'', JObj [(''prompt'', JInt 2)])])"
  using flat_pricing_equivalent [of "[(''gpt'', JObj [(''prompt'', JInt 2)])]" "[(''gpt'', \<lparr>pe_prompt = 2, pe_completion = 0\<rparr>)]"]
  by (simp add: dec_price_entry_def struct_map_def default_field_def)

text \<open>
  A nested table that is not readable as such is not refused. It is read as the flat shape with
  one model of the name \<open>models\<close> whose price is zero, so every model becomes unpriced.
\<close>

theorem malformed_pricing_accepted:
  assumes "dec_map dec_model_pricing (JObj ms) = None"
    and "''prompt'' \<notin> fst ` set ms" and "''completion'' \<notin> fst ` set ms"
  shows "\<exists>pc. dec_pricing (JObj [(''models'', JObj ms)]) = Some pc \<and>
    (\<forall>model tenant pt ct. cost_usd pc model tenant pt ct = None)"
proof -
  have "map_of ms ''prompt'' = None" "map_of ms ''completion'' = None"
    using assms(2,3) by (simp_all add: map_of_eq_None_iff)
  then have "dec_pricing (JObj [(''models'', JObj ms)]) =
      Some \<lparr>pr_models = [(''models'', \<lparr>mp_default = zero_price, mp_tenants = []\<rparr>)]\<rparr>"
    using assms(1)
    by (simp add: dec_pricing_def dec_pricing_v2_def dec_pricing_v1_def struct_map_def req_field_def
        dec_price_entry_def default_field_def zero_price_def)
  then show ?thesis
    by (auto simp: cost_usd_def price_lookup_def zero_price_def split: option.split)
qed

theorem malformed_pricing_accepted_witness:
  "\<exists>pc. dec_pricing (JObj [(''models'', JObj [(''gpt'', JObj [(''default'', JObj [(''prompt'', JStr ''2'')])])])]) = Some pc \<and>
    (\<forall>model tenant pt ct. cost_usd pc model tenant pt ct = None)"
  by (rule malformed_pricing_accepted)
    (simp_all add: dec_model_pricing_def dec_price_entry_def struct_map_def default_field_def)

end
