(* ===== verification/Client_Auth.thy ===== *)
theory Client_Auth
  imports App_Error
begin

text \<open>
  Client authentication: the key store with its run-time operations (\<open>auth_store.rs\<close>), the bearer
  middleware in front of the API (\<open>auth/mod.rs\<close>) and the address guard in front of the dashboard
  (\<open>server/middleware.rs\<close>). A middleware yields either its own response or what it adds to the request
  before the next layer runs. The store is keyed by the raw client key; administration goes by the
  key's hash. The digest is a parameter, the wall clock in milliseconds an argument.
\<close>

section \<open>Key hashes\<close>

definition hex_digit :: "nat \<Rightarrow> char" where
  "hex_digit n = (if n < 10 then char_of (48 + n) else char_of (87 + n))"

definition hex_byte :: "nat \<Rightarrow> string" where
  "hex_byte b = [hex_digit (b div 16), hex_digit (b mod 16)]"

text \<open>\<open>digest\<close> maps a byte string to the bytes of its SHA-256 digest.\<close>

definition compute_key_hash :: "(string \<Rightarrow> nat list) \<Rightarrow> string \<Rightarrow> string" where
  "compute_key_hash digest key = concat (map hex_byte (take 6 (digest key)))"

section \<open>The store\<close>

record client_key_entry =
  ck_key :: string
  ck_tenant_id :: string

record client_key_record =
  cr_key :: string
  cr_tenant_id :: string
  cr_key_hash :: string
  cr_created_at :: int
  cr_enabled :: bool
  cr_label :: string

definition record_of_entry :: "(string \<Rightarrow> string) \<Rightarrow> int \<Rightarrow> client_key_entry \<Rightarrow> client_key_record" where
  "record_of_entry H now e =
     \<lparr>cr_key = ck_key e, cr_tenant_id = ck_tenant_id e, cr_key_hash = H (ck_key e), cr_created_at = now,
      cr_enabled = True, cr_label = []\<rparr>"

record client_key_public =
  cp_tenant_id :: string
  cp_key_hash :: string
  cp_created_at :: int
  cp_enabled :: bool
  cp_label :: string

definition public_of_record :: "client_key_record \<Rightarrow> client_key_public" where
  "public_of_record r =
     \<lparr>cp_tenant_id = cr_tenant_id r, cp_key_hash = cr_key_hash r, cp_created_at = cr_created_at r,
      cp_enabled = cr_enabled r, cp_label = cr_label r\<rparr>"

record create_key_request =
  cq_key :: string
  cq_tenant_id :: string
  cq_label :: string

record update_key_request =
  uq_enabled :: "bool option"
  uq_label :: "string option"
  uq_tenant_id :: "string option"

type_synonym auth_store = "(string, client_key_record) dmap"

definition auth_store_new :: "(string \<Rightarrow> string) \<Rightarrow> int \<Rightarrow> client_key_entry list \<Rightarrow> auth_store" where
  "auth_store_new H now initial =
     fold (\<lambda>entry keys. let r = record_of_entry H now entry in dm_insert (cr_key r) r keys) initial []"

definition auth_validate :: "auth_store \<Rightarrow> string \<Rightarrow> client_key_entry option" where
  "auth_validate keys raw_key =
     Option.bind (dm_get keys raw_key) (\<lambda>r.
       if cr_enabled r then Some \<lparr>ck_key = cr_key r, ck_tenant_id = cr_tenant_id r\<rparr> else None)"

definition auth_add ::
  "(string \<Rightarrow> string) \<Rightarrow> int \<Rightarrow> create_key_request \<Rightarrow> auth_store \<Rightarrow> client_key_record result \<times> auth_store" where
  "auth_add H now req keys =
     (if cq_key req = [] then (Inl (BadRequest ''key must not be empty''), keys)
      else if dm_get keys (cq_key req) \<noteq> None then (Inl (BadRequest ''key already exists''), keys)
      else
        let r = (record_of_entry H now \<lparr>ck_key = cq_key req, ck_tenant_id = cq_tenant_id req\<rparr>)\<lparr>cr_label := cq_label req\<rparr>
        in (Inr r, dm_insert (cq_key req) r keys))"

text \<open>The iterator search by hash that update, rotation and removal begin with.\<close>

definition find_key :: "auth_store \<Rightarrow> string \<Rightarrow> string option" where
  "find_key keys key_hash = map_option fst (find (\<lambda>(_, r). cr_key_hash r = key_hash) keys)"

definition key_not_found :: "string \<Rightarrow> app_error" where
  "key_not_found key_hash = NotFound (''key '' @ [CHR 0x27] @ key_hash @ [CHR 0x27] @ '' not found'')"

definition apply_update :: "update_key_request \<Rightarrow> client_key_record \<Rightarrow> client_key_record" where
  "apply_update req r =
     (let r = (case uq_enabled req of Some e \<Rightarrow> r\<lparr>cr_enabled := e\<rparr> | None \<Rightarrow> r);
          r = (case uq_label req of Some l \<Rightarrow> r\<lparr>cr_label := l\<rparr> | None \<Rightarrow> r)
      in case uq_tenant_id req of
           Some t \<Rightarrow> if t \<noteq> [] then r\<lparr>cr_tenant_id := t\<rparr> else r
         | None \<Rightarrow> r)"

definition auth_update ::
  "string \<Rightarrow> update_key_request \<Rightarrow> auth_store \<Rightarrow> client_key_record result \<times> auth_store" where
  "auth_update key_hash req keys =
     (case find_key keys key_hash of
        None \<Rightarrow> (Inl (key_not_found key_hash), keys)
      | Some raw_key \<Rightarrow>
          (case dm_get keys raw_key of
             None \<Rightarrow> (Inl (key_not_found key_hash), keys)
           | Some r \<Rightarrow> let r = apply_update req r in (Inr r, dm_insert raw_key r keys)))"

definition auth_rotate ::
  "(string \<Rightarrow> string) \<Rightarrow> int \<Rightarrow> string \<Rightarrow> string \<Rightarrow> auth_store \<Rightarrow> client_key_record result \<times> auth_store" where
  "auth_rotate H now key_hash new_key keys =
     (case find_key keys key_hash of
        None \<Rightarrow> (Inl (key_not_found key_hash), keys)
      | Some old_key \<Rightarrow>
          if dm_get keys new_key \<noteq> None then (Inl (BadRequest ''new key already exists in the store''), keys)
          else
            (case dm_get keys old_key of
               None \<Rightarrow> (Inl (key_not_found key_hash), keys)
             | Some old \<Rightarrow>
                 let keys = dm_remove old_key keys;
                     r = old\<lparr>cr_key := new_key, cr_key_hash := H new_key, cr_created_at := now\<rparr>
                 in (Inr r, dm_insert new_key r keys)))"

definition auth_remove :: "string \<Rightarrow> auth_store \<Rightarrow> client_key_record result \<times> auth_store" where
  "auth_remove key_hash keys =
     (case find_key keys key_hash of
        None \<Rightarrow> (Inl (key_not_found key_hash), keys)
      | Some k \<Rightarrow>
          (case dm_get keys k of
             None \<Rightarrow> (Inl (key_not_found key_hash), keys)
           | Some r \<Rightarrow> (Inr r, dm_remove k keys)))"

text \<open>\<open>sort_by_key(Reverse(created_at))\<close> is stable: newest first, equal times in the iterator's order.\<close>

definition auth_list :: "auth_store \<Rightarrow> client_key_record list" where
  "auth_list keys = sort_key (\<lambda>r. - cr_created_at r) (map snd keys)"

definition get_by_hash :: "auth_store \<Rightarrow> string \<Rightarrow> client_key_record option" where
  "get_by_hash keys key_hash = map_option snd (find (\<lambda>(_, r). cr_key_hash r = key_hash) keys)"

section \<open>The middlewares\<close>

text \<open>\<open>HeaderValue::to_str\<close> accepts visible ASCII, space and tab.\<close>

definition header_to_str :: "string \<Rightarrow> string option" where
  "header_to_str v = (if list_all (\<lambda>c. c = CHR 0x09 \<or> 32 \<le> (of_char c :: nat) \<and> (of_char c :: nat) < 127) v then Some v else None)"

definition bearer :: "string option \<Rightarrow> string option" where
  "bearer h = Option.bind (Option.bind h header_to_str) (strip_prefix ''Bearer '')"

record authed_client =
  ac_key_hash :: string
  ac_tenant_id :: string

record auth_state =
  as_entries :: "client_key_entry list"
  as_store :: "auth_store option"

definition auth_failure :: error_response where
  "auth_failure = into_response (Auth ''Invalid or missing API key'')"

definition require_auth ::
  "(string \<Rightarrow> string) \<Rightarrow> auth_state \<Rightarrow> string option \<Rightarrow> error_response + authed_client" where
  "require_auth H st authorization =
     (let auth_header = bearer authorization;
          entry = (case auth_header of
              None \<Rightarrow> None
            | Some key \<Rightarrow>
                (case as_store st of
                   Some store \<Rightarrow> auth_validate store key
                 | None \<Rightarrow> find (\<lambda>e. ck_key e = key) (as_entries st)))
      in case entry of
           Some e \<Rightarrow> Inr \<lparr>ac_key_hash = H (case auth_header of Some key \<Rightarrow> key | None \<Rightarrow> []), ac_tenant_id = ck_tenant_id e\<rparr>
         | None \<Rightarrow> Inl auth_failure)"

definition auth_store_middleware ::
  "(string \<Rightarrow> string) \<Rightarrow> auth_store \<Rightarrow> string option \<Rightarrow> error_response + authed_client" where
  "auth_store_middleware H store authorization =
     (case bearer authorization of
        Some key \<Rightarrow>
          (case auth_validate store key of
             Some e \<Rightarrow> Inr \<lparr>ac_key_hash = H key, ac_tenant_id = ck_tenant_id e\<rparr>
           | None \<Rightarrow> Inl auth_failure)
      | None \<Rightarrow> Inl auth_failure)"

text \<open>Whether the dashboard request goes on; otherwise it is answered 404 with an empty body.\<close>

definition ip_guard :: "string option \<Rightarrow> string option \<Rightarrow> string list \<Rightarrow> bool" where
  "ip_guard x_real_ip x_forwarded_for allowed_ips =
     (case Option.bind (case x_real_ip of Some v \<Rightarrow> Some v | None \<Rightarrow> x_forwarded_for) header_to_str of
        Some ip \<Rightarrow> list_ex (\<lambda>a. a = ip) allowed_ips
      | None \<Rightarrow> True)"

section \<open>The store's invariant\<close>

definition store_inv :: "(string \<Rightarrow> string) \<Rightarrow> auth_store \<Rightarrow> bool" where
  "store_inv H keys = (dm_wf keys \<and> list_all (\<lambda>(k, r). cr_key r = k \<and> cr_key_hash r = H k) keys)"

datatype store_op =
    Add int create_key_request
  | Update string update_key_request
  | Rotate int string string
  | Remove string

fun store_exec :: "(string \<Rightarrow> string) \<Rightarrow> store_op \<Rightarrow> auth_store \<Rightarrow> auth_store" where
  "store_exec H (Add now req) keys = snd (auth_add H now req keys)"
| "store_exec H (Update h req) keys = snd (auth_update h req keys)"
| "store_exec H (Rotate now h new_key) keys = snd (auth_rotate H now h new_key keys)"
| "store_exec H (Remove h) keys = snd (auth_remove h keys)"

lemma dm_entries_insert:
  "list_all P m \<Longrightarrow> P (k, v) \<Longrightarrow> list_all P (dm_insert k v m)"
  unfolding dm_insert_def by (induction m) auto

lemma dm_entries_remove: "list_all P m \<Longrightarrow> list_all P (dm_remove k m)"
  unfolding dm_remove_def by (induction m) auto

lemma store_inv_get: "store_inv H keys \<Longrightarrow> dm_get keys k = Some r \<Longrightarrow> cr_key r = k \<and> cr_key_hash r = H k"
  by (auto simp: store_inv_def list_all_iff dest: map_of_SomeD)

lemma store_inv_insert:
  "store_inv H keys \<Longrightarrow> cr_key r = k \<Longrightarrow> cr_key_hash r = H k \<Longrightarrow> store_inv H (dm_insert k r keys)"
  by (simp add: store_inv_def dm_entries_insert)

lemma store_inv_remove: "store_inv H keys \<Longrightarrow> store_inv H (dm_remove k keys)"
  by (simp add: store_inv_def dm_entries_remove)

lemma record_of_entry_keys [simp]:
  "cr_key (record_of_entry H now e) = ck_key e" "cr_key_hash (record_of_entry H now e) = H (ck_key e)"
  "cr_enabled (record_of_entry H now e)" "cr_tenant_id (record_of_entry H now e) = ck_tenant_id e"
  by (simp_all add: record_of_entry_def)

lemma apply_update_keys [simp]:
  "cr_key (apply_update req r) = cr_key r" "cr_key_hash (apply_update req r) = cr_key_hash r"
  by (simp_all add: apply_update_def Let_def split: option.split)

lemma store_inv_new: "store_inv H (auth_store_new H now initial)"
proof -
  have "store_inv H keys \<Longrightarrow> store_inv H (fold (\<lambda>entry keys. let r = record_of_entry H now entry in dm_insert (cr_key r) r keys) initial keys)"
    for keys
    by (induction initial arbitrary: keys) (simp_all add: Let_def store_inv_insert)
  moreover have "store_inv H []" by (simp add: store_inv_def)
  ultimately show ?thesis by (simp add: auth_store_new_def)
qed

interpretation store: machine "store_exec H" "store_inv H" for H
proof
  fix op s
  assume inv: "store_inv H s"
  show "store_inv H (store_exec H op s)"
    by (cases op) (auto simp: inv auth_add_def auth_update_def auth_rotate_def auth_remove_def Let_def
        store_inv_insert store_inv_remove store_inv_get [OF inv] split: option.split)
qed

section \<open>What the store implements\<close>

text \<open>To its clients the store is a map from raw keys to tenant and enabledness; the administrator's
  operations act on the key whose hash is given.\<close>

type_synonym key_map = "string \<rightharpoonup> string \<times> bool"

definition key_view :: "client_key_record \<Rightarrow> string \<times> bool" where
  "key_view r = (cr_tenant_id r, cr_enabled r)"

definition store_abs :: "auth_store \<Rightarrow> key_map" where
  "store_abs keys k = map_option key_view (dm_get keys k)"

definition spec_update :: "update_key_request \<Rightarrow> string \<times> bool \<Rightarrow> string \<times> bool" where
  "spec_update req v =
     (if uq_tenant_id req \<in> {None, Some []} then fst v else the (uq_tenant_id req),
      if uq_enabled req = None then snd v else the (uq_enabled req))"

definition hash_injective :: "(string \<Rightarrow> string) \<Rightarrow> auth_store \<Rightarrow> bool" where
  "hash_injective H keys = inj_on H (fst ` set keys)"

lemma find_SomeD: "find P xs = Some x \<Longrightarrow> x \<in> set xs \<and> P x"
  by (induction xs) (auto split: if_splits)

lemma find_key_eq:
  assumes "store_inv H keys" and "hash_injective H keys" and "dm_get keys k = Some r"
  shows "find_key keys (H k) = Some k"
proof -
  have "(k, r) \<in> set keys" using assms(3) by (rule map_of_SomeD)
  moreover have hash: "\<And>k r. (k, r) \<in> set keys \<Longrightarrow> cr_key_hash r = H k"
    using assms(1) by (auto simp: store_inv_def list_all_iff)
  ultimately obtain k' r' where f: "find (\<lambda>(_, r). cr_key_hash r = H k) keys = Some (k', r')"
    by (cases "find (\<lambda>(_, r). cr_key_hash r = H k) keys") (auto simp: find_None_iff)
  then have "(k', r') \<in> set keys" and h: "cr_key_hash r' = H k" by (auto dest: find_SomeD)
  then have "k' = k"
    using hash [of k' r'] \<open>(k, r) \<in> set keys\<close> assms(2) by (force simp: hash_injective_def inj_on_def)
  with f show ?thesis by (simp add: find_key_def)
qed

lemma find_key_None:
  assumes "store_inv H keys" and "h \<notin> H ` (fst ` set keys)"
  shows "find_key keys h = None"
proof -
  have "cr_key_hash r \<noteq> h" if kr: "(k, r) \<in> set keys" for k r
  proof -
    have "cr_key_hash r = H k" using assms(1) kr by (auto simp: store_inv_def list_all_iff)
    moreover have "H k \<in> H ` (fst ` set keys)" using kr by force
    ultimately show ?thesis using assms(2) by auto
  qed
  then show ?thesis by (auto simp: find_key_def find_None_iff)
qed

lemma key_view_update: "key_view (apply_update req r) = spec_update req (key_view r)"
  by (auto simp: key_view_def apply_update_def spec_update_def Let_def split: option.split)


definition sample_store :: auth_store where
  "sample_store = auth_store_new (\<lambda>k. k) 0 [\<lparr>ck_key = ''a'', ck_tenant_id = ''t''\<rparr>, \<lparr>ck_key = ''b'', ck_tenant_id = ''u''\<rparr>]"


section \<open>Authentication over a run\<close>

lemma require_auth_store:
  "require_auth H \<lparr>as_entries = es, as_store = Some keys\<rparr> authorization = auth_store_middleware H keys authorization"
  by (auto simp: require_auth_def auth_store_middleware_def Let_def split: option.split)

lemma auth_store_middleware_iff:
  assumes "store_inv H keys"
  shows "auth_store_middleware H keys authorization = Inr c \<longleftrightarrow>
    (\<exists>k. bearer authorization = Some k \<and> store_abs keys k = Some (ac_tenant_id c, True) \<and> ac_key_hash c = H k)"
  by (cases c) (auto simp: auth_store_middleware_def auth_validate_def store_abs_def key_view_def bind_eq_Some_conv
      split: option.splits if_splits)

text \<open>Operations that can bring a key in: adding it or rotating some key to it.\<close>

fun brings :: "string \<Rightarrow> store_op \<Rightarrow> bool" where
  "brings k (Add _ req) = (cq_key req = k)"
| "brings k (Rotate _ _ new_key) = (new_key = k)"
| "brings k _ = False"

lemma exec_absent:
  assumes "dm_get keys k = None" and "\<not> brings k op"
  shows "dm_get (store_exec H op keys) k = None"
  using assms
  by (cases op) (auto simp: auth_add_def auth_update_def auth_rotate_def auth_remove_def Let_def split: option.split)

text \<open>
  C2. Revocation is final. Once the key addressed by a hash is removed or rotated away, every
  request that presents it is answered with 401, whatever operations follow, until an operation
  brings that very key in again.
\<close>

theorem revoked_key_refused:
  assumes inv: "store_inv H keys" and inj: "hash_injective H keys" and known: "dm_get keys k = Some r"
    and revoke: "keys' = snd (auth_remove (H k) keys) \<or>
      dm_get keys k' = None \<and> keys' = snd (auth_rotate H now (H k) k' keys)"
    and later: "\<not> list_ex (brings k) ops"
    and header: "bearer authorization = Some k"
  shows "require_auth H \<lparr>as_entries = es, as_store = Some (fold (store_exec H) ops keys')\<rparr> authorization = Inl auth_failure \<and>
    er_status auth_failure = 401"
proof -
  note find = find_key_eq [OF inv inj known]
  have "keys' = store_exec H (Remove (H k)) keys \<or> keys' = store_exec H (Rotate now (H k) k') keys"
    using revoke by auto
  then have inv': "store_inv H keys'" using store.exec_inv [OF inv] by blast
  have "dm_get keys' k = None"
    using revoke known by (auto simp: auth_remove_def auth_rotate_def find Let_def)
  then have "dm_get (fold (store_exec H) ops keys') k = None"
    using later
    by (intro store.run_preserves [OF inv', where P = "\<lambda>s. dm_get s k = None"]) (auto simp: list_ex_iff exec_absent)
  then have "require_auth H \<lparr>as_entries = es, as_store = Some (fold (store_exec H) ops keys')\<rparr> authorization = Inl auth_failure"
    by (simp add: require_auth_store auth_store_middleware_def header auth_validate_def)
  then show ?thesis by (simp add: auth_failure_def into_response_def)
qed

theorem revoked_key_refused_witness:
  "require_auth (\<lambda>k. k) \<lparr>as_entries = [], as_store =
      Some (fold (store_exec (\<lambda>k. k)) [Update ''b'' \<lparr>uq_enabled = Some True, uq_label = None, uq_tenant_id = None\<rparr>]
        (snd (auth_remove ''a'' sample_store)))\<rparr> (Some ''Bearer a'') = Inl auth_failure"
proof -
  have inv: "store_inv (\<lambda>k. k) sample_store" unfolding sample_store_def by (rule store_inv_new)
  have inj: "hash_injective (\<lambda>k. k) sample_store" by (simp add: hash_injective_def)
  have get: "dm_get sample_store ''a'' = Some (record_of_entry (\<lambda>k. k) 0 \<lparr>ck_key = ''a'', ck_tenant_id = ''t''\<rparr>)"
    by (simp add: sample_store_def auth_store_new_def Let_def)
  have "bearer (Some ''Bearer a'') = Some ''a''" by (simp add: bearer_def header_to_str_def strip_prefix_def)
  then show ?thesis
    using revoked_key_refused [OF inv inj get, where keys' = "snd (auth_remove ''a'' sample_store)" and
        ops = "[Update ''b'' \<lparr>uq_enabled = Some True, uq_label = None, uq_tenant_id = None\<rparr>]"]
    by simp
qed

end
