(* ===== verification/Gateway_Config.thy ===== *)
theory Gateway_Config
  imports Pricing Client_Auth Bad_Keys
begin

text \<open>
  The startup configuration (\<open>config/mod.rs\<close>): its records with the derived readers and defaults,
  the routing entries with their export form, the layered display metadata of a model, and the
  validation. A document is the tree that YAML text denotes, each scalar taken at the type its
  field asks for; the text parser is a library and a parameter of \<open>load\<close>.
\<close>

section \<open>Readers\<close>

definition dec_u16 :: "json \<Rightarrow> u16 option" where
  "dec_u16 v = map_option word_of_int (dec_uint 16 v)"

definition dec_usize :: "json \<Rightarrow> nat option" where
  "dec_usize v = map_option nat (dec_uint 64 v)"

fun dec_i32 :: "json \<Rightarrow> int option" where
  "dec_i32 (JInt i) = (if - (2 ^ 31) \<le> i \<and> i < 2 ^ 31 then Some i else None)"
| "dec_i32 _ = None"

section \<open>Server, clients, failover\<close>

record server_config =
  sv_host :: string
  sv_port :: u16
  sv_max_body_bytes :: nat

definition dec_server :: "json \<Rightarrow> server_config option" where
  "dec_server v =
     Option.bind (struct_map [(''host'', False), (''port'', False), (''max_body_bytes'', True)] v) (\<lambda>m.
     Option.bind (req_field as_str m ''host'') (\<lambda>host.
     Option.bind (req_field dec_u16 m ''port'') (\<lambda>port.
     Option.bind (default_field 1073741824 dec_usize m ''max_body_bytes'') (\<lambda>b.
     Some \<lparr>sv_host = host, sv_port = port, sv_max_body_bytes = b\<rparr>))))"

definition dec_client_key :: "json \<Rightarrow> client_key_entry option" where
  "dec_client_key v =
     Option.bind (struct_map [(''key'', False), (''tenant_id'', True)] v) (\<lambda>m.
     Option.bind (req_field as_str m ''key'') (\<lambda>k.
     Option.bind (default_field ''default'' as_str m ''tenant_id'') (\<lambda>t.
     Some \<lparr>ck_key = k, ck_tenant_id = t\<rparr>)))"

definition dec_auth :: "json \<Rightarrow> client_key_entry list option" where
  "dec_auth v = Option.bind (struct_map [(''client_keys'', False)] v) (\<lambda>m. req_field (dec_list dec_client_key) m ''client_keys'')"

definition dec_db :: "json \<Rightarrow> string option" where
  "dec_db v = Option.bind (struct_map [(''path'', False)] v) (\<lambda>m. req_field as_str m ''path'')"

record failover_config =
  fo_enabled :: bool
  fo_bad_status_codes :: "u16 list"
  fo_max_retries :: u32
  fo_probe_interval_secs :: u64
  fo_probe_timeout_secs :: u64
  fo_max_probe_retries :: u32

definition failover_default :: failover_config where
  "failover_default =
     \<lparr>fo_enabled = True, fo_bad_status_codes = [401, 402, 403, 429], fo_max_retries = 1,
      fo_probe_interval_secs = 60, fo_probe_timeout_secs = 10, fo_max_probe_retries = 3\<rparr>"

definition dec_failover :: "json \<Rightarrow> failover_config option" where
  "dec_failover v =
     Option.bind (struct_map [(''enabled'', True), (''bad_status_codes'', True), (''max_retries'', True),
       (''probe_interval_secs'', True), (''probe_timeout_secs'', True), (''max_probe_retries'', True)] v) (\<lambda>m.
     Option.bind (default_field True as_bool m ''enabled'') (\<lambda>e.
     Option.bind (default_field [401, 402, 403, 429] (dec_list dec_u16) m ''bad_status_codes'') (\<lambda>b.
     Option.bind (default_field 1 dec_u32 m ''max_retries'') (\<lambda>r.
     Option.bind (default_field 60 dec_u64 m ''probe_interval_secs'') (\<lambda>i.
     Option.bind (default_field 10 dec_u64 m ''probe_timeout_secs'') (\<lambda>t.
     Option.bind (default_field 3 dec_u32 m ''max_probe_retries'') (\<lambda>p.
     Some \<lparr>fo_enabled = e, fo_bad_status_codes = b, fo_max_retries = r, fo_probe_interval_secs = i,
       fo_probe_timeout_secs = t, fo_max_probe_retries = p\<rparr>)))))))"

section \<open>Pools, providers, registry\<close>

definition dec_cred_type :: "json \<Rightarrow> credential_type option" where
  "dec_cred_type v = Option.bind (as_str v) (\<lambda>s.
     if s = ''api_key'' then Some ApiKey else if s = ''oauth'' then Some Oauth else None)"

definition dec_key_entry :: "json \<Rightarrow> key_entry option" where
  "dec_key_entry v =
     Option.bind (struct_map [(''key'', True), (''weight'', True), (''type'', True), (''refresh'', True),
       (''expires'', True), (''issuer'', True)] v) (\<lambda>m.
     Option.bind (default_field [] as_str m ''key'') (\<lambda>k.
     Option.bind (default_field 0 dec_u32 m ''weight'') (\<lambda>w.
     Option.bind (default_field ApiKey dec_cred_type m ''type'') (\<lambda>t.
     Option.bind (opt_field as_str m ''refresh'') (\<lambda>r.
     Option.bind (opt_field as_i64 m ''expires'') (\<lambda>e.
     Option.bind (opt_field as_str m ''issuer'') (\<lambda>i.
     Some \<lparr>ke_key = k, ke_weight = w, ke_cred_type = t, ke_refresh = r, ke_expires = e, ke_issuer = i,
       ke_identity = None\<rparr>)))))))"

definition dec_pool :: "json \<Rightarrow> pool_config option" where
  "dec_pool v = Option.bind (struct_map [(''keys'', False)] v) (\<lambda>m.
     Option.bind (req_field (dec_list dec_key_entry) m ''keys'') (\<lambda>ks. Some \<lparr>pc_keys = ks\<rparr>))"

datatype provider_kind = OpenAi | Anthropic | Gemini

definition dec_provider_kind :: "json \<Rightarrow> provider_kind option" where
  "dec_provider_kind v = Option.bind (as_str v) (\<lambda>s.
     if s = ''openai'' \<or> s = ''open_ai'' then Some OpenAi
     else if s = ''anthropic'' then Some Anthropic
     else if s = ''gemini'' then Some Gemini else None)"

record provider_config =
  pv_id :: string
  pv_pool_id :: string
  pv_base_url :: string
  pv_kind :: provider_kind
  pv_metadata :: json

definition dec_provider :: "json \<Rightarrow> provider_config option" where
  "dec_provider v =
     Option.bind (struct_map [(''id'', False), (''pool_id'', False), (''base_url'', False), (''kind'', True),
       (''metadata'', True)] v) (\<lambda>m.
     Option.bind (req_field as_str m ''id'') (\<lambda>i.
     Option.bind (req_field as_str m ''pool_id'') (\<lambda>p.
     Option.bind (req_field as_str m ''base_url'') (\<lambda>u.
     Option.bind (default_field OpenAi dec_provider_kind m ''kind'') (\<lambda>k.
     Option.bind (default_field JNull Some m ''metadata'') (\<lambda>x.
     Some \<lparr>pv_id = i, pv_pool_id = p, pv_base_url = u, pv_kind = k, pv_metadata = x\<rparr>))))))"

record registry_config =
  rc_id :: string
  rc_display_name :: string
  rc_provider_kind :: string
  rc_provider_config_id :: "string option"
  rc_supports_vision :: bool
  rc_supports_tool_calling :: bool
  rc_supports_json_mode :: bool
  rc_max_context_tokens :: int
  rc_max_output_tokens :: int
  rc_input_price :: "rat option"
  rc_output_price :: "rat option"
  rc_capabilities_json :: json
  rc_enabled :: bool

definition registry_fields :: fields where
  "registry_fields = [(''id'', False), (''display_name'', False), (''provider_kind'', False),
     (''provider_config_id'', True), (''supports_vision'', True), (''supports_tool_calling'', True),
     (''supports_json_mode'', True), (''max_context_tokens'', True), (''max_output_tokens'', True),
     (''input_price_per_1m'', True), (''output_price_per_1m'', True), (''capabilities_json'', True),
     (''enabled'', True)]"

definition dec_registry :: "json \<Rightarrow> registry_config option" where
  "dec_registry v =
     Option.bind (struct_map registry_fields v) (\<lambda>m.
     Option.bind (req_field as_str m ''id'') (\<lambda>i.
     Option.bind (req_field as_str m ''display_name'') (\<lambda>d.
     Option.bind (req_field as_str m ''provider_kind'') (\<lambda>k.
     Option.bind (opt_field as_str m ''provider_config_id'') (\<lambda>p.
     Option.bind (default_field False as_bool m ''supports_vision'') (\<lambda>sv.
     Option.bind (default_field False as_bool m ''supports_tool_calling'') (\<lambda>st.
     Option.bind (default_field False as_bool m ''supports_json_mode'') (\<lambda>sj.
     Option.bind (default_field 4096 dec_i32 m ''max_context_tokens'') (\<lambda>c.
     Option.bind (default_field 4096 dec_i32 m ''max_output_tokens'') (\<lambda>out.
     Option.bind (opt_field as_f64 m ''input_price_per_1m'') (\<lambda>ip.
     Option.bind (opt_field as_f64 m ''output_price_per_1m'') (\<lambda>op.
     Option.bind (default_field JNull Some m ''capabilities_json'') (\<lambda>caps.
     Option.bind (default_field True as_bool m ''enabled'') (\<lambda>e.
     Some \<lparr>rc_id = i, rc_display_name = d, rc_provider_kind = k, rc_provider_config_id = p,
       rc_supports_vision = sv, rc_supports_tool_calling = st, rc_supports_json_mode = sj,
       rc_max_context_tokens = c, rc_max_output_tokens = out, rc_input_price = ip, rc_output_price = op,
       rc_capabilities_json = caps, rc_enabled = e\<rparr>))))))))))))))"

section \<open>Routing entries\<close>

datatype model_routing =
    Simple string
  | WithParams (wp_pool: string) (wp_default_params: json) (wp_upstream_model: "string option")

definition dec_routing :: "json \<Rightarrow> model_routing option" where
  "dec_routing v =
     (case as_str v of
        Some s \<Rightarrow> Some (Simple s)
      | None \<Rightarrow>
          Option.bind (struct_map [(''pool'', False), (''default_params'', True), (''upstream_model'', True)] v) (\<lambda>m.
          Option.bind (req_field as_str m ''pool'') (\<lambda>p.
          Option.bind (default_field JNull Some m ''default_params'') (\<lambda>d.
          Option.bind (opt_field as_str m ''upstream_model'') (\<lambda>u.
          Some (WithParams p d u))))))"

fun routing_pool_id :: "model_routing \<Rightarrow> string" where
  "routing_pool_id (Simple s) = s"
| "routing_pool_id (WithParams p _ _) = p"

fun routing_default_params :: "model_routing \<Rightarrow> json option" where
  "routing_default_params (Simple _) = None"
| "routing_default_params (WithParams _ d _) = (if is_object d then Some d else None)"

fun routing_upstream_model :: "model_routing \<Rightarrow> string option" where
  "routing_upstream_model (Simple _) = None"
| "routing_upstream_model (WithParams _ _ u) = nonempty (map_option trim u)"

fun to_export_value :: "model_routing \<Rightarrow> json" where
  "to_export_value (Simple pool) = JStr pool"
| "to_export_value (WithParams pool default_params upstream_model) =
     (let upstream = nonempty (map_option trim upstream_model);
          params = (if is_object default_params then Some default_params else None)
      in if upstream = None \<and> params = None then JStr pool
         else
           let object = obj_insert ''pool'' (JStr pool) [];
               object = (case params of Some p \<Rightarrow> obj_insert ''default_params'' p object | None \<Rightarrow> object);
               object = (case upstream of Some u \<Rightarrow> obj_insert ''upstream_model'' (JStr u) object | None \<Rightarrow> object)
           in JObj object)"

section \<open>Display metadata\<close>

record metadata_pricing_partial =
  mpp_input :: "rat option"
  mpp_output :: "rat option"
  mpp_cache_read :: "rat option"
  mpp_cache_write :: "rat option"

record metadata_partial =
  mdp_name :: "string option"
  mdp_context_window :: "u32 option"
  mdp_max_output_tokens :: "u32 option"
  mdp_input_types :: "string list option"
  mdp_reasoning :: "bool option"
  mdp_thinking_levels :: "string list option"
  mdp_supports_tools :: "bool option"
  mdp_supports_vision :: "bool option"
  mdp_pricing :: metadata_pricing_partial

definition pricing_partial_default :: metadata_pricing_partial where
  "pricing_partial_default = \<lparr>mpp_input = None, mpp_output = None, mpp_cache_read = None, mpp_cache_write = None\<rparr>"

definition metadata_partial_default :: metadata_partial where
  "metadata_partial_default =
     \<lparr>mdp_name = None, mdp_context_window = None, mdp_max_output_tokens = None, mdp_input_types = None,
      mdp_reasoning = None, mdp_thinking_levels = None, mdp_supports_tools = None, mdp_supports_vision = None,
      mdp_pricing = pricing_partial_default\<rparr>"

record metadata_config =
  mc_defaults :: metadata_partial
  mc_pools :: "(string, metadata_partial) dmap"
  mc_models :: "(string, metadata_partial) dmap"

definition metadata_config_default :: metadata_config where
  "metadata_config_default = \<lparr>mc_defaults = metadata_partial_default, mc_pools = [], mc_models = []\<rparr>"

definition dec_pricing_partial :: "json \<Rightarrow> metadata_pricing_partial option" where
  "dec_pricing_partial v =
     Option.bind (struct_map [(''input_usd_per_million_tokens'', False), (''output_usd_per_million_tokens'', False),
       (''cache_read_usd_per_million_tokens'', False), (''cache_write_usd_per_million_tokens'', False)] v) (\<lambda>m.
     Option.bind (opt_field as_f64 m ''input_usd_per_million_tokens'') (\<lambda>i.
     Option.bind (opt_field as_f64 m ''output_usd_per_million_tokens'') (\<lambda>out.
     Option.bind (opt_field as_f64 m ''cache_read_usd_per_million_tokens'') (\<lambda>r.
     Option.bind (opt_field as_f64 m ''cache_write_usd_per_million_tokens'') (\<lambda>w.
     Some \<lparr>mpp_input = i, mpp_output = out, mpp_cache_read = r, mpp_cache_write = w\<rparr>)))))"

definition dec_metadata_partial :: "json \<Rightarrow> metadata_partial option" where
  "dec_metadata_partial v =
     Option.bind (struct_map [(''name'', False), (''context_window'', False), (''max_output_tokens'', False),
       (''input_types'', False), (''reasoning'', False), (''thinking_levels'', False), (''supports_tools'', False),
       (''supports_vision'', False), (''pricing'', True)] v) (\<lambda>m.
     Option.bind (opt_field as_str m ''name'') (\<lambda>n.
     Option.bind (opt_field dec_u32 m ''context_window'') (\<lambda>c.
     Option.bind (opt_field dec_u32 m ''max_output_tokens'') (\<lambda>out.
     Option.bind (opt_field (dec_list as_str) m ''input_types'') (\<lambda>it.
     Option.bind (opt_field as_bool m ''reasoning'') (\<lambda>r.
     Option.bind (opt_field (dec_list as_str) m ''thinking_levels'') (\<lambda>tl.
     Option.bind (opt_field as_bool m ''supports_tools'') (\<lambda>st.
     Option.bind (opt_field as_bool m ''supports_vision'') (\<lambda>sv.
     Option.bind (default_field pricing_partial_default dec_pricing_partial m ''pricing'') (\<lambda>p.
     Some \<lparr>mdp_name = n, mdp_context_window = c, mdp_max_output_tokens = out, mdp_input_types = it,
       mdp_reasoning = r, mdp_thinking_levels = tl, mdp_supports_tools = st, mdp_supports_vision = sv,
       mdp_pricing = p\<rparr>))))))))))"

definition dec_metadata_config :: "json \<Rightarrow> metadata_config option" where
  "dec_metadata_config v =
     Option.bind (struct_map [(''defaults'', True), (''pools'', True), (''models'', True)] v) (\<lambda>m.
     Option.bind (default_field metadata_partial_default dec_metadata_partial m ''defaults'') (\<lambda>d.
     Option.bind (default_field [] (dec_map dec_metadata_partial) m ''pools'') (\<lambda>p.
     Option.bind (default_field [] (dec_map dec_metadata_partial) m ''models'') (\<lambda>ms.
     Some \<lparr>mc_defaults = d, mc_pools = p, mc_models = ms\<rparr>))))"

record metadata_pricing =
  mdr_input :: rat
  mdr_output :: rat
  mdr_cache_read :: rat
  mdr_cache_write :: rat

record model_metadata =
  md_name :: string
  md_context_window :: u32
  md_max_output_tokens :: u32
  md_input_types :: "string list"
  md_reasoning :: bool
  md_thinking_levels :: "string list"
  md_supports_tools :: bool
  md_supports_vision :: bool
  md_pricing :: metadata_pricing

definition metadata_builtin :: "string \<Rightarrow> model_metadata" where
  "metadata_builtin model =
     \<lparr>md_name = model, md_context_window = 128000, md_max_output_tokens = 16384, md_input_types = [''text''],
      md_reasoning = False, md_thinking_levels = [], md_supports_tools = False, md_supports_vision = False,
      md_pricing = \<lparr>mdr_input = 0, mdr_output = 0, mdr_cache_read = 0, mdr_cache_write = 0\<rparr>\<rparr>"

text \<open>\<open>if let Some(v) = x { out.f = v; }\<close>\<close>

definition over :: "'v option \<Rightarrow> ('v \<Rightarrow> 's \<Rightarrow> 's) \<Rightarrow> 's \<Rightarrow> 's" where
  "over x put s = (case x of Some v \<Rightarrow> put v s | None \<Rightarrow> s)"

definition overlay_pricing :: "metadata_pricing_partial \<Rightarrow> metadata_pricing \<Rightarrow> metadata_pricing" where
  "overlay_pricing p out =
     (let out = over (mpp_input p) (\<lambda>v s. s\<lparr>mdr_input := v\<rparr>) out;
          out = over (mpp_output p) (\<lambda>v s. s\<lparr>mdr_output := v\<rparr>) out;
          out = over (mpp_cache_read p) (\<lambda>v s. s\<lparr>mdr_cache_read := v\<rparr>) out
      in over (mpp_cache_write p) (\<lambda>v s. s\<lparr>mdr_cache_write := v\<rparr>) out)"

definition overlay :: "metadata_partial \<Rightarrow> model_metadata \<Rightarrow> model_metadata" where
  "overlay p out =
     (let out = over (mdp_name p) (\<lambda>v s. s\<lparr>md_name := v\<rparr>) out;
          out = over (mdp_context_window p) (\<lambda>v s. s\<lparr>md_context_window := v\<rparr>) out;
          out = over (mdp_max_output_tokens p) (\<lambda>v s. s\<lparr>md_max_output_tokens := v\<rparr>) out;
          out = over (mdp_input_types p) (\<lambda>v s. s\<lparr>md_input_types := v\<rparr>) out;
          out = over (mdp_reasoning p) (\<lambda>v s. s\<lparr>md_reasoning := v\<rparr>) out;
          out = over (mdp_thinking_levels p) (\<lambda>v s. s\<lparr>md_thinking_levels := v\<rparr>) out;
          out = over (mdp_supports_tools p) (\<lambda>v s. s\<lparr>md_supports_tools := v\<rparr>) out;
          out = over (mdp_supports_vision p) (\<lambda>v s. s\<lparr>md_supports_vision := v\<rparr>) out
      in out\<lparr>md_pricing := overlay_pricing (mdp_pricing p) (md_pricing out)\<rparr>)"

definition for_model :: "metadata_config \<Rightarrow> string \<Rightarrow> string \<Rightarrow> model_metadata" where
  "for_model mc model pool =
     (let pool_partial = dm_get_or (mc_pools mc) pool metadata_partial_default;
          model_partial = dm_get_or (mc_models mc) model metadata_partial_default
      in fold overlay [mc_defaults mc, pool_partial, model_partial] (metadata_builtin model))"

section \<open>Policies\<close>

record admin_config =
  ad_enabled :: bool
  ad_allowed_ips :: "string list"

definition admin_config_default :: admin_config where
  "admin_config_default = \<lparr>ad_enabled = False, ad_allowed_ips = []\<rparr>"

definition dec_admin :: "json \<Rightarrow> admin_config option" where
  "dec_admin v =
     Option.bind (struct_map [(''enabled'', True), (''allowed_ips'', True)] v) (\<lambda>m.
     Option.bind (default_field True as_bool m ''enabled'') (\<lambda>e.
     Option.bind (default_field [''127.0.0.1'', ''::1''] (dec_list as_str) m ''allowed_ips'') (\<lambda>ips.
     Some \<lparr>ad_enabled = e, ad_allowed_ips = ips\<rparr>)))"

record rate_limit_config =
  rt_enabled :: bool
  rt_requests_per_minute :: nat

definition rate_limit_default :: rate_limit_config where
  "rate_limit_default = \<lparr>rt_enabled = False, rt_requests_per_minute = 0\<rparr>"

definition dec_rate_limit :: "json \<Rightarrow> rate_limit_config option" where
  "dec_rate_limit v =
     Option.bind (struct_map [(''enabled'', True), (''requests_per_minute'', True)] v) (\<lambda>m.
     Option.bind (default_field True as_bool m ''enabled'') (\<lambda>e.
     Option.bind (default_field 60 dec_usize m ''requests_per_minute'') (\<lambda>n.
     Some \<lparr>rt_enabled = e, rt_requests_per_minute = n\<rparr>)))"

record concurrency_config =
  cn_max_per_tenant :: nat
  cn_total_max :: nat

definition concurrency_default :: concurrency_config where
  "concurrency_default = \<lparr>cn_max_per_tenant = 50, cn_total_max = 500\<rparr>"

definition dec_concurrency :: "json \<Rightarrow> concurrency_config option" where
  "dec_concurrency v =
     Option.bind (struct_map [(''max_per_tenant'', True), (''total_max'', True)] v) (\<lambda>m.
     Option.bind (default_field 50 dec_usize m ''max_per_tenant'') (\<lambda>t.
     Option.bind (default_field 500 dec_usize m ''total_max'') (\<lambda>n.
     Some \<lparr>cn_max_per_tenant = t, cn_total_max = n\<rparr>)))"

record channel_def =
  cd_enabled :: bool
  cd_url :: string

record channels_config =
  chn_webhook :: channel_def
  chn_slack :: channel_def
  chn_discord :: channel_def

record alert_config =
  al_enabled :: bool
  al_webhook_url :: string
  al_webhook_secret :: string
  al_min_error_burst :: u32
  al_min_latency_ms :: u64
  al_channels :: channels_config

definition channel_default :: channel_def where
  "channel_default = \<lparr>cd_enabled = False, cd_url = []\<rparr>"

definition channels_default :: channels_config where
  "channels_default = \<lparr>chn_webhook = channel_default, chn_slack = channel_default, chn_discord = channel_default\<rparr>"

definition alert_config_default :: alert_config where
  "alert_config_default =
     \<lparr>al_enabled = False, al_webhook_url = [], al_webhook_secret = [], al_min_error_burst = 0,
      al_min_latency_ms = 0, al_channels = channels_default\<rparr>"

definition dec_channel :: "json \<Rightarrow> channel_def option" where
  "dec_channel v =
     Option.bind (struct_map [(''enabled'', True), (''url'', True)] v) (\<lambda>m.
     Option.bind (default_field False as_bool m ''enabled'') (\<lambda>e.
     Option.bind (default_field [] as_str m ''url'') (\<lambda>u. Some \<lparr>cd_enabled = e, cd_url = u\<rparr>)))"

definition dec_channels :: "json \<Rightarrow> channels_config option" where
  "dec_channels v =
     Option.bind (struct_map [(''webhook'', True), (''slack'', True), (''discord'', True)] v) (\<lambda>m.
     Option.bind (default_field channel_default dec_channel m ''webhook'') (\<lambda>w.
     Option.bind (default_field channel_default dec_channel m ''slack'') (\<lambda>s.
     Option.bind (default_field channel_default dec_channel m ''discord'') (\<lambda>d.
     Some \<lparr>chn_webhook = w, chn_slack = s, chn_discord = d\<rparr>))))"

definition dec_alerts :: "json \<Rightarrow> alert_config option" where
  "dec_alerts v =
     Option.bind (struct_map [(''enabled'', True), (''webhook_url'', True), (''webhook_secret'', True),
       (''min_error_burst'', True), (''min_latency_ms'', True), (''channels'', True)] v) (\<lambda>m.
     Option.bind (default_field False as_bool m ''enabled'') (\<lambda>e.
     Option.bind (default_field [] as_str m ''webhook_url'') (\<lambda>u.
     Option.bind (default_field [] as_str m ''webhook_secret'') (\<lambda>s.
     Option.bind (default_field 3 dec_u32 m ''min_error_burst'') (\<lambda>b.
     Option.bind (default_field 30000 dec_u64 m ''min_latency_ms'') (\<lambda>l.
     Option.bind (default_field channels_default dec_channels m ''channels'') (\<lambda>c.
     Some \<lparr>al_enabled = e, al_webhook_url = u, al_webhook_secret = s, al_min_error_burst = b,
       al_min_latency_ms = l, al_channels = c\<rparr>)))))))"

record response_normalization =
  rn_strip_think_tags :: bool

definition dec_response_normalization :: "json \<Rightarrow> response_normalization option" where
  "dec_response_normalization v =
     Option.bind (struct_map [(''strip_think_tags'', True)] v) (\<lambda>m.
     Option.bind (default_field False as_bool m ''strip_think_tags'') (\<lambda>b. Some \<lparr>rn_strip_think_tags = b\<rparr>))"

section \<open>The document\<close>

record config =
  cf_server :: server_config
  cf_client_keys :: "client_key_entry list"
  cf_db_path :: string
  cf_failover :: failover_config
  cf_pools :: "(string, pool_config) dmap"
  cf_providers :: "provider_config list"
  cf_model_to_pool :: "(string, model_routing) dmap"
  cf_model_registry :: "registry_config list"
  cf_model_metadata :: metadata_config
  cf_admin :: admin_config
  cf_pricing :: pricing_config
  cf_rate_limit :: rate_limit_config
  cf_cache_max_entries :: nat
  cf_alerts :: alert_config
  cf_concurrency :: concurrency_config
  cf_response_normalization :: response_normalization

definition config_fields :: fields where
  "config_fields = [(''server'', False), (''auth'', False), (''db'', False), (''failover'', False),
     (''pools'', False), (''providers'', False), (''model_to_pool'', False), (''model_registry'', True),
     (''model_metadata'', True), (''admin'', True), (''pricing'', True), (''rate_limit'', True),
     (''cache_max_entries'', True), (''alerts'', True), (''concurrency'', True), (''response_normalization'', True)]"

definition dec_config :: "json \<Rightarrow> config option" where
  "dec_config v =
     Option.bind (struct_map config_fields v) (\<lambda>m.
     Option.bind (req_field dec_server m ''server'') (\<lambda>sv.
     Option.bind (req_field dec_auth m ''auth'') (\<lambda>au.
     Option.bind (req_field dec_db m ''db'') (\<lambda>db.
     Option.bind (req_field dec_failover m ''failover'') (\<lambda>fo.
     Option.bind (req_field (dec_map dec_pool) m ''pools'') (\<lambda>po.
     Option.bind (req_field (dec_list dec_provider) m ''providers'') (\<lambda>pv.
     Option.bind (req_field (dec_map dec_routing) m ''model_to_pool'') (\<lambda>mp.
     Option.bind (default_field [] (dec_list dec_registry) m ''model_registry'') (\<lambda>re.
     Option.bind (default_field metadata_config_default dec_metadata_config m ''model_metadata'') (\<lambda>md.
     Option.bind (default_field admin_config_default dec_admin m ''admin'') (\<lambda>ad.
     Option.bind (default_field \<lparr>pr_models = []\<rparr> dec_pricing m ''pricing'') (\<lambda>pr.
     Option.bind (default_field rate_limit_default dec_rate_limit m ''rate_limit'') (\<lambda>rl.
     Option.bind (default_field 256 dec_usize m ''cache_max_entries'') (\<lambda>cm.
     Option.bind (default_field alert_config_default dec_alerts m ''alerts'') (\<lambda>al.
     Option.bind (default_field concurrency_default dec_concurrency m ''concurrency'') (\<lambda>cc.
     Option.bind (default_field \<lparr>rn_strip_think_tags = False\<rparr> dec_response_normalization m ''response_normalization'') (\<lambda>rn.
     Some \<lparr>cf_server = sv, cf_client_keys = au, cf_db_path = db, cf_failover = fo, cf_pools = po,
       cf_providers = pv, cf_model_to_pool = mp, cf_model_registry = re, cf_model_metadata = md,
       cf_admin = ad, cf_pricing = pr, cf_rate_limit = rl, cf_cache_max_entries = cm, cf_alerts = al,
       cf_concurrency = cc, cf_response_normalization = rn\<rparr>)))))))))))))))))"

section \<open>Validation\<close>

abbreviation quoted :: "string \<Rightarrow> string" where
  "quoted s \<equiv> [CHR 0x27] @ s @ [CHR 0x27]"

text \<open>The loops of \<open>validate\<close> return at the first offence.\<close>

fun first_error :: "('a \<Rightarrow> app_error option) \<Rightarrow> 'a list \<Rightarrow> app_error option" where
  "first_error chk [] = None"
| "first_error chk (x # xs) = (case chk x of Some e \<Rightarrow> Some e | None \<Rightarrow> first_error chk xs)"

definition validate_route :: "config \<Rightarrow> string \<times> model_routing \<Rightarrow> app_error option" where
  "validate_route cfg mr =
     (case mr of (model, routing) \<Rightarrow>
        if dm_get (cf_pools cfg) (routing_pool_id routing) = None
        then Some (Config (''Model '' @ quoted model @ '' references pool '' @ quoted (routing_pool_id routing) @
          '' which does not exist''))
        else None)"

definition validate_provider_ref :: "config \<Rightarrow> provider_config \<Rightarrow> app_error option" where
  "validate_provider_ref cfg p =
     (if dm_get (cf_pools cfg) (pv_pool_id p) = None
      then Some (Config (''Provider '' @ quoted (pv_id p) @ '' references pool '' @ quoted (pv_pool_id p) @
        '' which does not exist''))
      else None)"

definition validate_key :: "string \<Rightarrow> nat \<times> key_entry \<Rightarrow> app_error option" where
  "validate_key pool_id ik =
     (case ik of (i, key) \<Rightarrow>
        let place = ''Pool '' @ quoted pool_id @ '' key '' @ show_nat i
        in if is_oauth key then
             (if nonempty (ke_refresh key) = None then Some (Config (place @ '' oauth credential is missing refresh''))
              else if nonempty (ke_issuer key) = None then Some (Config (place @ '' oauth credential is missing issuer''))
              else None)
           else if ke_key key = [] then Some (Config (place @ '' has empty key''))
           else None)"

definition validate_pool :: "string \<times> pool_config \<Rightarrow> app_error option" where
  "validate_pool pp = (case pp of (pool_id, pool) \<Rightarrow> first_error (validate_key pool_id) (enumerate 0 (pc_keys pool)))"

definition registry_error :: "registry_config \<Rightarrow> string \<Rightarrow> app_error option" where
  "registry_error e what = Some (Config (''model_registry entry '' @ quoted (rc_id e) @ what))"

text \<open>The checks on one entry; prices are finite numbers here, so only their sign is left to test.\<close>

definition validate_registry :: "config \<Rightarrow> registry_config \<Rightarrow> app_error option" where
  "validate_registry cfg e =
     (if trim (rc_id e) = [] then Some (Config ''model_registry entry id must be non-empty'')
      else if trim (rc_display_name e) = [] then registry_error e '' display_name must be non-empty''
      else if trim (rc_provider_kind e) = [] then registry_error e '' provider_kind must be non-empty''
      else if rc_max_context_tokens e \<le> 0 \<or> rc_max_output_tokens e \<le> 0
      then registry_error e '' token limits must be positive''
      else if list_ex (\<lambda>price. price < 0) (List.map_filter id [rc_input_price e, rc_output_price e])
      then registry_error e '' prices must be finite and non-negative''
      else if \<not> is_null (rc_capabilities_json e) \<and> \<not> is_object (rc_capabilities_json e)
      then registry_error e '' capabilities_json must be an object''
      else case rc_provider_config_id e of
             None \<Rightarrow> None
           | Some provider_id \<Rightarrow>
               if trim provider_id = [] then registry_error e '' provider_config_id cannot be empty''
               else if \<not> list_ex (\<lambda>p. pv_id p = provider_id) (cf_providers cfg)
               then registry_error e ('' references unknown provider '' @ quoted provider_id)
               else None)"

fun validate_registries :: "config \<Rightarrow> string list \<Rightarrow> registry_config list \<Rightarrow> app_error option" where
  "validate_registries cfg seen [] = None"
| "validate_registries cfg seen (e # es) =
     (case validate_registry cfg e of
        Some err \<Rightarrow> Some err
      | None \<Rightarrow>
          if rc_id e \<in> set seen then Some (Config (''duplicate model_registry id '' @ quoted (rc_id e)))
          else validate_registries cfg (rc_id e # seen) es)"

definition validate :: "config \<Rightarrow> unit result" where
  "validate cfg =
     (case first_error (validate_route cfg) (cf_model_to_pool cfg) of Some e \<Rightarrow> Inl e | None \<Rightarrow>
     (case first_error (validate_provider_ref cfg) (cf_providers cfg) of Some e \<Rightarrow> Inl e | None \<Rightarrow>
     (case first_error validate_pool (cf_pools cfg) of Some e \<Rightarrow> Inl e | None \<Rightarrow>
     (case validate_registries cfg [] (cf_model_registry cfg) of Some e \<Rightarrow> Inl e | None \<Rightarrow> Inr ()))))"

text \<open>\<open>load\<close> on what reading the file gave; the YAML parser and the text of a reader's error are the
  library's.\<close>

definition load :: "(string \<Rightarrow> string + json) \<Rightarrow> (json \<Rightarrow> string) \<Rightarrow> string + string \<Rightarrow> config result" where
  "load parse_yaml type_error file =
     (case file of
        Inl e \<Rightarrow> Inl (Config (''Failed to read config file: '' @ e))
      | Inr content \<Rightarrow>
          (case parse_yaml content of
             Inl e \<Rightarrow> Inl (Config (''Failed to parse config: '' @ e))
           | Inr v \<Rightarrow>
               (case dec_config v of
                  None \<Rightarrow> Inl (Config (''Failed to parse config: '' @ type_error v))
                | Some cfg \<Rightarrow> (case validate cfg of Inl e \<Rightarrow> Inl e | Inr _ \<Rightarrow> Inr cfg))))"

section \<open>What validation establishes\<close>

definition usable_key :: "key_entry \<Rightarrow> bool" where
  "usable_key k =
     (if is_oauth k then nonempty (ke_refresh k) \<noteq> None \<and> nonempty (ke_issuer k) \<noteq> None else ke_key k \<noteq> [])"

definition registry_ok :: "config \<Rightarrow> registry_config \<Rightarrow> bool" where
  "registry_ok cfg e =
     (trim (rc_id e) \<noteq> [] \<and> trim (rc_display_name e) \<noteq> [] \<and> trim (rc_provider_kind e) \<noteq> [] \<and>
      0 < rc_max_context_tokens e \<and> 0 < rc_max_output_tokens e \<and>
      (\<forall>p. rc_input_price e = Some p \<or> rc_output_price e = Some p \<longrightarrow> 0 \<le> p) \<and>
      (is_null (rc_capabilities_json e) \<or> is_object (rc_capabilities_json e)) \<and>
      (\<forall>pid. rc_provider_config_id e = Some pid \<longrightarrow> trim pid \<noteq> [] \<and> pid \<in> pv_id ` set (cf_providers cfg)))"

definition config_ok :: "config \<Rightarrow> bool" where
  "config_ok cfg =
     ((\<forall>(model, r)\<in>set (cf_model_to_pool cfg). routing_pool_id r \<in> fst ` set (cf_pools cfg)) \<and>
      (\<forall>p\<in>set (cf_providers cfg). pv_pool_id p \<in> fst ` set (cf_pools cfg)) \<and>
      (\<forall>(pool_id, pool)\<in>set (cf_pools cfg). \<forall>k\<in>set (pc_keys pool). usable_key k) \<and>
      (\<forall>e\<in>set (cf_model_registry cfg). registry_ok cfg e) \<and>
      distinct (map rc_id (cf_model_registry cfg)))"

lemma first_error_None: "first_error chk xs = None \<longleftrightarrow> (\<forall>x\<in>set xs. chk x = None)"
  by (induction xs) (auto split: option.split)

lemma first_error_Some: "first_error chk xs = Some e \<Longrightarrow> \<exists>x\<in>set xs. chk x = Some e"
  by (induction xs) (auto split: option.splits)

lemma validate_route_None: "validate_route cfg mr = None \<longleftrightarrow> routing_pool_id (snd mr) \<in> fst ` set (cf_pools cfg)"
  by (cases mr) (auto simp: validate_route_def map_of_eq_None_iff)

lemma validate_provider_None: "validate_provider_ref cfg p = None \<longleftrightarrow> pv_pool_id p \<in> fst ` set (cf_pools cfg)"
  by (auto simp: validate_provider_ref_def map_of_eq_None_iff)

lemma validate_key_None: "validate_key pool_id ik = None \<longleftrightarrow> usable_key (snd ik)"
  by (cases ik) (simp add: validate_key_def usable_key_def Let_def)

lemma validate_pool_None: "validate_pool pp = None \<longleftrightarrow> (\<forall>k\<in>set (pc_keys (snd pp)). usable_key k)"
proof -
  have "snd ` set (enumerate 0 (pc_keys (snd pp))) = set (pc_keys (snd pp))"
    by (simp flip: set_map)
  then have "(\<forall>ik\<in>set (enumerate 0 (pc_keys (snd pp))). usable_key (snd ik)) \<longleftrightarrow> (\<forall>k\<in>set (pc_keys (snd pp)). usable_key k)"
    by (metis (no_types, lifting) image_iff)
  then show ?thesis
    by (cases pp) (simp add: validate_pool_def first_error_None validate_key_None)
qed

lemma validate_registry_None: "validate_registry cfg e = None \<longleftrightarrow> registry_ok cfg e"
proof -
  have prices: "list_ex (\<lambda>price. price < 0) (List.map_filter id [rc_input_price e, rc_output_price e]) \<longleftrightarrow>
      \<not> (\<forall>p. rc_input_price e = Some p \<or> rc_output_price e = Some p \<longrightarrow> 0 \<le> p)"
    by (cases "rc_input_price e"; cases "rc_output_price e") (auto simp: List.map_filter_def not_le)
  show ?thesis
    unfolding validate_registry_def prices registry_ok_def registry_error_def
    by (cases "rc_provider_config_id e") (auto simp: list_ex_iff image_iff)
qed

lemma validate_registries_None:
  "validate_registries cfg seen es = None \<longleftrightarrow>
     (\<forall>e\<in>set es. registry_ok cfg e) \<and> distinct (map rc_id es) \<and> set (map rc_id es) \<inter> set seen = {}"
  by (induction es arbitrary: seen) (auto simp: validate_registry_None [symmetric] split: option.split)

lemma validate_errors:
  assumes "validate cfg = Inl e"
  shows "\<exists>msg. e = Config msg"
proof -
  have reg: "validate_registries cfg seen es = Some e \<Longrightarrow> \<exists>msg. e = Config msg" for seen es
    by (induction es arbitrary: seen)
      (auto simp: validate_registry_def registry_error_def split: option.splits if_splits)
  have key: "validate_key p ik = Some e \<Longrightarrow> \<exists>msg. e = Config msg" for p ik
    by (cases ik) (auto simp: validate_key_def Let_def split: if_splits)
  then have pool: "validate_pool pp = Some e \<Longrightarrow> \<exists>msg. e = Config msg" for pp
    by (cases pp) (auto simp: validate_pool_def dest!: first_error_Some)
  from assms show ?thesis
    by (auto simp: validate_def validate_route_def validate_provider_ref_def dest!: first_error_Some
        split: option.splits if_splits dest: reg pool)
qed

lemma validate_iff: "validate cfg = Inr () \<longleftrightarrow> config_ok cfg"
proof -
  have "config_ok cfg \<longleftrightarrow> first_error (validate_route cfg) (cf_model_to_pool cfg) = None \<and>
      first_error (validate_provider_ref cfg) (cf_providers cfg) = None \<and>
      first_error validate_pool (cf_pools cfg) = None \<and> validate_registries cfg [] (cf_model_registry cfg) = None"
    by (simp add: config_ok_def first_error_None validate_route_None validate_provider_None validate_pool_None
        validate_registries_None case_prod_beta)
  then show ?thesis unfolding validate_def by (auto split: option.split)
qed

lemma load_config_ok: "load parse_yaml type_error file = Inr cfg \<Longrightarrow> config_ok cfg"
  using validate_iff by (auto simp: load_def split: sum.splits option.splits)


definition sample_config_doc :: json where
  "sample_config_doc = JObj [
     (''auth'', JObj [(''client_keys'', JArr [])]),
     (''db'', JObj [(''path'', JStr ''db'')]),
     (''failover'', JObj []),
     (''model_to_pool'', JObj [(''gpt'', JStr ''main'')]),
     (''pools'', JObj [(''main'', JObj [(''keys'', JArr [JObj [(''key'', JStr ''sk'')]])])]),
     (''providers'', JArr [JObj [(''base_url'', JStr ''u''), (''id'', JStr ''p''), (''pool_id'', JStr ''main'')]]),
     (''server'', JObj [(''host'', JStr ''h''), (''port'', JInt 80)])]"

lemmas reader_defs = struct_map_def req_field_def default_field_def opt_field_def

lemma sample_config_loads:
  "\<exists>cfg. dec_config sample_config_doc = Some cfg \<and>
     cf_pools cfg = [(''main'', \<lparr>pc_keys = [api_key ''sk'' 0]\<rparr>)] \<and>
     cf_providers cfg = [\<lparr>pv_id = ''p'', pv_pool_id = ''main'', pv_base_url = ''u'', pv_kind = OpenAi, pv_metadata = JNull\<rparr>] \<and>
     cf_model_to_pool cfg = [(''gpt'', Simple ''main'')] \<and> cf_model_registry cfg = []"
  by (simp add: sample_config_doc_def dec_config_def config_fields_def reader_defs dec_server_def dec_auth_def dec_db_def
      dec_failover_def dec_pool_def dec_key_entry_def dec_provider_def dec_routing_def dec_u16_def api_key_def)


section \<open>Routing entries survive the export\<close>

lemma as_str_object: "is_object v \<Longrightarrow> as_str v = None"
  by (cases v) auto

lemma nonempty_trim: "nonempty (map_option trim x) = Some u \<Longrightarrow> trim u = u \<and> u \<noteq> []"
  by (auto simp: nonempty_def split: option.splits if_splits)

text \<open>
  A routing entry that is exported and read back routes to the same pool, with the same default
  parameters and the same upstream name.
\<close>

theorem routing_roundtrip:
  "\<exists>r'. dec_routing (to_export_value r) = Some r' \<and> routing_pool_id r' = routing_pool_id r \<and>
     routing_default_params r' = routing_default_params r \<and> routing_upstream_model r' = routing_upstream_model r"
proof (cases r)
  case (Simple pool)
  then show ?thesis by (simp add: dec_routing_def)
next
  case (WithParams pool d u)
  show ?thesis
  proof (cases "nonempty (map_option trim u)")
    case None
    show ?thesis
    proof (cases "is_object d")
      case True
      then have "dec_routing (to_export_value r) = Some (WithParams pool d None)"
        using None by (simp add: WithParams dec_routing_def reader_defs)
      then show ?thesis using None True by (simp add: WithParams nonempty_def)
    next
      case False
      then show ?thesis using None by (simp add: WithParams dec_routing_def)
    qed
  next
    case (Some w)
    note w = nonempty_trim [OF Some]
    have "dec_routing (to_export_value r) = Some (WithParams pool (if is_object d then d else JNull) (Some w))"
      using Some by (simp add: WithParams dec_routing_def reader_defs)
    then show ?thesis using Some w by (auto simp: WithParams nonempty_def)
  qed
qed

section \<open>Layers of metadata\<close>

definition layered :: "'v option list \<Rightarrow> 'v \<Rightarrow> 'v" where
  "layered xs v = (case find (\<lambda>x. x \<noteq> None) xs of Some (Some w) \<Rightarrow> w | _ \<Rightarrow> v)"

lemma layered_simps [simp]:
  "layered [] v = v" "layered (None # xs) v = layered xs v" "layered (Some w # xs) v = w"
  by (simp_all add: layered_def)

lemma layered3:
  "layered [c, b, a] v = (case c of Some w \<Rightarrow> w | None \<Rightarrow> (case b of Some w \<Rightarrow> w | None \<Rightarrow> (case a of Some w \<Rightarrow> w | None \<Rightarrow> v)))"
  by (simp split: option.split)

lemma over_this: "(\<And>v s. get (put v s) = v) \<Longrightarrow> get (over x put s) = (case x of Some v \<Rightarrow> v | None \<Rightarrow> get s)"
  by (simp add: over_def split: option.split)

lemma over_other: "(\<And>v s. get (put v s) = get s) \<Longrightarrow> get (over x put s) = get s"
  by (simp add: over_def split: option.split)

lemmas over_metadata =
  over_this [where get = md_name] over_other [where get = md_name]
  over_this [where get = md_context_window] over_other [where get = md_context_window]
  over_this [where get = md_max_output_tokens] over_other [where get = md_max_output_tokens]
  over_this [where get = md_input_types] over_other [where get = md_input_types]
  over_this [where get = md_reasoning] over_other [where get = md_reasoning]
  over_this [where get = md_thinking_levels] over_other [where get = md_thinking_levels]
  over_this [where get = md_supports_tools] over_other [where get = md_supports_tools]
  over_this [where get = md_supports_vision] over_other [where get = md_supports_vision]
  over_this [where get = md_pricing] over_other [where get = md_pricing]

lemmas over_prices =
  over_this [where get = mdr_input] over_other [where get = mdr_input]
  over_this [where get = mdr_output] over_other [where get = mdr_output]
  over_this [where get = mdr_cache_read] over_other [where get = mdr_cache_read]
  over_this [where get = mdr_cache_write] over_other [where get = mdr_cache_write]

lemma overlay_fields:
  "md_name (overlay p out) = (case mdp_name p of Some v \<Rightarrow> v | None \<Rightarrow> md_name out)"
  "md_context_window (overlay p out) = (case mdp_context_window p of Some v \<Rightarrow> v | None \<Rightarrow> md_context_window out)"
  "md_max_output_tokens (overlay p out) = (case mdp_max_output_tokens p of Some v \<Rightarrow> v | None \<Rightarrow> md_max_output_tokens out)"
  "md_input_types (overlay p out) = (case mdp_input_types p of Some v \<Rightarrow> v | None \<Rightarrow> md_input_types out)"
  "md_reasoning (overlay p out) = (case mdp_reasoning p of Some v \<Rightarrow> v | None \<Rightarrow> md_reasoning out)"
  "md_thinking_levels (overlay p out) = (case mdp_thinking_levels p of Some v \<Rightarrow> v | None \<Rightarrow> md_thinking_levels out)"
  "md_supports_tools (overlay p out) = (case mdp_supports_tools p of Some v \<Rightarrow> v | None \<Rightarrow> md_supports_tools out)"
  "md_supports_vision (overlay p out) = (case mdp_supports_vision p of Some v \<Rightarrow> v | None \<Rightarrow> md_supports_vision out)"
  "md_pricing (overlay p out) = overlay_pricing (mdp_pricing p) (md_pricing out)"
  by (simp_all add: overlay_def Let_def over_metadata cong: option.case_cong)

lemma overlay_pricing_fields:
  "mdr_input (overlay_pricing p out) = (case mpp_input p of Some v \<Rightarrow> v | None \<Rightarrow> mdr_input out)"
  "mdr_output (overlay_pricing p out) = (case mpp_output p of Some v \<Rightarrow> v | None \<Rightarrow> mdr_output out)"
  "mdr_cache_read (overlay_pricing p out) = (case mpp_cache_read p of Some v \<Rightarrow> v | None \<Rightarrow> mdr_cache_read out)"
  "mdr_cache_write (overlay_pricing p out) = (case mpp_cache_write p of Some v \<Rightarrow> v | None \<Rightarrow> mdr_cache_write out)"
  by (simp_all add: overlay_pricing_def Let_def over_prices cong: option.case_cong)

text \<open>
  The metadata shown for a model takes every field from the most specific layer that sets it:
  the model's own entry, then the entry of its pool, then the defaults, then the built-in value; the
  prices are layered field by field too.
\<close>

theorem for_model_layers:
  "let layers = [dm_get_or (mc_models mc) model metadata_partial_default,
         dm_get_or (mc_pools mc) pool metadata_partial_default, mc_defaults mc];
       prices = map mdp_pricing layers;
       out = for_model mc model pool
   in md_name out = layered (map mdp_name layers) model \<and>
      md_context_window out = layered (map mdp_context_window layers) 128000 \<and>
      md_max_output_tokens out = layered (map mdp_max_output_tokens layers) 16384 \<and>
      md_input_types out = layered (map mdp_input_types layers) [''text''] \<and>
      md_reasoning out = layered (map mdp_reasoning layers) False \<and>
      md_thinking_levels out = layered (map mdp_thinking_levels layers) [] \<and>
      md_supports_tools out = layered (map mdp_supports_tools layers) False \<and>
      md_supports_vision out = layered (map mdp_supports_vision layers) False \<and>
      mdr_input (md_pricing out) = layered (map mpp_input prices) 0 \<and>
      mdr_output (md_pricing out) = layered (map mpp_output prices) 0 \<and>
      mdr_cache_read (md_pricing out) = layered (map mpp_cache_read prices) 0 \<and>
      mdr_cache_write (md_pricing out) = layered (map mpp_cache_write prices) 0"
  by (simp add: for_model_def Let_def overlay_fields overlay_pricing_fields metadata_builtin_def layered3
      cong: option.case_cong)

end
