(* ===== verification/Audit_Facts.thy ===== *)
theory Audit_Facts
  imports App_Error
begin

text \<open>The audit fields a request collects from the provider, the router and the client
  (\<open>audit/mod.rs\<close>).\<close>

datatype cache_kind =
  NoCache | OpenAiPromptCache | DeepSeekPromptCache | GeminiCachedContent | AnthropicCacheControl

fun show_cache_kind :: "cache_kind \<Rightarrow> string" where
  "show_cache_kind NoCache = ''None''"
| "show_cache_kind OpenAiPromptCache = ''OpenAiPromptCache''"
| "show_cache_kind DeepSeekPromptCache = ''DeepSeekPromptCache''"
| "show_cache_kind GeminiCachedContent = ''GeminiCachedContent''"
| "show_cache_kind AnthropicCacheControl = ''AnthropicCacheControl''"

record cache_report =
  cr_hit_tokens :: "int option"
  cr_creation_tokens :: "int option"
  cr_source :: cache_kind

definition cache_report_none :: cache_report where
  "cache_report_none = \<lparr>cr_hit_tokens = None, cr_creation_tokens = None, cr_source = NoCache\<rparr>"

record audit_from_provider =
  ap_cache :: cache_report
  ap_reasoning_tokens :: "int option"
  ap_audio_tokens :: "int option"
  ap_upstream_model :: "string option"
  ap_system_fingerprint :: "string option"
  ap_finish_reason :: "string option"

definition audit_provider_default :: audit_from_provider where
  "audit_provider_default =
     \<lparr>ap_cache = cache_report_none, ap_reasoning_tokens = None, ap_audio_tokens = None,
      ap_upstream_model = None, ap_system_fingerprint = None, ap_finish_reason = None\<rparr>"

record audit_from_router =
  ar_retry_count :: int
  ar_ttft_ms :: "int option"

record audit_detail =
  au_from_provider :: audit_from_provider
  au_from_router :: audit_from_router
  au_tenant_id :: string

definition audit_none :: audit_detail where
  "audit_none =
     \<lparr>au_from_provider = audit_provider_default, au_from_router = \<lparr>ar_retry_count = 0, ar_ttft_ms = None\<rparr>,
      au_tenant_id = ''default''\<rparr>"

fun show_error_code :: "error_code \<Rightarrow> string" where
  "show_error_code NoErrorCode = ''None''"
| "show_error_code InvalidApiKey = ''InvalidApiKey''"
| "show_error_code RateLimitExceeded = ''RateLimitExceeded''"
| "show_error_code ModelNotFound = ''ModelNotFound''"
| "show_error_code ContentFilter = ''ContentFilter''"
| "show_error_code UpstreamTimeout = ''UpstreamTimeout''"
| "show_error_code PoolExhausted = ''PoolExhausted''"
| "show_error_code (Other s) = s"

end
