(* ===== verification/Upstream_Http.thy ===== *)
theory Upstream_Http
  imports Json_Value App_Error
begin

text \<open>
  Upstream HTTP: requests and responses as the providers see them, and the error texts made from a
  failing response (\<open>provider/http.rs\<close>). The network is a function from requests to a connection error
  or a response; a response body is the sequence of chunks that arrive, each possibly a read error.
  Reading JSON text and decoding bytes to text belong to libraries and are fields of \<open>http_lib\<close>.
\<close>

datatype http_body = NoBody | JsonBody json | FormBody "(string \<times> string) list"

record http_request =
  hq_method :: string
  hq_url :: string
  hq_headers :: "(string \<times> string) list"
  hq_body :: http_body

record http_response =
  hr_status :: u16
  hr_content_type :: "string option"
  hr_chunks :: "(string + string) list"

type_synonym network = "http_request \<Rightarrow> string + http_response"

record http_lib =
  lib_parse_json :: "string \<Rightarrow> string + json"
  lib_type_error :: "json \<Rightarrow> string"
  lib_decode_text :: "string \<Rightarrow> string"
  lib_write_json :: "json \<Rightarrow> string"

definition is_success :: "u16 \<Rightarrow> bool" where
  "is_success s = (200 \<le> s \<and> s < 300)"

definition is_server_error :: "u16 \<Rightarrow> bool" where
  "is_server_error s = (500 \<le> s \<and> s < 600)"

text \<open>Reading the whole body fails at the first chunk that fails.\<close>

fun read_body :: "(string + string) list \<Rightarrow> string + string" where
  "read_body [] = Inr []"
| "read_body (Inl e # cs) = Inl e"
| "read_body (Inr b # cs) = (case read_body cs of Inl e \<Rightarrow> Inl e | Inr r \<Rightarrow> Inr (b @ r))"

definition response_text :: "http_lib \<Rightarrow> http_response \<Rightarrow> string" where
  "response_text lib r = (case read_body (hr_chunks r) of Inl _ \<Rightarrow> [] | Inr b \<Rightarrow> lib_decode_text lib b)"

definition response_json :: "http_lib \<Rightarrow> http_response \<Rightarrow> string + json" where
  "response_json lib r = (case read_body (hr_chunks r) of Inl e \<Rightarrow> Inl e | Inr b \<Rightarrow> lib_parse_json lib b)"

section \<open>Error messages\<close>

text \<open>\<open>Value::pointer\<close> along object keys.\<close>

fun jpointer :: "string list \<Rightarrow> json \<Rightarrow> json option" where
  "jpointer [] v = Some v"
| "jpointer (k # ks) v = Option.bind (jget v k) (jpointer ks)"

text \<open>\<open>split_whitespace\<close>: the maximal runs of non-white characters; \<open>cur\<close> is the reversed run being read.\<close>

function split_ws :: "string \<Rightarrow> string \<Rightarrow> string list" where
  "split_ws cur s =
     (case drop_ws white_space s of
        Some r \<Rightarrow> (if cur = [] then split_ws [] r else rev cur # split_ws [] r)
      | None \<Rightarrow>
          (case s of
             [] \<Rightarrow> if cur = [] then [] else [rev cur]
           | c # cs \<Rightarrow> split_ws (c # cur) cs))"
  by pat_completeness auto
termination
  by (relation "measure (\<lambda>(cur, s). length s)") (auto intro: drop_ws_shorter [OF white_space_nonempty(1)])

declare split_ws.simps [simp del]

definition split_whitespace :: "string \<Rightarrow> string list" where
  "split_whitespace s = split_ws [] s"

definition char_count :: "string \<Rightarrow> nat" where
  "char_count s = length (filter (\<lambda>c. \<not> is_continuation c) s)"

fun take_chars :: "nat \<Rightarrow> string \<Rightarrow> string" where
  "take_chars n [] = []"
| "take_chars n (c # s) =
     (if is_continuation c then c # take_chars n s
      else case n of 0 \<Rightarrow> [] | Suc m \<Rightarrow> c # take_chars m s)"

definition max_upstream_error_chars :: nat where
  "max_upstream_error_chars = 512"

definition ellipsis :: string where
  "ellipsis = [CHR 0xE2, CHR 0x80, CHR 0xA6]"

definition truncate_error_body :: "string \<Rightarrow> string" where
  "truncate_error_body body =
     (let collapsed = join '' '' (split_whitespace body)
      in if char_count collapsed \<le> max_upstream_error_chars then collapsed
         else take_chars max_upstream_error_chars collapsed @ ellipsis)"

definition or_else :: "'a option \<Rightarrow> 'a option \<Rightarrow> 'a option" where
  "or_else x y = (case x of Some v \<Rightarrow> Some v | None \<Rightarrow> y)"

definition extract_json_error_message :: "json \<Rightarrow> string option" where
  "extract_json_error_message v =
     or_else (or_else (Option.bind (jpointer [''error'', ''message''] v) as_str)
         (Option.bind (jget v ''message'') as_str))
       (Option.bind (jget v ''error'') as_str)"

definition format_upstream_error :: "http_lib \<Rightarrow> u16 \<Rightarrow> string \<Rightarrow> string" where
  "format_upstream_error lib status body =
     (let trimmed = trim body;
          prefix = ''upstream '' @ show_nat (unat status)
      in if trimmed = [] then prefix
         else
           case (case lib_parse_json lib trimmed of Inl _ \<Rightarrow> None | Inr v \<Rightarrow> extract_json_error_message v) of
             Some msg \<Rightarrow> prefix @ '': '' @ truncate_error_body msg
           | None \<Rightarrow> prefix @ '': '' @ truncate_error_body trimmed)"

definition upstream_error_message :: "http_lib \<Rightarrow> u16 \<Rightarrow> http_response \<Rightarrow> string" where
  "upstream_error_message lib status r = format_upstream_error lib status (response_text lib r)"

section \<open>Bounds on the texts\<close>

lemma char_count_append [simp]: "char_count (s @ t) = char_count s + char_count t"
  by (simp add: char_count_def)

lemma char_count_le: "char_count s \<le> length s"
  by (simp add: char_count_def)

lemma char_count_take_chars: "char_count (take_chars n s) \<le> n"
proof (induction n s rule: take_chars.induct)
  case (2 n c s)
  then show ?case by (cases n) (auto simp: char_count_def)
qed (simp add: char_count_def)

lemma char_count_truncate: "char_count (truncate_error_body body) \<le> Suc max_upstream_error_chars"
proof -
  have "char_count ellipsis = 1"
    by (simp add: char_count_def ellipsis_def is_continuation_def)
  then show ?thesis
    using char_count_take_chars [of max_upstream_error_chars "join '' '' (split_whitespace body)"]
    by (auto simp: truncate_error_body_def Let_def)
qed

lemma length_show_nat: "n < 10 ^ Suc k \<Longrightarrow> length (show_nat n) \<le> Suc k"
proof (induction k arbitrary: n)
  case 0
  then show ?case by (simp add: show_nat.simps [of n])
next
  case (Suc k)
  show ?case
  proof (cases "n < 10")
    case True
    then show ?thesis by (simp add: show_nat.simps [of n])
  next
    case False
    have "n div 10 < 10 ^ Suc k" using Suc.prems by (simp add: div_less_iff_less_mult)
    then show ?thesis using Suc.IH [of "n div 10"] False by (simp add: show_nat.simps [of n])
  qed
qed

lemma show_status_length: "length (show_nat (unat (s :: u16))) \<le> 5"
  using length_show_nat [of "unat s" 4] unsigned_less [of s, where ?'a = nat] by simp

text \<open>The message of an upstream error names the status and stays within a fixed number of characters.\<close>

lemma format_upstream_error_bound:
  "starts_with (format_upstream_error lib status body) (''upstream '' @ show_nat (unat status)) \<and>
   char_count (format_upstream_error lib status body) \<le> 529"
proof -
  have pre: "char_count (''upstream '' @ show_nat (unat status)) \<le> 14"
    unfolding char_count_append
    using char_count_le [of "show_nat (unat status)"] show_status_length [of status]
      char_count_le [of "''upstream ''"] by simp
  have sep: "char_count '': '' \<le> 2" using char_count_le [of "'': ''"] by simp
  have body: "char_count (truncate_error_body b) \<le> 513" for b
    using char_count_truncate [of b] by (simp add: max_upstream_error_chars_def)
  have msg: "char_count ((''upstream '' @ show_nat (unat status)) @ '': '' @ truncate_error_body b) \<le> 529" for b
    using pre sep body [of b]
    unfolding char_count_append [of "''upstream '' @ show_nat (unat status)"] char_count_append [of "'': ''"] by linarith
  have "format_upstream_error lib status body = ''upstream '' @ show_nat (unat status) \<or>
      (\<exists>b. format_upstream_error lib status body = (''upstream '' @ show_nat (unat status)) @ '': '' @ truncate_error_body b)"
    by (auto simp: format_upstream_error_def Let_def split: option.split)
  then show ?thesis using pre msg by (force simp: starts_with_iff)
qed

end
