(* ===== verification/Sse_Lines.thy ===== *)
theory Sse_Lines
  imports Proxy_Prelude
begin

text \<open>
  Line buffering of byte streams. The stream relays and the usage inspector all append a chunk to a
  buffer and process every complete line of it; the locale \<open>line_fed\<close> states that contract, and what
  it gives: how the bytes are cut into chunks does not matter.
\<close>

section \<open>UTF-8\<close>

abbreviation cont :: "char \<Rightarrow> bool" where
  "cont c \<equiv> is_continuation c"

definition in_range :: "nat \<Rightarrow> nat \<Rightarrow> char \<Rightarrow> bool" where
  "in_range lo hi c = (lo \<le> (of_char c :: nat) \<and> (of_char c :: nat) \<le> hi)"

text \<open>The well-formed byte sequences, as \<open>std::str::from_utf8\<close> checks them.\<close>

fun valid_utf8 :: "string \<Rightarrow> bool" where
  "valid_utf8 [] = True"
| "valid_utf8 (a # s) =
     (if in_range 0 127 a then valid_utf8 s
      else case s of
        [] \<Rightarrow> False
      | b # s \<Rightarrow>
          if in_range 194 223 a then cont b \<and> valid_utf8 s
          else case s of
            [] \<Rightarrow> False
          | c # s \<Rightarrow>
              if in_range 224 224 a then in_range 160 191 b \<and> cont c \<and> valid_utf8 s
              else if in_range 237 237 a then in_range 128 159 b \<and> cont c \<and> valid_utf8 s
              else if in_range 225 239 a then cont b \<and> cont c \<and> valid_utf8 s
              else case s of
                [] \<Rightarrow> False
              | d # s \<Rightarrow>
                  if in_range 240 240 a then in_range 144 191 b \<and> cont c \<and> cont d \<and> valid_utf8 s
                  else if in_range 241 243 a then cont b \<and> cont c \<and> cont d \<and> valid_utf8 s
                  else if in_range 244 244 a then in_range 128 143 b \<and> cont c \<and> cont d \<and> valid_utf8 s
                  else False)"

declare valid_utf8.simps(2) [simp del]

definition from_utf8 :: "string \<Rightarrow> string option" where
  "from_utf8 b = (if valid_utf8 b then Some b else None)"

text \<open>\<open>from_utf8(line).unwrap_or("")\<close>\<close>

definition utf8_or_empty :: "string \<Rightarrow> string" where
  "utf8_or_empty b = (case from_utf8 b of Some s \<Rightarrow> s | None \<Rightarrow> [])"

section \<open>Complete lines of a buffer\<close>

abbreviation nl :: char where
  "nl \<equiv> CHR 0x0A"

fun position_nl :: "string \<Rightarrow> nat option" where
  "position_nl [] = None"
| "position_nl (c # s) = (if c = nl then Some 0 else map_option Suc (position_nl s))"

lemma position_nl_Some: "position_nl s = Some i \<longleftrightarrow> i < length s \<and> s ! i = nl \<and> nl \<notin> set (take i s)"
proof (induction s arbitrary: i)
  case (Cons c s)
  then show ?case by (cases i) auto
qed simp

lemma position_nl_None: "position_nl s = None \<longleftrightarrow> nl \<notin> set s"
  by (induction s) auto

lemma position_nl_append: "position_nl a = Some i \<Longrightarrow> position_nl (a @ b) = Some i"
  by (auto simp: position_nl_Some nth_append)

lemma position_nl_less: "position_nl s = Some i \<Longrightarrow> i < length s"
  by (simp add: position_nl_Some)

text \<open>\<open>while let Some(pos) = buf.iter().position(newline)\<close>: process the line, drop it and its newline.\<close>

function drain_lines :: "(string \<Rightarrow> 's \<Rightarrow> 's) \<Rightarrow> string \<Rightarrow> 's \<Rightarrow> string \<times> 's" where
  "drain_lines f buf s =
     (case position_nl buf of
        None \<Rightarrow> (buf, s)
      | Some pos \<Rightarrow> drain_lines f (drop (Suc pos) buf) (f (take pos buf) s))"
  by pat_completeness auto
termination
  by (relation "measure (\<lambda>(f, buf, s). length buf)") (auto dest: position_nl_less)

declare drain_lines.simps [simp del]

lemma drain_lines_None: "nl \<notin> set buf \<Longrightarrow> drain_lines f buf s = (buf, s)"
  by (subst drain_lines.simps) (simp add: position_nl_None [THEN iffD2])

lemma drain_lines_Some:
  "position_nl buf = Some pos \<Longrightarrow> drain_lines f buf s = drain_lines f (drop (Suc pos) buf) (f (take pos buf) s)"
  by (subst drain_lines.simps) simp

lemma drain_lines_append:
  "drain_lines f a s = (r, s') \<Longrightarrow> drain_lines f (a @ b) s = drain_lines f (r @ b) s'"
proof (induction f a s rule: drain_lines.induct)
  case (1 f buf s)
  show ?case
  proof (cases "position_nl buf")
    case None
    then show ?thesis using "1.prems" by (simp add: drain_lines.simps [of f buf])
  next
    case (Some pos)
    then have "pos < length buf" by (rule position_nl_less)
    moreover have "drain_lines f (drop (Suc pos) buf) (f (take pos buf) s) = (r, s')"
      using "1.prems" Some by (simp add: drain_lines.simps [of f buf])
    ultimately show ?thesis
      using "1.IH" [OF Some] drain_lines_Some [OF position_nl_append [OF Some, of b], of f s] by simp
  qed
qed

lemma drain_lines_rest: "drain_lines f a s = (r, s') \<Longrightarrow> nl \<notin> set r"
proof (induction f a s rule: drain_lines.induct)
  case (1 f buf s)
  then show ?case
    by (cases "position_nl buf") (auto simp: drain_lines.simps [of f buf] position_nl_None)
qed

lemma drain_lines_line: "nl \<notin> set l \<Longrightarrow> drain_lines f (l @ nl # b) s = drain_lines f b (f l s)"
proof -
  assume "nl \<notin> set l"
  then have "position_nl (l @ nl # b) = Some (length l)"
    by (simp add: position_nl_Some nth_append)
  from drain_lines_Some [OF this] show ?thesis by simp
qed

text \<open>The remainder does not depend on what is done with the lines, and a relation between states
  that the processing of a line respects is respected by the loop.\<close>

lemma drain_lines_rel:
  assumes "drain_lines f a s = (r, s')" and "drain_lines g a t = (r', t')" and "R s t"
    and "\<And>l s t. R s t \<Longrightarrow> R (f l s) (g l t)"
  shows "r = r' \<and> R s' t'"
  using assms(1-3)
proof (induction "length a" arbitrary: a s t rule: less_induct)
  case less
  show ?case
  proof (cases "position_nl a")
    case None
    then have "nl \<notin> set a" by (simp add: position_nl_None)
    then show ?thesis using less.prems by (simp add: drain_lines_None)
  next
    case (Some pos)
    have "length (drop (Suc pos) a) < length a" using position_nl_less [OF Some] by simp
    moreover have "drain_lines f (drop (Suc pos) a) (f (take pos a) s) = (r, s')"
      "drain_lines g (drop (Suc pos) a) (g (take pos a) t) = (r', t')"
      using less.prems by (simp_all add: drain_lines_Some [OF Some])
    moreover have "R (f (take pos a) s) (g (take pos a) t)" using less.prems assms(4) by blast
    ultimately show ?thesis by (rule less.hyps)
  qed
qed

text \<open>The complete lines of a buffer.\<close>

definition lines_of :: "string \<Rightarrow> string list" where
  "lines_of buf = snd (drain_lines (\<lambda>l ls. ls @ [l]) buf [])"

lemma drain_lines_fold: "snd (drain_lines f buf s) = fold f (lines_of buf) s"
proof -
  obtain r t where d: "drain_lines f buf s = (r, t)" by force
  obtain r' ls where d': "drain_lines (\<lambda>l ls. ls @ [l]) buf [] = (r', ls)" by force
  have "r = r' \<and> t = fold f ls s"
    by (rule drain_lines_rel [where R = "\<lambda>t ls. t = fold f ls s", OF d d']) simp_all
  then show ?thesis using d d' by (simp add: lines_of_def)
qed

definition rest_of :: "string \<Rightarrow> string" where
  "rest_of buf = fst (drain_lines (\<lambda>l ls. ls @ [l]) buf [])"

lemma lines_of_None: "nl \<notin> set buf \<Longrightarrow> lines_of buf = [] \<and> rest_of buf = buf"
  by (simp add: lines_of_def rest_of_def drain_lines_None)

lemma rest_of_nl: "nl \<notin> set (rest_of buf)"
  unfolding rest_of_def by (rule drain_lines_rest, rule prod.collapse [symmetric])

lemma fold_snoc: "fold (\<lambda>l ls. ls @ [l]) xs ls = ls @ xs"
  by (induction xs arbitrary: ls) simp_all

lemma lines_of_append: "lines_of (a @ b) = lines_of a @ lines_of (rest_of a @ b)" "rest_of (a @ b) = rest_of (rest_of a @ b)"
proof -
  obtain r ls where d: "drain_lines (\<lambda>l ls. ls @ [l]) a [] = (r, ls)" by force
  have "lines_of (a @ b) = snd (drain_lines (\<lambda>l ls. ls @ [l]) (r @ b) ls)"
    by (simp only: lines_of_def drain_lines_append [OF d])
  also have "\<dots> = fold (\<lambda>l ls. ls @ [l]) (lines_of (r @ b)) ls" by (rule drain_lines_fold)
  finally have "lines_of (a @ b) = fold (\<lambda>l ls. ls @ [l]) (lines_of (r @ b)) ls" .
  then show "lines_of (a @ b) = lines_of a @ lines_of (rest_of a @ b)"
    using d by (simp add: fold_snoc rest_of_def) (simp add: lines_of_def)
  obtain r1 l1 r2 l2 where d1: "drain_lines (\<lambda>l ls. ls @ [l]) (r @ b) ls = (r1, l1)"
    and d2: "drain_lines (\<lambda>l ls. ls @ [l]) (r @ b) [] = (r2, l2)" by force
  have "r1 = r2" using drain_lines_rel [where R = "\<lambda>_ _. True", OF d1 d2] by simp
  then show "rest_of (a @ b) = rest_of (rest_of a @ b)"
    unfolding rest_of_def drain_lines_append [OF d] by (simp add: d d1 d2)
qed

lemma lines_of_prefix: "\<exists>ls. lines_of (a @ b) = lines_of a @ ls"
  using lines_of_append(1) by blast

lemma lines_of_line: "nl \<notin> set l \<Longrightarrow> lines_of (l @ nl # b) = l # lines_of b \<and> rest_of (l @ nl # b) = rest_of b"
proof -
  assume l: "nl \<notin> set l"
  have one: "lines_of (l @ [nl]) = [l]" "rest_of (l @ [nl]) = []"
    using drain_lines_line [OF l, of "\<lambda>l ls. ls @ [l]" "[]" "[]"] by (simp_all add: lines_of_def rest_of_def drain_lines_None)
  show ?thesis using lines_of_append [of "l @ [nl]" b] one by simp
qed

text \<open>A buffer is its complete lines and the rest.\<close>

lemma buffer_split: "\<exists>pre. buf = pre @ rest_of buf \<and> (pre = [] \<or> last pre = nl)"
proof (induction "length buf" arbitrary: buf rule: less_induct)
  case less
  show ?case
  proof (cases "position_nl buf")
    case None
    then show ?thesis by (simp add: lines_of_None position_nl_None)
  next
    case (Some pos)
    let ?l = "take pos buf" and ?r = "drop (Suc pos) buf"
    have pos: "pos < length buf" "buf ! pos = nl" "nl \<notin> set ?l" using Some by (simp_all add: position_nl_Some)
    have buf: "buf = ?l @ nl # ?r" using id_take_nth_drop [OF pos(1)] pos(2) by simp
    obtain pre where pre: "?r = pre @ rest_of ?r" "pre = [] \<or> last pre = nl"
      using less [of ?r] pos(1) by (metis (no_types, lifting) diff_less length_drop less_nat_zero_code linorder_neqE_nat zero_less_Suc)
    have "rest_of buf = rest_of ?r" using lines_of_line [OF pos(3), of ?r] buf by metis
    then have "buf = (?l @ nl # pre) @ rest_of buf" using buf pre(1) by (metis append.assoc append_Cons)
    moreover have "last (?l @ nl # pre) = nl" using pre(2) by auto
    ultimately show ?thesis by blast
  qed
qed

section \<open>The contract of a line-fed component\<close>

locale line_fed =
  fixes feed :: "string \<Rightarrow> 's \<Rightarrow> 's"
    and buf :: "'s \<Rightarrow> string"
    and set_buf :: "string \<Rightarrow> 's \<Rightarrow> 's"
    and line :: "string \<Rightarrow> 's \<Rightarrow> 's"
  assumes feed_eq: "feed bytes s = (case drain_lines line (buf s @ bytes) s of (rest, s') \<Rightarrow> set_buf rest s')"
    and buf_set: "buf (set_buf b s) = b"
    and set_set: "set_buf b (set_buf b' s) = set_buf b s"
    and set_same: "set_buf (buf s) s = s"
    and line_set: "line l (set_buf b s) = set_buf b (line l s)"
begin

lemma drain_set:
  assumes "drain_lines line a s = (r, s')"
  shows "drain_lines line a (set_buf b s) = (r, set_buf b s')"
proof -
  obtain r2 s2 where "drain_lines line a (set_buf b s) = (r2, s2)" by force
  then show ?thesis
    using drain_lines_rel [where R = "\<lambda>s t. t = set_buf b s", OF assms] by (auto simp: line_set)
qed

lemma feed_append: "feed (a @ b) s = feed b (feed a s)"
proof -
  obtain r s1 where d: "drain_lines line (buf s @ a) s = (r, s1)" by force
  obtain r' s2 where d': "drain_lines line (r @ b) s1 = (r', s2)" by force
  have "feed (a @ b) s = set_buf r' s2"
    using drain_lines_append [OF d, of b] d' by (simp add: feed_eq)
  moreover have "feed b (feed a s) = set_buf r' s2"
    using drain_set [OF d', of r] by (simp add: feed_eq [of a] feed_eq [of b] d buf_set set_set)
  ultimately show ?thesis by simp
qed

lemma feed_Nil: "nl \<notin> set (buf s) \<Longrightarrow> feed [] s = s"
  by (simp add: feed_eq drain_lines_None set_same)

lemma feed_buf: "nl \<notin> set (buf (feed a s))"
  by (auto simp: feed_eq buf_set split: prod.split dest: drain_lines_rest)

lemma feed_chunks: "nl \<notin> set (buf s) \<Longrightarrow> fold feed chunks s = feed (concat chunks) s"
  by (induction chunks arbitrary: s) (simp_all add: feed_Nil feed_append feed_buf)

lemma feed_chunking:
  "nl \<notin> set (buf s) \<Longrightarrow> concat cs = concat cs' \<Longrightarrow> fold feed cs s = fold feed cs' s"
  by (simp add: feed_chunks)

end

end
