(* ===== verification/Stream_Inspector.thy ===== *)
theory Stream_Inspector
  imports Sse_Lines Chat_Types Audit_Facts Upstream_Http
begin

text \<open>
  The usage accumulator of streamed responses (\<open>provider/inspector.rs\<close>) and the task that feeds it
  line by line (\<open>build_stream_response\<close> of \<open>server/handler.rs\<close>). The JSON parser is a parameter; the
  clock reading at which a line is ingested is an argument.
\<close>

record stream_inspector =
  si_usage :: "usage option"
  si_finish_reason :: "string option"
  si_upstream_model :: "string option"
  si_raw_usage_json :: "json option"
  si_first_chunk_at :: "instant option"
  si_start_at :: instant
  si_reasoning_tokens :: int
  si_audio_tokens :: int
  si_cache_hit_tokens :: "int option"
  si_cache_source :: cache_kind

definition inspector_new :: "instant \<Rightarrow> stream_inspector" where
  "inspector_new start_at =
     \<lparr>si_usage = None, si_finish_reason = None, si_upstream_model = None, si_raw_usage_json = None,
      si_first_chunk_at = None, si_start_at = start_at, si_reasoning_tokens = 0, si_audio_tokens = 0,
      si_cache_hit_tokens = None, si_cache_source = NoCache\<rparr>"

definition as_millis :: "duration \<Rightarrow> int" where
  "as_millis d = int (d div 1000000)"

definition ttft_ms :: "stream_inspector \<Rightarrow> int option" where
  "ttft_ms si = map_option (\<lambda>t. as_millis (elapsed t (si_start_at si))) (si_first_chunk_at si)"

definition inspect_needles :: "string list" where
  "inspect_needles = [''usage'', ''finish_reason'', ''model'', ''[DONE]'']"

definition prefilter :: "string \<Rightarrow> bool" where
  "prefilter line = list_ex (\<lambda>n. find_sub n line \<noteq> None) inspect_needles"

definition mark_first :: "instant \<Rightarrow> stream_inspector \<Rightarrow> stream_inspector" where
  "mark_first now si = (if si_first_chunk_at si = None then si\<lparr>si_first_chunk_at := Some now\<rparr> else si)"

definition ingest_finish :: "json \<Rightarrow> stream_inspector \<Rightarrow> stream_inspector" where
  "ingest_finish choice si =
     (case Option.bind (jget choice ''finish_reason'') as_str of
        Some fr \<Rightarrow> if fr \<noteq> ''null'' then si\<lparr>si_finish_reason := Some fr\<rparr> else si
      | None \<Rightarrow> si)"

definition ingest_usage_details :: "json \<Rightarrow> stream_inspector \<Rightarrow> stream_inspector" where
  "ingest_usage_details u si =
     (let si = (case Option.bind (jpointer [''prompt_tokens_details'', ''cached_tokens''] u) as_i64 of
            Some cached \<Rightarrow> si\<lparr>si_cache_hit_tokens := Some cached, si_cache_source := OpenAiPromptCache\<rparr>
          | None \<Rightarrow> si);
          si = (case Option.bind (jpointer [''completion_tokens_details'', ''reasoning_tokens''] u) as_i64 of
            Some r \<Rightarrow> si\<lparr>si_reasoning_tokens := r\<rparr> | None \<Rightarrow> si)
      in case Option.bind (jpointer [''completion_tokens_details'', ''audio_tokens''] u) as_i64 of
           Some a \<Rightarrow> si\<lparr>si_audio_tokens := a\<rparr> | None \<Rightarrow> si)"

definition ingest_value :: "json \<Rightarrow> stream_inspector \<Rightarrow> stream_inspector" where
  "ingest_value chunk si =
     (let si = (case Option.bind (jget chunk ''model'') as_str of
            Some m \<Rightarrow> si\<lparr>si_upstream_model := Some m\<rparr> | None \<Rightarrow> si);
          si = (case jget chunk ''usage'' of
            Some us \<Rightarrow>
              (case dec_usage us of
                 Some u \<Rightarrow> si\<lparr>si_usage := Some u, si_raw_usage_json := Some us\<rparr>
               | None \<Rightarrow> si)
          | None \<Rightarrow> si);
          si = (case Option.bind (jget chunk ''choices'') as_array of
            Some choices \<Rightarrow> fold ingest_finish choices si | None \<Rightarrow> si)
      in case jget chunk ''usage'' of Some u \<Rightarrow> ingest_usage_details u si | None \<Rightarrow> si)"

text \<open>What follows the pre-filter.\<close>

definition ingest_line :: "(string \<Rightarrow> string + json) \<Rightarrow> string \<Rightarrow> stream_inspector \<Rightarrow> stream_inspector" where
  "ingest_line parse line si =
     (case from_utf8 line of
        None \<Rightarrow> si
      | Some s \<Rightarrow>
          let trimmed = trim s
          in if trimmed = [] then si
             else if trimmed = ''data: [DONE]'' then si
             else case strip_prefix ''data: '' trimmed of
                    None \<Rightarrow> si
                  | Some json_str \<Rightarrow> (case parse json_str of Inl _ \<Rightarrow> si | Inr chunk \<Rightarrow> ingest_value chunk si))"

definition ingest_chunk :: "(string \<Rightarrow> string + json) \<Rightarrow> instant \<Rightarrow> string \<Rightarrow> stream_inspector \<Rightarrow> stream_inspector" where
  "ingest_chunk parse now line si =
     (let si = mark_first now si in if \<not> prefilter line then si else ingest_line parse line si)"

definition into_audit :: "stream_inspector \<Rightarrow> audit_from_provider" where
  "into_audit si =
     \<lparr>ap_cache = \<lparr>cr_hit_tokens = si_cache_hit_tokens si, cr_creation_tokens = None, cr_source = si_cache_source si\<rparr>,
      ap_reasoning_tokens = (if 0 < si_reasoning_tokens si then Some (si_reasoning_tokens si) else None),
      ap_audio_tokens = (if 0 < si_audio_tokens si then Some (si_audio_tokens si) else None),
      ap_upstream_model = si_upstream_model si,
      ap_system_fingerprint = None,
      ap_finish_reason = si_finish_reason si\<rparr>"

record stream_summary =
  ss_usage :: "usage option"
  ss_finish_reason :: "string option"
  ss_upstream_model :: "string option"
  ss_raw_usage_json :: "json option"

definition finalize :: "stream_inspector \<Rightarrow> stream_summary" where
  "finalize si =
     \<lparr>ss_usage = si_usage si, ss_finish_reason = si_finish_reason si, ss_upstream_model = si_upstream_model si,
      ss_raw_usage_json = si_raw_usage_json si\<rparr>"

section \<open>The inspecting task\<close>

record inspect_task =
  it_buf :: string
  it_inspector :: stream_inspector

definition task_line ::
  "(string \<Rightarrow> string + json) \<Rightarrow> instant \<Rightarrow> string \<Rightarrow> inspect_task \<Rightarrow> inspect_task" where
  "task_line parse now l t = t\<lparr>it_inspector := ingest_chunk parse now l (it_inspector t)\<rparr>"

definition task_feed ::
  "(string \<Rightarrow> string + json) \<Rightarrow> instant \<Rightarrow> string \<Rightarrow> inspect_task \<Rightarrow> inspect_task" where
  "task_feed parse now bytes t =
     (case drain_lines (task_line parse now) (it_buf t @ bytes) t of (rest, t') \<Rightarrow> t'\<lparr>it_buf := rest\<rparr>)"

definition task_finish :: "(string \<Rightarrow> string + json) \<Rightarrow> instant \<Rightarrow> inspect_task \<Rightarrow> stream_inspector" where
  "task_finish parse now t =
     (if it_buf t \<noteq> [] then ingest_chunk parse now (it_buf t) (it_inspector t) else it_inspector t)"

text \<open>The task on a stream: each chunk with the clock reading at its arrival, then the end.\<close>

definition inspect_stream ::
  "(string \<Rightarrow> string + json) \<Rightarrow> instant \<Rightarrow> (instant \<times> string) list \<Rightarrow> instant \<Rightarrow> stream_inspector" where
  "inspect_stream parse start_at chunks ended =
     task_finish parse ended
       (fold (\<lambda>(now, bytes). task_feed parse now bytes) chunks \<lparr>it_buf = [], it_inspector = inspector_new start_at\<rparr>)"

interpretation task: line_fed "task_feed parse now" it_buf "\<lambda>b t. t\<lparr>it_buf := b\<rparr>" "task_line parse now"
  for parse now
  by unfold_locales (simp_all add: task_feed_def task_line_def)

section \<open>The pre-filter\<close>

text \<open>What the pre-filter relies on: a key that the parser finds in a text is written there literally
  (and not with escapes). The keys are those of the chunk itself and of its choices.\<close>

definition literal_keys :: "(string \<Rightarrow> string + json) \<Rightarrow> string \<Rightarrow> bool" where
  "literal_keys parse text =
     (case parse text of
        Inl _ \<Rightarrow> True
      | Inr v \<Rightarrow>
          list_all (\<lambda>k. jget v k \<noteq> None \<longrightarrow> find_sub k text \<noteq> None) [''model'', ''usage''] \<and>
          (case Option.bind (jget v ''choices'') as_array of
             None \<Rightarrow> True
           | Some cs \<Rightarrow> list_all (\<lambda>c. jget c ''finish_reason'' \<noteq> None \<longrightarrow> find_sub ''finish_reason'' text \<noteq> None) cs))"

lemma find_sub_infix: "find_sub n s \<noteq> None \<longleftrightarrow> (\<exists>a b. s = a @ n @ b)"
proof
  assume "find_sub n s \<noteq> None"
  then obtain i where "find_sub n s = Some i" by auto
  then have "i \<le> length s" "starts_with (drop i s) n" by (auto simp: find_sub_Some)
  then show "\<exists>a b. s = a @ n @ b" by (metis append_take_drop_id starts_with_iff)
next
  assume "\<exists>a b. s = a @ n @ b"
  then obtain a b where s: "s = a @ n @ b" by blast
  have "starts_with (drop (length a) s) n" by (simp add: s starts_with_iff)
  moreover have "length a \<le> length s" by (simp add: s)
  ultimately show "find_sub n s \<noteq> None" unfolding find_sub_None by blast
qed

lemma find_sub_mono: "find_sub n s \<noteq> None \<Longrightarrow> find_sub n (a @ s @ b) \<noteq> None"
  unfolding find_sub_infix by (metis append.assoc)

lemma trim_infix: "\<exists>a b. s = a @ trim s @ b"
proof -
  obtain a where a: "s = a @ trim_start s" unfolding trim_start_def using trim_by_suffix by blast
  obtain b where "rev (trim_start s) = b @ trim_by (map rev white_space) (rev (trim_start s))"
    using trim_by_suffix by blast
  then have "trim_start s = trim s @ rev b" by (metis rev_append rev_rev_ident trim_def trim_end_def)
  with a show ?thesis by metis
qed

lemma ingest_finish_idle:
  "(\<And>c. c \<in> set cs \<Longrightarrow> jget c ''finish_reason'' = None) \<Longrightarrow> fold ingest_finish cs si = si"
  by (induction cs arbitrary: si) (simp_all add: ingest_finish_def)

lemma ingest_value_idle:
  assumes "jget v ''model'' = None" and "jget v ''usage'' = None"
    and "\<And>cs c. Option.bind (jget v ''choices'') as_array = Some cs \<Longrightarrow> c \<in> set cs \<Longrightarrow> jget c ''finish_reason'' = None"
  shows "ingest_value v si = si"
  using assms by (cases "Option.bind (jget v ''choices'') as_array")
    (simp_all add: ingest_value_def Let_def ingest_finish_idle)

lemma literal_idle:
  assumes "literal_keys parse js" and "parse js = Inr v"
    and "\<And>n. n \<in> set inspect_needles \<Longrightarrow> find_sub n js = None"
  shows "ingest_value v si = si"
proof (rule ingest_value_idle)
  have n: "find_sub ''model'' js = None" "find_sub ''usage'' js = None" "find_sub ''finish_reason'' js = None"
    by (rule assms(3), simp add: inspect_needles_def)+
  show "jget v ''model'' = None" "jget v ''usage'' = None"
    using assms(1,2) n by (simp_all add: literal_keys_def)
  fix cs c
  assume "Option.bind (jget v ''choices'') as_array = Some cs" "c \<in> set cs"
  then show "jget c ''finish_reason'' = None"
    using assms(1,2) n(3) by (simp add: literal_keys_def list_all_iff)
qed

lemma needle_absent:
  assumes "\<not> prefilter line" and "strip_prefix ''data: '' (trim line) = Some js" and "n \<in> set inspect_needles"
  shows "find_sub n js = None"
proof (rule ccontr)
  assume found: "find_sub n js \<noteq> None"
  obtain a b where ab: "line = a @ trim line @ b" using trim_infix by blast
  have "trim line = ''data: '' @ js" using assms(2) by (simp only: strip_prefix_Some)
  then have "line = (a @ ''data: '') @ js @ b" using ab by (metis append.assoc)
  then have "find_sub n line \<noteq> None" using find_sub_mono [OF found] by metis
  with assms(1,3) show False by (auto simp: prefilter_def list_ex_iff)
qed

lemma ingest_filtered:
  assumes "\<not> prefilter line"
    and "\<And>js. strip_prefix ''data: '' (trim line) = Some js \<Longrightarrow> literal_keys parse js"
  shows "ingest_line parse line si = si"
proof (cases "strip_prefix ''data: '' (trim line)")
  case None
  then show ?thesis by (simp add: ingest_line_def from_utf8_def Let_def)
next
  case (Some js)
  have "ingest_value v si = si" if "parse js = Inr v" for v
    by (rule literal_idle [OF assms(2) [OF Some] that needle_absent [OF assms(1) Some]])
  then show ?thesis
    by (cases "parse js") (simp_all add: ingest_line_def from_utf8_def Let_def Some)
qed

text \<open>
  Skipping lines without the tracked field names is an optimisation only: as long as field names
  are written literally, the inspector ends in the state it would reach by parsing every line.
\<close>

theorem prefilter_equivalent:
  assumes "\<And>js. strip_prefix ''data: '' (trim line) = Some js \<Longrightarrow> literal_keys parse js"
  shows "ingest_chunk parse now line si = ingest_line parse line (mark_first now si)"
  using ingest_filtered [OF _ assms] by (auto simp: ingest_chunk_def Let_def)

definition demo_parse :: "string \<Rightarrow> string + json" where
  "demo_parse s =
     (if s = ''{model:m}'' then Inr (JObj [(''model'', JStr ''m'')])
      else if s = ''{}'' then Inr (JObj []) else Inl ''error'')"

theorem prefilter_equivalent_witness:
  "ingest_chunk demo_parse 7 ''data: {}'' (inspector_new 0) = ingest_line demo_parse ''data: {}'' (mark_first 7 (inspector_new 0)) \<and>
   \<not> prefilter ''data: {}''"
proof -
  have "trim ''data: {}'' = ''data: {}''" by code_simp
  then have "literal_keys demo_parse js" if "strip_prefix ''data: '' (trim ''data: {}'') = Some js" for js
    using that by (auto simp: strip_prefix_def literal_keys_def demo_parse_def)
  moreover have "\<not> prefilter ''data: {}''" by code_simp
  ultimately show ?thesis
    using prefilter_equivalent [of "''data: {}''" demo_parse 7 "inspector_new 0"] by simp
qed

end
