(* ===== verification/Stream_Relay.thy ===== *)
theory Stream_Relay
  imports Sse_Lines Json_Value App_Error
begin

text \<open>
  What the two protocol relays share (\<open>provider/anthropic_stream.rs\<close>, \<open>provider/gemini_stream.rs\<close>):
  their state, the chunk they emit, and the polling loop around the upstream stream. A stream is
  the list of the items it yields, \<open>Inl\<close> an error; a poll that wakes itself and returns \<open>Pending\<close> is
  polled again. Identifier, clock, JSON reader and writer are parameters.
\<close>

type_synonym item = "app_error + string"

record relay_state =
  rs_message_id :: string
  rs_model :: string
  rs_created :: u64
  rs_content_idx :: u64
  rs_streamed_tokens :: u32
  rs_finish_reason :: "string option"
  rs_buffer :: string
  rs_pending :: "string list"
  rs_done :: bool

record json_lib =
  jl_parse :: "string \<Rightarrow> string + json"
  jl_write :: "json \<Rightarrow> string"

definition sse_data :: "string \<Rightarrow> string" where
  "sse_data s = ''data: '' @ s @ [nl, nl]"

definition sse_done :: string where
  "sse_done = ''data: [DONE]'' @ [nl, nl]"

definition opt_str :: "string option \<Rightarrow> json" where
  "opt_str x = (case x of Some s \<Rightarrow> JStr s | None \<Rightarrow> JNull)"

definition chunk_delta :: "string \<Rightarrow> bool \<Rightarrow> json" where
  "chunk_delta s reasoning =
     (if s = ''assistant'' then JObj [(''role'', JStr ''assistant'')]
      else if reasoning then JObj [(''reasoning_content'', JStr s)]
      else if s = [] then JObj []
      else JObj [(''content'', JStr s)])"

definition chunk_payload :: "'a relay_state_scheme \<Rightarrow> json \<Rightarrow> string option \<Rightarrow> json_map \<Rightarrow> json" where
  "chunk_payload st delta finish_reason extra =
     JObj (obj_of ([(''id'', JStr (rs_message_id st)), (''object'', JStr ''chat.completion.chunk''),
       (''created'', JInt (uint (rs_created st))), (''model'', JStr (rs_model st)),
       (''choices'', JArr [JObj (obj_of [(''index'', JInt (uint (rs_content_idx st))), (''delta'', delta),
         (''finish_reason'', opt_str finish_reason)])])] @ extra))"

definition emit_chunk :: "json_lib \<Rightarrow> 'a relay_state_scheme \<Rightarrow> string \<Rightarrow> string option \<Rightarrow> bool \<Rightarrow> string" where
  "emit_chunk lib st s finish_reason reasoning =
     sse_data (jl_write lib (chunk_payload st (chunk_delta s reasoning) finish_reason []))"

definition usage_chunk :: "json_lib \<Rightarrow> 'a relay_state_scheme \<Rightarrow> u32 \<Rightarrow> u32 \<Rightarrow> string" where
  "usage_chunk lib st prompt tot =
     sse_data (jl_write lib (chunk_payload st (JObj []) (rs_finish_reason st)
       [(''usage'', JObj (obj_of [(''completion_tokens'', JInt (uint (rs_streamed_tokens st))),
          (''prompt_tokens'', JInt (uint prompt)), (''total_tokens'', JInt (uint tot))]))]))"

definition push :: "string \<Rightarrow> 'a relay_state_scheme \<Rightarrow> 'a relay_state_scheme" where
  "push c st = st\<lparr>rs_pending := rs_pending st @ [c]\<rparr>"

text \<open>Chunks are made without regard to the buffer and to what is pending.\<close>

lemma chunk_insensitive [simp]:
  "emit_chunk lib (st\<lparr>rs_buffer := b\<rparr>) s f r = emit_chunk lib st s f r"
  "emit_chunk lib (st\<lparr>rs_pending := p\<rparr>) s f r = emit_chunk lib st s f r"
  "usage_chunk lib (st\<lparr>rs_buffer := b\<rparr>) n m = usage_chunk lib st n m"
  "usage_chunk lib (st\<lparr>rs_pending := p\<rparr>) n m = usage_chunk lib st n m"
  by (simp_all add: emit_chunk_def usage_chunk_def chunk_payload_def)

lemma push_buffer: "push c (st\<lparr>rs_buffer := b\<rparr>) = (push c st)\<lparr>rs_buffer := b\<rparr>"
  by (simp add: push_def)

lemma push_pending: "push c (st\<lparr>rs_pending := p @ q\<rparr>) = st\<lparr>rs_pending := p @ q @ [c]\<rparr>"
  by (simp add: push_def)

lemma push_fields [simp]:
  "rs_buffer (push c st) = rs_buffer st" "rs_done (push c st) = rs_done st"
  "rs_finish_reason (push c st) = rs_finish_reason st" "rs_streamed_tokens (push c st) = rs_streamed_tokens st"
  "rs_pending (push c st) = rs_pending st @ [c]"
  by (simp_all add: push_def)

section \<open>Polling\<close>

record ('s) relay =
  rl_state :: 's
  rl_upstream_done :: bool
  rl_upstream :: "item list"

fun poll_upstream ::
  "(string \<Rightarrow> 'a relay_state_scheme \<Rightarrow> 'a relay_state_scheme) \<Rightarrow> 'a relay_state_scheme \<Rightarrow> item list \<Rightarrow>
     item option \<times> 'a relay_state_scheme relay" where
  "poll_upstream feed st [] =
     (case rs_pending st of
        c # cs \<Rightarrow> (Some (Inr c), \<lparr>rl_state = st\<lparr>rs_pending := cs\<rparr>, rl_upstream_done = True, rl_upstream = []\<rparr>)
      | [] \<Rightarrow>
          if \<not> rs_done st
          then (Some (Inr sse_done),
            \<lparr>rl_state = (push sse_done st)\<lparr>rs_done := True\<rparr>, rl_upstream_done = True, rl_upstream = []\<rparr>)
          else (None, \<lparr>rl_state = st, rl_upstream_done = True, rl_upstream = []\<rparr>))"
| "poll_upstream feed st (Inl e # items) =
     (Some (Inl e), \<lparr>rl_state = st, rl_upstream_done = True, rl_upstream = items\<rparr>)"
| "poll_upstream feed st (Inr bytes # items) =
     (let st = feed bytes st
      in case rs_pending st of
           c # cs \<Rightarrow> (Some (Inr c), \<lparr>rl_state = st\<lparr>rs_pending := cs\<rparr>, rl_upstream_done = False, rl_upstream = items\<rparr>)
         | [] \<Rightarrow> if rs_done st then (None, \<lparr>rl_state = st, rl_upstream_done = False, rl_upstream = items\<rparr>)
                else poll_upstream feed st items)"

text \<open>\<open>poll_next\<close>; the recursion above is the poll after \<open>wake_by_ref\<close>, which starts from the top with
  nothing pending.\<close>

definition poll_next ::
  "(string \<Rightarrow> 'a relay_state_scheme \<Rightarrow> 'a relay_state_scheme) \<Rightarrow> 'a relay_state_scheme relay \<Rightarrow>
     item option \<times> 'a relay_state_scheme relay" where
  "poll_next feed r =
     (case rs_pending (rl_state r) of
        c # cs \<Rightarrow> (Some (Inr c), r\<lparr>rl_state := (rl_state r)\<lparr>rs_pending := cs\<rparr>\<rparr>)
      | [] \<Rightarrow>
          if rs_done (rl_state r) then (None, r)
          else if rl_upstream_done r then (None, r)
          else poll_upstream feed (rl_state r) (rl_upstream r))"

lemma poll_upstream_progress:
  "poll_upstream feed st items = (Some x, r) \<Longrightarrow>
     length (rl_upstream r) + (if rl_upstream_done r then 0 else 1) < length items + 1"
  by (induction feed st items arbitrary: x r rule: poll_upstream.induct)
    (force simp: Let_def split: list.splits if_splits)+

function collect ::
  "(string \<Rightarrow> 'a relay_state_scheme \<Rightarrow> 'a relay_state_scheme) \<Rightarrow> 'a relay_state_scheme relay \<Rightarrow> item list" where
  "collect feed r = (case poll_next feed r of (None, _) \<Rightarrow> [] | (Some x, r') \<Rightarrow> x # collect feed r')"
  by pat_completeness auto
termination
proof (relation "measures [\<lambda>(feed, r). length (rl_upstream r) + (if rl_upstream_done r then 0 else 1),
    \<lambda>(feed, r). length (rs_pending (rl_state r))]")
  fix feed :: "string \<Rightarrow> 'a relay_state_scheme \<Rightarrow> 'a relay_state_scheme" and r r' x x2
  assume "(x, r') = poll_next feed r" "x = Some x2"
  then show "((feed, r'), feed, r) \<in> measures [\<lambda>(feed, r). length (rl_upstream r) + (if rl_upstream_done r then 0 else 1),
      \<lambda>(feed, r). length (rs_pending (rl_state r))]"
    using poll_upstream_progress [of feed "rl_state r" "rl_upstream r" x2 r']
    by (cases "rs_pending (rl_state r)") (auto simp: poll_next_def split: if_splits)
qed simp

declare collect.simps [simp del]

section \<open>What a relay yields\<close>

abbreviation running :: "'a relay_state_scheme \<Rightarrow> item list \<Rightarrow> 'a relay_state_scheme relay" where
  "running st items \<equiv> \<lparr>rl_state = st, rl_upstream_done = False, rl_upstream = items\<rparr>"

abbreviation clear :: "'a relay_state_scheme \<Rightarrow> 'a relay_state_scheme" where
  "clear st \<equiv> st\<lparr>rs_pending := []\<rparr>"

lemma collect_pending:
  "collect feed r = map Inr (rs_pending (rl_state r)) @ collect feed (r\<lparr>rl_state := clear (rl_state r)\<rparr>)"
proof (induction "rs_pending (rl_state r)" arbitrary: r)
  case Nil
  have "(rl_state r)\<lparr>rs_pending := rs_pending (rl_state r)\<rparr> = rl_state r" by simp
  then have "clear (rl_state r) = rl_state r" using Nil by metis
  moreover have "r\<lparr>rl_state := rl_state r\<rparr> = r" by simp
  ultimately show ?case using Nil by (metis append_Nil list.map(1))
next
  case (Cons c cs)
  have "collect feed r = Inr c # collect feed (r\<lparr>rl_state := (rl_state r)\<lparr>rs_pending := cs\<rparr>\<rparr>)"
    by (subst collect.simps) (simp add: poll_next_def Cons.hyps(2) [symmetric])
  also have "collect feed (r\<lparr>rl_state := (rl_state r)\<lparr>rs_pending := cs\<rparr>\<rparr>) =
      map Inr cs @ collect feed (r\<lparr>rl_state := clear (rl_state r)\<rparr>)"
    using Cons.hyps(1) [of "r\<lparr>rl_state := (rl_state r)\<lparr>rs_pending := cs\<rparr>\<rparr>"] by simp
  finally show ?case by (simp add: Cons.hyps(2) [symmetric])
qed

lemma collect_done:
  "rs_pending (rl_state r) = [] \<Longrightarrow> rs_done (rl_state r) \<or> rl_upstream_done r \<Longrightarrow> collect feed r = []"
  by (subst collect.simps) (auto simp: poll_next_def)

lemma collect_feed:
  assumes "rs_pending st = []" and "\<not> rs_done st"
  shows "collect feed (running st (Inr b # items)) = collect feed (running (feed b st) items)"
proof (cases "rs_pending (feed b st)")
  case Nil
  show ?thesis
  proof (cases "rs_done (feed b st)")
    case True
    then have "collect feed (running st (Inr b # items)) = []"
      using assms Nil by (subst collect.simps) (simp add: poll_next_def Let_def)
    then show ?thesis using True Nil by (simp add: collect_done)
  next
    case False
    then show ?thesis
      using assms Nil by (subst (1 2) collect.simps) (simp add: poll_next_def Let_def)
  qed
next
  case (Cons c cs)
  then show ?thesis
    using assms by (subst (1 2) collect.simps) (simp add: poll_next_def Let_def)
qed

lemma collect_end:
  assumes "rs_pending st = []" and "\<not> rs_done st"
  shows "collect feed (running st []) = [Inr sse_done, Inr sse_done]"
proof -
  have "collect feed (running st []) =
      Inr sse_done # collect feed \<lparr>rl_state = (push sse_done st)\<lparr>rs_done := True\<rparr>, rl_upstream_done = True, rl_upstream = []\<rparr>"
    using assms by (subst collect.simps) (simp add: poll_next_def)
  also have "collect feed \<lparr>rl_state = (push sse_done st)\<lparr>rs_done := True\<rparr>, rl_upstream_done = True, rl_upstream = []\<rparr> =
      [Inr sse_done]"
    using assms by (subst collect_pending) (simp add: push_def collect_done)
  finally show ?thesis .
qed

lemma collect_error:
  assumes "rs_pending st = []" and "\<not> rs_done st"
  shows "collect feed (running st (Inl e # items)) = [Inl e]"
  using assms by (subst collect.simps) (simp add: poll_next_def collect_done)

section \<open>Relays that only append\<close>

text \<open>Nothing follows the end of the message.\<close>

definition quiet_after_stop ::
  "(string \<Rightarrow> 'a relay_state_scheme \<Rightarrow> 'a relay_state_scheme) \<Rightarrow> 'a relay_state_scheme \<Rightarrow> string \<Rightarrow> bool" where
  "quiet_after_stop feed st bytes =
     (\<forall>a b. bytes = a @ b \<longrightarrow> rs_done (feed a st) \<longrightarrow> rs_pending (feed bytes st) = rs_pending (feed a st))"

definition ending :: "'a relay_state_scheme \<Rightarrow> item list" where
  "ending st = map Inr (rs_pending st) @ (if rs_done st then [] else [Inr sse_done, Inr sse_done])"

text \<open>
  The contract under which the relayed output is a function of the upstream bytes: feeding is a
  line-fed loop that appends to what is pending without looking at it, and never unsets \<open>done\<close>.
\<close>

locale appending_relay =
  fixes feed :: "string \<Rightarrow> 'a relay_state_scheme \<Rightarrow> 'a relay_state_scheme"
  assumes feed_append: "feed (a @ b) st = feed b (feed a st)"
    and feed_pending: "feed b (st\<lparr>rs_pending := p @ rs_pending st\<rparr>) = (feed b st)\<lparr>rs_pending := p @ rs_pending (feed b st)\<rparr>"
    and feed_done: "rs_done st \<Longrightarrow> rs_done (feed b st)"
    and feed_Nil: "nl \<notin> set (rs_buffer st) \<Longrightarrow> feed [] st = st"
    and feed_buffer: "nl \<notin> set (rs_buffer (feed b st))"
begin

lemma feed_clear: "rs_pending (feed b st) = rs_pending st @ rs_pending (feed b (clear st))"
  "rs_done (feed b (clear st)) = rs_done (feed b st)"
  "clear (feed b (clear st)) = clear (feed b st)"
  using feed_pending [where b = b and st = "clear st" and p = "rs_pending st"] by simp_all

lemma collect_chunks_clear:
  assumes "quiet_after_stop feed st (concat cs)" and "\<not> rs_done st" and "rs_pending st = []" and "nl \<notin> set (rs_buffer st)"
  shows "collect feed (running st (map Inr cs)) = ending (feed (concat cs) st)"
  using assms
proof (induction cs arbitrary: st)
  case Nil
  then show ?case by (simp add: collect_end ending_def feed_Nil)
next
  case (Cons c cs)
  let ?s = "feed c st" and ?B = "concat cs"
  have step: "collect feed (running st (map Inr (c # cs))) = map Inr (rs_pending ?s) @ collect feed (running (clear ?s) (map Inr cs))"
    using Cons.prems by (simp add: collect_feed) (subst collect_pending, simp)
  have all: "feed (concat (c # cs)) st = feed ?B ?s" by (simp add: feed_append)
  show ?case
  proof (cases "rs_done ?s")
    case True
    have "rs_pending (feed ?B ?s) = rs_pending ?s"
      using Cons.prems(1) True unfolding quiet_after_stop_def
      by (metis all concat.simps(2))
    then show ?thesis
      using True by (simp add: step [simplified] all [simplified] ending_def collect_done feed_done)
  next
    case False
    have "quiet_after_stop feed (clear ?s) ?B"
      unfolding quiet_after_stop_def
    proof (intro allI impI)
      fix a b
      assume ab: "?B = a @ b" and d: "rs_done (feed a (clear ?s))"
      have "concat (c # cs) = (c @ a) @ b" using ab by simp
      moreover have "rs_done (feed (c @ a) st)" using d by (simp add: feed_append feed_clear(2))
      ultimately have "rs_pending (feed (concat (c # cs)) st) = rs_pending (feed (c @ a) st)"
        using Cons.prems(1) unfolding quiet_after_stop_def by blast
      then have "rs_pending (feed ?B ?s) = rs_pending (feed a ?s)" by (simp add: feed_append)
      then show "rs_pending (feed ?B (clear ?s)) = rs_pending (feed a (clear ?s))"
        using feed_clear(1) [of ?B ?s] feed_clear(1) [of a ?s] by simp
    qed
    then have "collect feed (running (clear ?s) (map Inr cs)) = ending (feed ?B (clear ?s))"
      using False by (intro Cons.IH) (simp_all add: feed_buffer)
    then show ?thesis
      using feed_clear(1) [of ?B ?s] by (simp add: step [simplified] all [simplified] ending_def feed_clear(2))
  qed
qed

end

end
