(* ===== verification/Anthropic_Stream.thy ===== *)
theory Anthropic_Stream
  imports Stream_Relay
begin

text \<open>
  The relay from Anthropic's event stream to OpenAI chunks (\<open>provider/anthropic_stream.rs\<close>).
\<close>

definition anthropic_new :: "string \<Rightarrow> u64 \<Rightarrow> string \<Rightarrow> relay_state" where
  "anthropic_new uuid now model =
     \<lparr>rs_message_id = ''chatcmpl-'' @ uuid, rs_model = model, rs_created = now, rs_content_idx = 0,
      rs_streamed_tokens = 0, rs_finish_reason = None, rs_buffer = [], rs_pending = [], rs_done = False\<rparr>"

definition get_str :: "json option \<Rightarrow> string \<Rightarrow> string option" where
  "get_str v k = Option.bind (Option.bind v (\<lambda>v. jget v k)) as_str"

definition str_or_empty :: "string option \<Rightarrow> string" where
  "str_or_empty x = (case x of Some s \<Rightarrow> s | None \<Rightarrow> [])"

definition on_message_start :: "json_lib \<Rightarrow> json \<Rightarrow> relay_state \<Rightarrow> relay_state" where
  "on_message_start lib v st =
     (let st = (case jget v ''message'' of
            None \<Rightarrow> st
          | Some msg \<Rightarrow>
              let st = (case get_str (Some msg) ''id'' of Some i \<Rightarrow> st\<lparr>rs_message_id := i\<rparr> | None \<Rightarrow> st)
              in case get_str (Some msg) ''model'' of Some m \<Rightarrow> st\<lparr>rs_model := m\<rparr> | None \<Rightarrow> st)
      in push (emit_chunk lib st ''assistant'' None False) st)"

definition on_block_delta :: "json_lib \<Rightarrow> json \<Rightarrow> relay_state \<Rightarrow> relay_state" where
  "on_block_delta lib v st =
     (let delta = jget v ''delta'';
          delta_type = str_or_empty (get_str delta ''type'');
          s = (if delta_type = ''thinking_delta'' then str_or_empty (get_str delta ''thinking'')
               else str_or_empty (get_str delta ''text''));
          st = st\<lparr>rs_content_idx := (case Option.bind (jget v ''index'') as_u64 of Some i \<Rightarrow> i | None \<Rightarrow> 0)\<rparr>
      in push (emit_chunk lib st s None (delta_type = ''thinking_delta'')) st)"

definition stop_reason :: "string \<Rightarrow> string" where
  "stop_reason s =
     (if s = ''end_turn'' then ''stop''
      else if s = ''max_tokens'' then ''length''
      else if s = ''stop_sequence'' then ''stop''
      else if s = ''tool_use'' then ''tool_calls''
      else ''stop'')"

definition on_message_delta :: "json_lib \<Rightarrow> json \<Rightarrow> relay_state \<Rightarrow> relay_state" where
  "on_message_delta lib v st =
     (let st = st\<lparr>rs_finish_reason := map_option stop_reason (get_str (jget v ''delta'') ''stop_reason'')\<rparr>;
          st = (case Option.bind (Option.bind (jget v ''usage'') (\<lambda>u. jget u ''output_tokens'')) as_u64 of
            Some ot \<Rightarrow> st\<lparr>rs_streamed_tokens := ucast ot\<rparr> | None \<Rightarrow> st)
      in push (emit_chunk lib st [] (rs_finish_reason st) False) st)"

definition on_message_stop :: "json_lib \<Rightarrow> relay_state \<Rightarrow> relay_state" where
  "on_message_stop lib st = (push (usage_chunk lib st 0 (rs_streamed_tokens st)) st)\<lparr>rs_done := True\<rparr>"

definition anthropic_event :: "json_lib \<Rightarrow> json \<Rightarrow> relay_state \<Rightarrow> relay_state" where
  "anthropic_event lib v st =
     (let ev_type = str_or_empty (get_str (Some v) ''type'')
      in if ev_type = ''message_start'' then on_message_start lib v st
         else if ev_type = ''content_block_delta'' then on_block_delta lib v st
         else if ev_type = ''message_delta'' then on_message_delta lib v st
         else if ev_type = ''message_stop'' then on_message_stop lib st
         else st)"

definition anthropic_process_line :: "json_lib \<Rightarrow> string \<Rightarrow> relay_state \<Rightarrow> relay_state" where
  "anthropic_process_line lib l st =
     (case strip_prefix ''data: '' l of
        None \<Rightarrow> st
      | Some d \<Rightarrow>
          if d = [] then st
          else (case jl_parse lib d of Inl _ \<Rightarrow> st | Inr v \<Rightarrow> anthropic_event lib v st))"

definition anthropic_line :: "json_lib \<Rightarrow> string \<Rightarrow> relay_state \<Rightarrow> relay_state" where
  "anthropic_line lib raw st =
     (let l = trim (utf8_or_empty raw) in if l = [] then st else anthropic_process_line lib l st)"

definition anthropic_feed :: "json_lib \<Rightarrow> string \<Rightarrow> relay_state \<Rightarrow> relay_state" where
  "anthropic_feed lib bytes st =
     (case drain_lines (anthropic_line lib) (rs_buffer st @ bytes) st of (rest, st') \<Rightarrow> st'\<lparr>rs_buffer := rest\<rparr>)"

definition relay_anthropic_stream ::
  "json_lib \<Rightarrow> string \<Rightarrow> u64 \<Rightarrow> item list \<Rightarrow> string \<Rightarrow> item list" where
  "relay_anthropic_stream lib uuid now upstream model =
     collect (anthropic_feed lib)
       \<lparr>rl_state = anthropic_new uuid now model, rl_upstream_done = False, rl_upstream = upstream\<rparr>"

section \<open>The relay meets the contracts\<close>

text \<open>An event reads neither the buffer nor what is pending, and only appends.\<close>

lemmas handler_defs = push_def emit_chunk_def usage_chunk_def chunk_payload_def Let_def

lemma handlers_buffer:
  "on_message_start lib v (st\<lparr>rs_buffer := b\<rparr>) = (on_message_start lib v st)\<lparr>rs_buffer := b\<rparr>"
  "on_block_delta lib v (st\<lparr>rs_buffer := b\<rparr>) = (on_block_delta lib v st)\<lparr>rs_buffer := b\<rparr>"
  "on_message_delta lib v (st\<lparr>rs_buffer := b\<rparr>) = (on_message_delta lib v st)\<lparr>rs_buffer := b\<rparr>"
  "on_message_stop lib (st\<lparr>rs_buffer := b\<rparr>) = (on_message_stop lib st)\<lparr>rs_buffer := b\<rparr>"
  subgoal
    by (cases "jget v ''message''"; cases "get_str (jget v ''message'') ''id''"; cases "get_str (jget v ''message'') ''model''")
      (simp_all add: on_message_start_def handler_defs)
  subgoal by (simp add: on_block_delta_def handler_defs)
  subgoal
    by (cases "Option.bind (Option.bind (jget v ''usage'') (\<lambda>u. jget u ''output_tokens'')) as_u64")
      (simp_all add: on_message_delta_def handler_defs)
  subgoal by (simp add: on_message_stop_def handler_defs)
  done

lemma handlers_pending:
  "on_message_start lib v (st\<lparr>rs_pending := p @ rs_pending st\<rparr>) =
     (on_message_start lib v st)\<lparr>rs_pending := p @ rs_pending (on_message_start lib v st)\<rparr>"
  "on_block_delta lib v (st\<lparr>rs_pending := p @ rs_pending st\<rparr>) =
     (on_block_delta lib v st)\<lparr>rs_pending := p @ rs_pending (on_block_delta lib v st)\<rparr>"
  "on_message_delta lib v (st\<lparr>rs_pending := p @ rs_pending st\<rparr>) =
     (on_message_delta lib v st)\<lparr>rs_pending := p @ rs_pending (on_message_delta lib v st)\<rparr>"
  "on_message_stop lib (st\<lparr>rs_pending := p @ rs_pending st\<rparr>) =
     (on_message_stop lib st)\<lparr>rs_pending := p @ rs_pending (on_message_stop lib st)\<rparr>"
  subgoal
    by (cases "jget v ''message''"; cases "get_str (jget v ''message'') ''id''"; cases "get_str (jget v ''message'') ''model''")
      (simp_all add: on_message_start_def handler_defs)
  subgoal by (simp add: on_block_delta_def handler_defs)
  subgoal
    by (cases "Option.bind (Option.bind (jget v ''usage'') (\<lambda>u. jget u ''output_tokens'')) as_u64")
      (simp_all add: on_message_delta_def handler_defs)
  subgoal by (simp add: on_message_stop_def handler_defs)
  done

lemma handlers_done:
  "rs_done st \<Longrightarrow> rs_done (on_message_start lib v st)" "rs_done st \<Longrightarrow> rs_done (on_block_delta lib v st)"
  "rs_done st \<Longrightarrow> rs_done (on_message_delta lib v st)" "rs_done (on_message_stop lib st)"
  by (simp_all add: on_message_start_def on_block_delta_def on_message_delta_def on_message_stop_def push_def Let_def
      split: option.split)

lemma event_buffer: "anthropic_event lib v (st\<lparr>rs_buffer := b\<rparr>) = (anthropic_event lib v st)\<lparr>rs_buffer := b\<rparr>"
  by (simp add: anthropic_event_def Let_def handlers_buffer)

lemma event_pending:
  "anthropic_event lib v (st\<lparr>rs_pending := p @ rs_pending st\<rparr>) =
     (anthropic_event lib v st)\<lparr>rs_pending := p @ rs_pending (anthropic_event lib v st)\<rparr>"
  by (simp add: anthropic_event_def Let_def handlers_pending)

lemma event_done: "rs_done st \<Longrightarrow> rs_done (anthropic_event lib v st)"
  by (simp add: anthropic_event_def Let_def handlers_done)

lemma line_buffer: "anthropic_line lib l (st\<lparr>rs_buffer := b\<rparr>) = (anthropic_line lib l st)\<lparr>rs_buffer := b\<rparr>"
  by (simp add: anthropic_line_def anthropic_process_line_def Let_def event_buffer split: option.split sum.split)

lemma line_pending:
  "anthropic_line lib l (st\<lparr>rs_pending := p @ rs_pending st\<rparr>) =
     (anthropic_line lib l st)\<lparr>rs_pending := p @ rs_pending (anthropic_line lib l st)\<rparr>"
  by (simp add: anthropic_line_def anthropic_process_line_def Let_def event_pending split: option.split sum.split)

lemma line_done: "rs_done st \<Longrightarrow> rs_done (anthropic_line lib l st)"
  by (simp add: anthropic_line_def anthropic_process_line_def Let_def event_done split: option.split sum.split)

interpretation ant_lines: line_fed "anthropic_feed lib" rs_buffer "\<lambda>b st. st\<lparr>rs_buffer := b\<rparr>" "anthropic_line lib"
  for lib
  by unfold_locales (simp_all add: anthropic_feed_def line_buffer)

interpretation ant: appending_relay "anthropic_feed lib" for lib
proof
  fix a b p and st :: relay_state
  show "anthropic_feed lib (a @ b) st = anthropic_feed lib b (anthropic_feed lib a st)"
    by (rule ant_lines.feed_append)
  show "nl \<notin> set (rs_buffer st) \<Longrightarrow> anthropic_feed lib [] st = st" by (rule ant_lines.feed_Nil)
  show "nl \<notin> set (rs_buffer (anthropic_feed lib b st))" by (rule ant_lines.feed_buf)
  obtain r s1 where d: "drain_lines (anthropic_line lib) (rs_buffer st @ b) st = (r, s1)" by force
  obtain r' s2 where d': "drain_lines (anthropic_line lib) (rs_buffer st @ b) (st\<lparr>rs_pending := p @ rs_pending st\<rparr>) = (r', s2)" by force
  have "r = r' \<and> s2 = s1\<lparr>rs_pending := p @ rs_pending s1\<rparr>"
    by (rule drain_lines_rel [where R = "\<lambda>s t. t = s\<lparr>rs_pending := p @ rs_pending s\<rparr>", OF d d']) (simp_all add: line_pending)
  then show "anthropic_feed lib b (st\<lparr>rs_pending := p @ rs_pending st\<rparr>) =
      (anthropic_feed lib b st)\<lparr>rs_pending := p @ rs_pending (anthropic_feed lib b st)\<rparr>"
    using d d' by (simp add: anthropic_feed_def)
  assume "rs_done st"
  then have "rs_done s1"
    using drain_lines_rel [where R = "\<lambda>s t. rs_done s", OF d d] line_done by blast
  then show "rs_done (anthropic_feed lib b st)" using d by (simp add: anthropic_feed_def)
qed

section \<open>What the client receives\<close>

text \<open>
  C33. What a client receives from the Anthropic relay does not depend on how the network cuts the
  upstream bytes into chunks, as long as nothing follows the end of the message: it is the chunks
  made of the complete lines, in order. A stream that was ended by its \<open>message_stop\<close> carries no
  \<open>[DONE]\<close> marker, one that breaks off carries the marker twice.
\<close>

theorem anthropic_relay_chunking:
  assumes "quiet_after_stop (anthropic_feed lib) (anthropic_new uuid now model) (concat cs)"
  shows "relay_anthropic_stream lib uuid now (map Inr cs) model =
    (let st = anthropic_feed lib (concat cs) (anthropic_new uuid now model)
     in map Inr (rs_pending st) @ (if rs_done st then [] else [Inr sse_done, Inr sse_done]))"
  unfolding relay_anthropic_stream_def Let_def ending_def [symmetric]
  by (rule ant.collect_chunks_clear [OF assms]) (simp_all add: anthropic_new_def)

definition ping_lib :: json_lib where
  "ping_lib = \<lparr>jl_parse = (\<lambda>s. if s = ''x'' then Inr (JObj [(''type'', JStr ''message_stop'')]) else Inl []),
     jl_write = (\<lambda>_. ''w'')\<rparr>"

lemma ping_feed: "anthropic_feed ping_lib (''data: x'' @ [nl]) (anthropic_new ''u'' 0 ''m'') =
    (anthropic_new ''u'' 0 ''m'')\<lparr>rs_pending := [sse_data ''w''], rs_done := True\<rparr>"
proof -
  have t: "trim ''data: x'' = ''data: x''" "valid_utf8 ''data: x''" by code_simp+
  have "anthropic_event ping_lib (JObj [(''type'', JStr ''message_stop'')]) (anthropic_new ''u'' 0 ''m'') =
      (anthropic_new ''u'' 0 ''m'')\<lparr>rs_pending := [sse_data ''w''], rs_done := True\<rparr>"
    by (simp add: anthropic_event_def str_or_empty_def get_str_def on_message_stop_def push_def anthropic_new_def
        usage_chunk_def ping_lib_def)
  then have "anthropic_process_line ping_lib ''data: x'' (anthropic_new ''u'' 0 ''m'') =
      (anthropic_new ''u'' 0 ''m'')\<lparr>rs_pending := [sse_data ''w''], rs_done := True\<rparr>"
    by (simp add: anthropic_process_line_def strip_prefix_def) (simp add: ping_lib_def)
  then have "anthropic_line ping_lib ''data: x'' (anthropic_new ''u'' 0 ''m'') =
      (anthropic_new ''u'' 0 ''m'')\<lparr>rs_pending := [sse_data ''w''], rs_done := True\<rparr>"
    using t by (simp add: anthropic_line_def utf8_or_empty_def from_utf8_def)
  then show ?thesis
    using drain_lines_line [of "''data: x''" "anthropic_line ping_lib" "[]" "anthropic_new ''u'' 0 ''m''"]
    by (simp add: anthropic_feed_def anthropic_new_def drain_lines_None)
qed

theorem anthropic_relay_chunking_witness:
  "relay_anthropic_stream ping_lib ''u'' 0 [Inr ''data'', Inr (CHR '':'' # CHR '' '' # ''x'' @ [nl])] ''m'' = [Inr (sse_data ''w'')]"
proof -
  let ?st = "anthropic_new ''u'' 0 ''m''"
  have cat: "concat [''data'', CHR '':'' # CHR '' '' # ''x'' @ [nl]] = ''data: x'' @ [nl]" by simp
  have "rs_pending (anthropic_feed ping_lib (''data: x'' @ [nl]) ?st) = rs_pending (anthropic_feed ping_lib a ?st)"
    if "''data: x'' @ [nl] = a @ b" "rs_done (anthropic_feed ping_lib a ?st)" for a b
  proof (cases b)
    case Nil
    then show ?thesis using that by simp
  next
    case (Cons c cs)
    have "butlast (''data: x'' @ [nl]) = a @ butlast (c # cs)"
      unfolding that(1) Cons by (simp only: butlast_append list.distinct if_False)
    then have "''data: x'' = a @ butlast (c # cs)" by (simp only: butlast_snoc)
    moreover have "nl \<notin> set ''data: x''" by simp
    ultimately have "nl \<notin> set a" by (metis Un_iff set_append)
    then have "anthropic_feed ping_lib a ?st = ?st\<lparr>rs_buffer := a\<rparr>"
      by (simp add: anthropic_feed_def anthropic_new_def drain_lines_None)
    then show ?thesis using that(2) by (simp add: anthropic_new_def)
  qed
  then have "quiet_after_stop (anthropic_feed ping_lib) ?st (concat [''data'', CHR '':'' # CHR '' '' # ''x'' @ [nl]])"
    unfolding cat quiet_after_stop_def by blast
  from anthropic_relay_chunking [OF this] show ?thesis
    unfolding cat ping_feed by simp
qed

end
