(* ===== verification/Gemini_Stream.thy ===== *)
theory Gemini_Stream
  imports Stream_Relay Anthropic_Stream
begin

text \<open>
  The relay from Gemini's stream to OpenAI chunks (\<open>provider/gemini_stream.rs\<close>). Its state is the
  common one and the number of prompt tokens.
\<close>

record gemini_state = relay_state +
  gs_prompt_tokens :: u32

definition gemini_new :: "string \<Rightarrow> u64 \<Rightarrow> string \<Rightarrow> gemini_state" where
  "gemini_new uuid now model =
     \<lparr>rs_message_id = ''chatcmpl-'' @ uuid, rs_model = model, rs_created = now, rs_content_idx = 0,
      rs_streamed_tokens = 0, rs_finish_reason = None, rs_buffer = [], rs_pending = [], rs_done = False,
      gs_prompt_tokens = 0\<rparr>"

definition gemini_finish :: "string \<Rightarrow> string" where
  "gemini_finish s =
     (if s = ''STOP'' then ''stop''
      else if s = ''MAX_TOKENS'' then ''length''
      else if s = ''SAFETY'' \<or> s = ''RECITATION'' then ''content_filter''
      else ''stop'')"

definition gemini_usage :: "json \<Rightarrow> gemini_state \<Rightarrow> gemini_state" where
  "gemini_usage v st =
     (case jget v ''usageMetadata'' of
        None \<Rightarrow> st
      | Some us \<Rightarrow>
          let st = (case Option.bind (jget us ''promptTokenCount'') as_u64 of
                Some pt \<Rightarrow> st\<lparr>gs_prompt_tokens := ucast pt\<rparr> | None \<Rightarrow> st)
          in case Option.bind (jget us ''candidatesTokenCount'') as_u64 of
               Some ct \<Rightarrow> st\<lparr>rs_streamed_tokens := ucast ct\<rparr> | None \<Rightarrow> st)"

text \<open>The texts of the parts, and whether some part is a thought.\<close>

fun gather_parts :: "json list \<Rightarrow> string \<times> bool" where
  "gather_parts [] = ([], False)"
| "gather_parts (p # ps) =
     (case gather_parts ps of (s, th) \<Rightarrow>
        (str_or_empty (get_str (Some p) ''text'') @ s,
         (case Option.bind (jget p ''thought'') as_bool of Some b \<Rightarrow> b | None \<Rightarrow> False) \<or> th))"

definition gemini_emit :: "json_lib \<Rightarrow> string \<Rightarrow> bool \<Rightarrow> gemini_state \<Rightarrow> gemini_state" where
  "gemini_emit lib s reasoning st =
     (let st = (if rs_pending st = [] then push (emit_chunk lib st ''assistant'' None False) st else st);
          st = (if s \<noteq> [] then push (emit_chunk lib st s (rs_finish_reason st) reasoning) st
                else if rs_finish_reason st \<noteq> None then push (emit_chunk lib st [] (rs_finish_reason st) False) st
                else st)
      in if rs_finish_reason st \<noteq> None
         then (push (usage_chunk lib st (gs_prompt_tokens st) (gs_prompt_tokens st + rs_streamed_tokens st)) st)\<lparr>rs_done := True\<rparr>
         else st)"

definition gemini_candidate :: "json_lib \<Rightarrow> json \<Rightarrow> gemini_state \<Rightarrow> gemini_state" where
  "gemini_candidate lib candidate st =
     (case Option.bind (Option.bind (jget candidate ''content'') (\<lambda>c. jget c ''parts'')) as_array of
        None \<Rightarrow> st
      | Some parts \<Rightarrow>
          (case gather_parts parts of (s, reasoning) \<Rightarrow>
             let finish_reason = map_option gemini_finish
                   (case get_str (Some candidate) ''finishReason'' of
                      Some f \<Rightarrow> if f \<noteq> ''null'' then Some f else None | None \<Rightarrow> None);
                 st = (if finish_reason \<noteq> None \<and> finish_reason \<noteq> rs_finish_reason st
                       then st\<lparr>rs_finish_reason := finish_reason\<rparr> else st)
             in gemini_emit lib s reasoning st))"

definition gemini_process_line :: "json_lib \<Rightarrow> string \<Rightarrow> gemini_state \<Rightarrow> gemini_state" where
  "gemini_process_line lib l st =
     (case jl_parse lib l of
        Inl _ \<Rightarrow> st
      | Inr v \<Rightarrow>
          let st = gemini_usage v st
          in case Option.bind (jget v ''candidates'') as_array of
               Some candidates \<Rightarrow> fold (gemini_candidate lib) candidates st
             | None \<Rightarrow> st)"

definition gemini_line :: "json_lib \<Rightarrow> string \<Rightarrow> gemini_state \<Rightarrow> gemini_state" where
  "gemini_line lib raw st =
     (let l = trim (utf8_or_empty raw) in if l = [] then st else gemini_process_line lib l st)"

definition gemini_feed :: "json_lib \<Rightarrow> string \<Rightarrow> gemini_state \<Rightarrow> gemini_state" where
  "gemini_feed lib bytes st =
     (case drain_lines (gemini_line lib) (rs_buffer st @ bytes) st of (rest, st') \<Rightarrow> st'\<lparr>rs_buffer := rest\<rparr>)"

definition relay_gemini_stream :: "json_lib \<Rightarrow> string \<Rightarrow> u64 \<Rightarrow> item list \<Rightarrow> string \<Rightarrow> item list" where
  "relay_gemini_stream lib uuid now upstream model =
     collect (gemini_feed lib)
       \<lparr>rl_state = gemini_new uuid now model, rl_upstream_done = False, rl_upstream = upstream\<rparr>"

section \<open>Server-sent events are not read\<close>

definition event_stream_lines :: "string \<Rightarrow> bool" where
  "event_stream_lines bytes =
     list_all (\<lambda>l. trim (utf8_or_empty l) = [] \<or> starts_with (trim (utf8_or_empty l)) ''data:'') (lines_of bytes)"

text \<open>No JSON text begins with the letters of the field name.\<close>

definition rejects_data :: "json_lib \<Rightarrow> bool" where
  "rejects_data lib = (\<forall>s. starts_with s ''data:'' \<longrightarrow> (\<exists>e. jl_parse lib s = Inl e))"

lemma gemini_line_idle:
  assumes "rejects_data lib" and "trim (utf8_or_empty l) = [] \<or> starts_with (trim (utf8_or_empty l)) ''data:''"
  shows "gemini_line lib l st = st"
proof (cases "trim (utf8_or_empty l) = []")
  case True
  then show ?thesis by (simp add: gemini_line_def)
next
  case False
  with assms obtain e where "jl_parse lib (trim (utf8_or_empty l)) = Inl e"
    unfolding rejects_data_def by blast
  then show ?thesis by (simp add: gemini_line_def gemini_process_line_def Let_def)
qed

lemma drain_idle:
  assumes "rejects_data lib" and "event_stream_lines (buf @ rest)"
  shows "snd (drain_lines (gemini_line lib) buf st) = st"
proof -
  obtain ls where "lines_of (buf @ rest) = lines_of buf @ ls" using lines_of_prefix by blast
  with assms(2) have "list_all (\<lambda>l. trim (utf8_or_empty l) = [] \<or> starts_with (trim (utf8_or_empty l)) ''data:'') (lines_of buf)"
    by (simp add: event_stream_lines_def)
  moreover have "list_all (\<lambda>l. trim (utf8_or_empty l) = [] \<or> starts_with (trim (utf8_or_empty l)) ''data:'') ls \<Longrightarrow>
      fold (gemini_line lib) ls st = st" for ls
    by (induction ls) (simp_all add: gemini_line_idle [OF assms(1)])
  ultimately have "fold (gemini_line lib) (lines_of buf) st = st" by blast
  then show ?thesis by (simp add: drain_lines_fold)
qed

interpretation gem_lines: line_fed "gemini_feed lib" rs_buffer "\<lambda>b st. st\<lparr>rs_buffer := b\<rparr>" "gemini_line lib"
  for lib
proof
  have emit: "gemini_emit lib s r (st\<lparr>rs_buffer := b\<rparr>) = (gemini_emit lib s r st)\<lparr>rs_buffer := b\<rparr>" for s r b and st :: gemini_state
    unfolding gemini_emit_def Let_def
    by (cases "rs_pending st = []"; cases "s = []"; cases "rs_finish_reason st = None") (simp_all add: push_def)
  have cand: "gemini_candidate lib c (st\<lparr>rs_buffer := b\<rparr>) = (gemini_candidate lib c st)\<lparr>rs_buffer := b\<rparr>" for c b and st :: gemini_state
  proof (cases "Option.bind (Option.bind (jget c ''content'') (\<lambda>c. jget c ''parts'')) as_array")
    case None
    then show ?thesis by (simp add: gemini_candidate_def)
  next
    case (Some parts)
    have comm: "(st\<lparr>rs_buffer := b, rs_finish_reason := f\<rparr>) = (st\<lparr>rs_finish_reason := f, rs_buffer := b\<rparr>)" for f by simp
    have "gemini_emit lib s r (st\<lparr>rs_buffer := b, rs_finish_reason := f\<rparr>) =
        (gemini_emit lib s r (st\<lparr>rs_finish_reason := f\<rparr>))\<lparr>rs_buffer := b\<rparr>" for s r f
      unfolding comm by (rule emit)
    with Some emit show ?thesis
      by (cases "gather_parts parts") (simp add: gemini_candidate_def Let_def)
  qed
  have "fold (gemini_candidate lib) cs (st\<lparr>rs_buffer := b\<rparr>) = (fold (gemini_candidate lib) cs st)\<lparr>rs_buffer := b\<rparr>" for cs b and st :: gemini_state
    by (induction cs arbitrary: st) (simp_all add: cand)
  moreover have "gemini_usage v (st\<lparr>rs_buffer := b\<rparr>) = (gemini_usage v st)\<lparr>rs_buffer := b\<rparr>" for v b and st :: gemini_state
    by (simp add: gemini_usage_def Let_def split: option.split)
  ultimately show "gemini_line lib l (st\<lparr>rs_buffer := b\<rparr>) = (gemini_line lib l st)\<lparr>rs_buffer := b\<rparr>" for l b and st :: gemini_state
    by (simp add: gemini_line_def gemini_process_line_def Let_def split: option.split sum.split)
qed (simp_all add: gemini_feed_def)

text \<open>
  C34. The relay drops every server-sent event. The provider asks for the event-stream form, in which
  each line begins with \<open>data:\<close>, but the relay hands whole lines to the JSON parser; so whatever the
  upstream answers, in whatever chunks, the client receives two end markers and nothing else.
\<close>

theorem gemini_sse_dropped:
  assumes "rejects_data lib" and "event_stream_lines (concat cs)"
  shows "relay_gemini_stream lib uuid now (map Inr cs) model = [Inr sse_done, Inr sse_done]"
proof -
  let ?s0 = "gemini_new uuid now model"
  have s0: "rs_pending ?s0 = []" "\<not> rs_done ?s0" "rs_buffer ?s0 = []" by (simp_all add: gemini_new_def)
  have idle: "rs_pending (gemini_feed lib bytes ?s0) = []" "\<not> rs_done (gemini_feed lib bytes ?s0)"
    if "event_stream_lines (bytes @ rest)" for bytes rest
    using drain_idle [OF assms(1) that, of ?s0] s0 by (auto simp: gemini_feed_def split: prod.split)
  have "collect (gemini_feed lib) (running (gemini_feed lib pre ?s0) (map Inr cs)) = [Inr sse_done, Inr sse_done]"
    if "event_stream_lines (pre @ concat cs)" for pre
    using that
  proof (induction cs arbitrary: pre)
    case Nil
    then show ?case using idle [OF Nil] by (simp add: collect_end)
  next
    case (Cons c cs)
    have "collect (gemini_feed lib) (running (gemini_feed lib pre ?s0) (map Inr (c # cs))) =
        collect (gemini_feed lib) (running (gemini_feed lib (pre @ c) ?s0) (map Inr cs))"
      using idle [OF Cons.prems] by (simp add: collect_feed gem_lines.feed_append)
    then show ?case using Cons.IH [of "pre @ c"] Cons.prems by simp
  qed
  from this [of "[]"] assms(2) show ?thesis
    using gem_lines.feed_Nil [of ?s0] s0(3) by (simp add: relay_gemini_stream_def)
qed

definition strict_lib :: json_lib where
  "strict_lib = \<lparr>jl_parse = (\<lambda>s. if starts_with s ''data:'' then Inl [] else Inr JNull), jl_write = (\<lambda>_. [])\<rparr>"

theorem gemini_sse_dropped_witness:
  "relay_gemini_stream strict_lib ''u'' 0 [Inr ''data: {'', Inr (''}'' @ [nl, nl])] ''m'' = [Inr sse_done, Inr sse_done]"
proof -
  have "rejects_data strict_lib" by (simp add: rejects_data_def strict_lib_def)
  moreover have "event_stream_lines (concat [''data: {'', ''}'' @ [nl, nl]])" by code_simp
  ultimately show ?thesis using gemini_sse_dropped [of strict_lib "[''data: {'', ''}'' @ [nl, nl]]"] by simp
qed

end
