(* ===== verification/Stream_Normalize.thy ===== *)
theory Stream_Normalize
  imports Think_Tags Stream_Relay
begin

text \<open>
  The stream normaliser (\<open>server/stream_normalize.rs\<close>): a wrapper around a byte stream that cuts it into
  lines, folds the reasoning aliases of every chunk into \<open>reasoning_content\<close> and moves inlined think
  blocks there with the accumulator of \<open>Think_Tags\<close>, which lives as long as the stream.
\<close>

section \<open>Rewriting a chunk\<close>

definition reasoning_aliases :: "string list" where
  "reasoning_aliases = [''reasoning_content'', ''reasoning'', ''reasoning_text'']"

text \<open>\<open>delta.remove(key)\<close> takes the entry out whatever it is; a non-empty string is kept as a part.\<close>

definition nonempty_str :: "json option \<Rightarrow> string list" where
  "nonempty_str v = (case v of Some (JStr s) \<Rightarrow> if s \<noteq> [] then [s] else [] | _ \<Rightarrow> [])"

definition take_alias :: "string \<Rightarrow> string list \<times> json_map \<Rightarrow> string list \<times> json_map" where
  "take_alias key pd = (case pd of (parts, delta) \<Rightarrow> (parts @ nonempty_str (map_of delta key), obj_remove key delta))"

definition fold_reasoning_aliases :: "json_map \<Rightarrow> json_map" where
  "fold_reasoning_aliases delta =
     (let (parts, delta) = fold take_alias reasoning_aliases ([], delta);
          thinking = nonempty_str (map_of delta ''thinking'');
          (parts, delta) = (if thinking \<noteq> [] then (parts @ thinking, obj_remove ''thinking'' delta) else (parts, delta))
      in if parts \<noteq> [] then obj_insert ''reasoning_content'' (JStr (concat parts)) delta else delta)"

definition append_reasoning :: "json_map \<Rightarrow> string \<Rightarrow> json_map" where
  "append_reasoning delta extra =
     (if extra = [] then delta
      else case map_of delta ''reasoning_content'' of
             Some (JStr existing) \<Rightarrow> obj_insert ''reasoning_content'' (JStr (existing @ extra)) delta
           | _ \<Rightarrow> obj_insert ''reasoning_content'' (JStr extra) delta)"

fun has_payload :: "json \<Rightarrow> bool" where
  "has_payload JNull = False"
| "has_payload (JStr s) = (s \<noteq> [])"
| "has_payload (JArr a) = (a \<noteq> [])"
| "has_payload (JObj m) = (m \<noteq> [])"
| "has_payload _ = True"

definition delta_has_payload :: "json_map \<Rightarrow> bool" where
  "delta_has_payload delta = list_ex (\<lambda>(_, v). has_payload v) delta"

fun collect_texts :: "think_event \<Rightarrow> string \<times> string \<Rightarrow> string \<times> string" where
  "collect_texts (Text s) (t, r) = (t @ s, r)"
| "collect_texts (Reasoning s) (t, r) = (t, r @ s)"
| "collect_texts Pending (t, r) = (t, r)"

definition delta_content :: "json_map \<Rightarrow> string option" where
  "delta_content delta =
     (case map_of delta ''content'' of Some (JStr s) \<Rightarrow> if s \<noteq> [] then Some s else None | _ \<Rightarrow> None)"

definition rewrite_delta :: "accumulator \<Rightarrow> json_map \<Rightarrow> accumulator \<times> json_map" where
  "rewrite_delta acc delta =
     (let delta = fold_reasoning_aliases delta
      in case delta_content delta of
           None \<Rightarrow> (acc, delta)
         | Some content \<Rightarrow>
             let (events, acc) = feed acc content;
                 (t, r) = fold collect_texts events ([], []);
                 delta = (if t = [] then obj_remove ''content'' delta else obj_insert ''content'' (JStr t) delta)
             in (acc, append_reasoning delta r))"

definition choice_finished :: "json \<Rightarrow> bool" where
  "choice_finished choice = (case Option.bind (jget choice ''finish_reason'') as_str of Some s \<Rightarrow> s \<noteq> [] | None \<Rightarrow> False)"

text \<open>The loop body: whether the choice is worth forwarding, the accumulator and the choice.\<close>

definition rewrite_choice :: "accumulator \<Rightarrow> json \<Rightarrow> bool \<times> accumulator \<times> json" where
  "rewrite_choice acc choice =
     (case Option.bind (jget choice ''delta'') as_object of
        None \<Rightarrow> (True, acc, choice)
      | Some delta \<Rightarrow>
          (case rewrite_delta acc delta of (acc, delta) \<Rightarrow>
             (choice_finished choice \<or> delta_has_payload delta, acc,
              case choice of JObj m \<Rightarrow> JObj (obj_insert ''delta'' (JObj delta) m) | v \<Rightarrow> v)))"

fun rewrite_choices :: "accumulator \<Rightarrow> json list \<Rightarrow> bool \<times> accumulator \<times> json list" where
  "rewrite_choices acc [] = (False, acc, [])"
| "rewrite_choices acc (c # cs) =
     (let (emit, acc, c) = rewrite_choice acc c;
          (emit', acc, cs) = rewrite_choices acc cs
      in (emit \<or> emit', acc, c # cs))"

definition rewrite_chunk_value :: "accumulator \<Rightarrow> json \<Rightarrow> bool \<times> accumulator \<times> json" where
  "rewrite_chunk_value acc chunk =
     (case Option.bind (jget chunk ''choices'') as_array of
        None \<Rightarrow> (True, acc, chunk)
      | Some choices \<Rightarrow>
          if choices = [] then (True, acc, chunk)
          else
            (case rewrite_choices acc choices of (emit, acc, choices) \<Rightarrow>
               (jget chunk ''usage'' \<noteq> None \<or> emit, acc,
                case chunk of JObj m \<Rightarrow> JObj (obj_insert ''choices'' (JArr choices) m) | v \<Rightarrow> v)))"

section \<open>Lines\<close>

record norm_state =
  ns_acc :: accumulator
  ns_seen_done :: bool

definition sse_line :: "string \<Rightarrow> string" where
  "sse_line l = l @ [nl, nl]"

definition drop_suffix :: "string \<Rightarrow> string \<Rightarrow> string" where
  "drop_suffix suf s = (case strip_suffix suf s of Some r \<Rightarrow> r | None \<Rightarrow> s)"

definition transform_line :: "json_lib \<Rightarrow> string \<Rightarrow> norm_state \<Rightarrow> string option \<times> norm_state" where
  "transform_line lib line st =
     (case from_utf8 line of
        None \<Rightarrow> (Some line, st)
      | Some s \<Rightarrow>
          let l = drop_suffix [CHR 0x0D] (drop_suffix [nl] s)
          in if l = [] then (None, st)
             else case strip_prefix ''data:'' l of
                    None \<Rightarrow> (Some (sse_line l), st)
                  | Some rest \<Rightarrow>
                      let payload = trim_start rest
                      in if payload = ''[DONE]'' then (Some sse_done, st\<lparr>ns_seen_done := True\<rparr>)
                         else case jl_parse lib payload of
                                Inl _ \<Rightarrow> (Some (sse_line l), st)
                              | Inr chunk \<Rightarrow>
                                  if \<not> is_object chunk then (Some (sse_line l), st)
                                  else
                                    (case rewrite_chunk_value (ns_acc st) chunk of (emit, acc, chunk) \<Rightarrow>
                                       let st = st\<lparr>ns_acc := acc\<rparr>; w = jl_write lib chunk
                                       in if emit then (Some (if w \<noteq> payload then sse_data w else line), st)
                                          else (None, st)))"

definition assemble_drained :: "json_lib \<Rightarrow> string \<Rightarrow> bool \<Rightarrow> bool \<Rightarrow> string option" where
  "assemble_drained lib flushed as_reasoning seen_done =
     (let field = (if as_reasoning then ''reasoning_content'' else ''content'');
          payload = JObj [(''choices'', JArr [JObj [(''delta'', JObj [(field, JStr flushed)]), (''index'', JInt 0)]])];
          out = (if flushed \<noteq> [] then sse_data (jl_write lib payload) else []);
          out = (if \<not> seen_done then out @ sse_done else out)
      in if out = [] then None else Some out)"

definition flush_eof :: "json_lib \<Rightarrow> norm_state \<Rightarrow> string option \<times> norm_state" where
  "flush_eof lib st =
     (let as_reasoning = (in_reasoning (ns_acc st) \<or> 0 < acc_tag_count (ns_acc st));
          (flushed, acc) = flush (ns_acc st)
      in (assemble_drained lib flushed as_reasoning (ns_seen_done st), st\<lparr>ns_acc := acc, ns_seen_done := True\<rparr>))"

section \<open>The stream\<close>

record norm_stream =
  nm_inner :: "item list"
  nm_state :: norm_state
  nm_pending :: string
  nm_inner_eof :: bool
  nm_completed :: bool

definition norm_new :: "item list \<Rightarrow> norm_stream" where
  "norm_new inner =
     \<lparr>nm_inner = inner, nm_state = \<lparr>ns_acc = acc_new builtin_think_pairs, ns_seen_done = False\<rparr>, nm_pending = [],
      nm_inner_eof = False, nm_completed = False\<rparr>"

function process_pending :: "json_lib \<Rightarrow> string \<Rightarrow> norm_state \<Rightarrow> string option \<times> string \<times> norm_state" where
  "process_pending lib pending st =
     (case position_nl pending of
        None \<Rightarrow> (None, pending, st)
      | Some pos \<Rightarrow>
          (case transform_line lib (take (Suc pos) pending) st of
             (Some out, st) \<Rightarrow> (Some out, drop (Suc pos) pending, st)
           | (None, st) \<Rightarrow> process_pending lib (drop (Suc pos) pending) st))"
  by pat_completeness auto
termination
  by (relation "measure (\<lambda>(lib, pending, st). length pending)") (auto dest: position_nl_less)

declare process_pending.simps [simp del]

definition end_line :: "string \<Rightarrow> string" where
  "end_line pending = (if pending \<noteq> [] \<and> last pending \<noteq> nl then pending @ [nl] else pending)"

function norm_poll :: "json_lib \<Rightarrow> norm_stream \<Rightarrow> item option \<times> norm_stream" where
  "norm_poll lib s =
     (if nm_completed s then (None, s)
      else
        (case process_pending lib (nm_pending s) (nm_state s) of
           (Some out, pending, st) \<Rightarrow> (Some (Inr out), s\<lparr>nm_pending := pending, nm_state := st\<rparr>)
         | (None, pending, st) \<Rightarrow>
             let s = s\<lparr>nm_pending := pending, nm_state := st\<rparr>
             in if nm_inner_eof s then
                  (case flush_eof lib st of (out, st) \<Rightarrow>
                     (map_option Inr out, s\<lparr>nm_completed := True, nm_state := st\<rparr>))
                else
                  (case nm_inner s of
                     Inr bytes # rest \<Rightarrow> norm_poll lib (s\<lparr>nm_pending := pending @ bytes, nm_inner := rest\<rparr>)
                   | Inl e # rest \<Rightarrow> (Some (Inl e), s\<lparr>nm_inner := rest\<rparr>)
                   | [] \<Rightarrow> norm_poll lib (s\<lparr>nm_inner_eof := True, nm_pending := end_line pending\<rparr>))))"
  by pat_completeness auto
termination
  by (relation "measure (\<lambda>(lib, s). length (nm_inner s) + (if nm_inner_eof s then 0 else 1))") auto

declare norm_poll.simps [simp del]

lemma process_pending_progress:
  "process_pending lib pending st = (Some out, pending', st') \<Longrightarrow> length pending' < length pending"
proof (induction lib pending st rule: process_pending.induct)
  case (1 lib pending st)
  show ?case
  proof (cases "position_nl pending")
    case None
    then show ?thesis using "1.prems" by (simp add: process_pending.simps [of lib pending])
  next
    case (Some pos)
    then have "pos < length pending" by (rule position_nl_less)
    then show ?thesis
      using "1.prems" "1.IH" [OF Some] Some
      by (auto simp: process_pending.simps [of lib pending] split: prod.splits option.splits)
  qed
qed

lemma process_pending_le:
  "process_pending lib pending st = (out, pending', st') \<Longrightarrow> length pending' \<le> length pending"
proof (induction lib pending st rule: process_pending.induct)
  case (1 lib pending st)
  show ?case
  proof (cases "position_nl pending")
    case None
    then show ?thesis using "1.prems" by (simp add: process_pending.simps [of lib pending])
  next
    case (Some pos)
    then show ?thesis
      using "1.prems" "1.IH" [OF Some]
      by (fastforce simp: process_pending.simps [of lib pending] split: prod.splits option.splits)
  qed
qed

abbreviation norm_measure :: "(norm_stream \<times> norm_stream) set" where
  "norm_measure \<equiv> measures [\<lambda>s. length (nm_inner s) + (if nm_inner_eof s then 0 else 1), \<lambda>s. length (nm_pending s),
     \<lambda>s. if nm_completed s then 0 else 1]"

lemma norm_poll_progress: "norm_poll lib s = (Some x, s') \<Longrightarrow> (s', s) \<in> norm_measure"
proof (induction lib s rule: norm_poll.induct)
  case (1 lib s)
  obtain out p st where pp: "process_pending lib (nm_pending s) (nm_state s) = (out, p, st)"
    by (cases "process_pending lib (nm_pending s) (nm_state s)")
  have nc: "\<not> nm_completed s" using "1.prems" by (auto simp: norm_poll.simps [of lib s])
  show ?case
  proof (cases out)
    case (Some y)
    then show ?thesis
      using "1.prems" nc process_pending_progress [of lib _ _ y p st] pp by (auto simp: norm_poll.simps [of lib s])
  next
    case None
    show ?thesis
    proof (cases "nm_inner_eof s")
      case True
      then show ?thesis
        using "1.prems" nc None pp process_pending_le [OF pp] by (auto simp: norm_poll.simps [of lib s] split: prod.splits)
    next
      case eof: False
      note IH = "1.IH" [OF nc pp [symmetric] None refl refl]
      show ?thesis
      proof (cases "nm_inner s")
        case Nil
        then have "norm_poll lib (s\<lparr>nm_pending := p, nm_state := st, nm_inner_eof := True, nm_pending := end_line p\<rparr>) = (Some x, s')"
          using "1.prems" nc None eof pp by (simp add: norm_poll.simps [of lib s] Let_def)
        then show ?thesis using IH(1) eof Nil by auto
      next
        case (Cons i r)
        then show ?thesis
        proof (cases i)
          case (Inl e)
          then show ?thesis using "1.prems" nc None eof pp Cons by (auto simp: norm_poll.simps [of lib s] Let_def)
        next
          case (Inr b)
          have "norm_poll lib (s\<lparr>nm_pending := p, nm_state := st, nm_pending := p @ b, nm_inner := r\<rparr>) = (Some x, s')"
            using "1.prems" nc None eof pp Cons Inr by (simp add: norm_poll.simps [of lib s] Let_def)
          then show ?thesis using IH(2) eof Cons Inr by auto
        qed
      qed
    qed
  qed
qed

function norm_collect :: "json_lib \<Rightarrow> norm_stream \<Rightarrow> item list" where
  "norm_collect lib s = (case norm_poll lib s of (None, _) \<Rightarrow> [] | (Some x, s') \<Rightarrow> x # norm_collect lib s')"
  by pat_completeness auto
termination
proof (relation "inv_image norm_measure snd")
  fix lib s x s' y
  assume "(x, s') = norm_poll lib s" "x = Some y"
  then show "((lib, s'), lib, s) \<in> inv_image norm_measure snd"
    using norm_poll_progress [of lib s y s'] by (simp add: inv_image_def)
qed (simp add: wf_inv_image)

declare norm_collect.simps [simp del]

section \<open>The stream as a function of its bytes\<close>

fun norm_lines :: "json_lib \<Rightarrow> string list \<Rightarrow> norm_state \<Rightarrow> string list \<times> norm_state" where
  "norm_lines lib [] st = ([], st)"
| "norm_lines lib (l # ls) st =
     (case transform_line lib (l @ [nl]) st of (out, st) \<Rightarrow>
        (case norm_lines lib ls st of (outs, st) \<Rightarrow> (case out of None \<Rightarrow> outs | Some x \<Rightarrow> x # outs, st)))"

definition normalized :: "json_lib \<Rightarrow> norm_state \<Rightarrow> string \<Rightarrow> string list" where
  "normalized lib st bytes =
     (case norm_lines lib (lines_of (end_line bytes)) st of (outs, st) \<Rightarrow>
        outs @ (case fst (flush_eof lib st) of None \<Rightarrow> [] | Some x \<Rightarrow> [x]))"

lemma norm_lines_append:
  "norm_lines lib (ls @ ls') st =
     (case norm_lines lib ls st of (outs, st) \<Rightarrow> (case norm_lines lib ls' st of (outs', st) \<Rightarrow> (outs @ outs', st)))"
  by (induction ls arbitrary: st) (auto split: prod.split option.split)

lemma norm_collect_lines:
  assumes "\<not> nm_completed s"
  shows "norm_collect lib s =
    (case norm_lines lib (lines_of (nm_pending s)) (nm_state s) of (outs, st) \<Rightarrow>
       map Inr outs @ norm_collect lib (s\<lparr>nm_pending := rest_of (nm_pending s), nm_state := st\<rparr>))"
  using assms
proof (induction "length (nm_pending s)" arbitrary: s rule: less_induct)
  case less
  show ?case
  proof (cases "position_nl (nm_pending s)")
    case None
    then have "lines_of (nm_pending s) = [] \<and> rest_of (nm_pending s) = nm_pending s"
      by (intro lines_of_None) (simp add: position_nl_None)
    then show ?thesis by simp
  next
    case (Some pos)
    let ?l = "take pos (nm_pending s)" and ?r = "drop (Suc pos) (nm_pending s)"
    have pos: "pos < length (nm_pending s)" "nm_pending s ! pos = nl" "nl \<notin> set ?l"
      using Some by (simp_all add: position_nl_Some)
    have "nm_pending s = ?l @ nl # ?r" using id_take_nth_drop [OF pos(1)] pos(2) by simp
    then have lines: "lines_of (nm_pending s) = ?l # lines_of ?r" "rest_of (nm_pending s) = rest_of ?r"
      using lines_of_line [OF pos(3), of ?r] by metis+
    have tk: "take (Suc pos) (nm_pending s) = ?l @ [nl]" using pos(1,2) by (simp add: take_Suc_conv_app_nth)
    obtain out st where tl: "transform_line lib (?l @ [nl]) (nm_state s) = (out, st)" by force
    let ?s = "s\<lparr>nm_pending := ?r, nm_state := st\<rparr>"
    have IH: "norm_collect lib ?s =
        (case norm_lines lib (lines_of ?r) st of (outs, st) \<Rightarrow>
           map Inr outs @ norm_collect lib (?s\<lparr>nm_pending := rest_of ?r, nm_state := st\<rparr>))"
      using less(1) [of ?s] less(2) pos(1) by simp
    have "norm_collect lib s = (case out of None \<Rightarrow> norm_collect lib ?s | Some x \<Rightarrow> Inr x # norm_collect lib ?s)"
    proof (cases out)
      case None
      then have "process_pending lib (nm_pending s) (nm_state s) = process_pending lib ?r st"
        by (subst process_pending.simps) (simp add: Some tk tl)
      then have "norm_poll lib s = norm_poll lib ?s"
        using less(2) by (subst (1 2) norm_poll.simps) (auto simp: Let_def split: prod.split option.split)
      then show ?thesis using None by (subst (1 2) norm_collect.simps) simp
    next
      case out: (Some x)
      then have "process_pending lib (nm_pending s) (nm_state s) = (Some x, ?r, st)"
        by (subst process_pending.simps) (simp add: Some tk tl)
      then have "norm_poll lib s = (Some (Inr x), ?s)"
        using less(2) by (subst norm_poll.simps) simp
      then show ?thesis using out by (subst norm_collect.simps) simp
    qed
    then show ?thesis using IH tl by (auto simp: lines split: prod.split option.split)
  qed
qed

lemma process_pending_None: "nl \<notin> set p \<Longrightarrow> process_pending lib p st = (None, p, st)"
  by (subst process_pending.simps) (simp add: position_nl_None [THEN iffD2])

lemma norm_collect_chunk:
  assumes "\<not> nm_completed s" and "\<not> nm_inner_eof s" and "nl \<notin> set (nm_pending s)"
  shows "nm_inner s = Inr b # r \<Longrightarrow>
      norm_collect lib s = norm_collect lib (s\<lparr>nm_pending := nm_pending s @ b, nm_inner := r\<rparr>)"
    and "nm_inner s = Inl e # r \<Longrightarrow> norm_collect lib s = Inl e # norm_collect lib (s\<lparr>nm_inner := r\<rparr>)"
    and "nm_inner s = [] \<Longrightarrow>
      norm_collect lib s = norm_collect lib (s\<lparr>nm_inner_eof := True, nm_pending := end_line (nm_pending s)\<rparr>)"
proof -
  have same: "s\<lparr>nm_pending := nm_pending s, nm_state := nm_state s\<rparr> = s" by simp
  note poll = norm_poll.simps [of lib s] process_pending_None [OF assms(3)]
  show "norm_collect lib s = norm_collect lib (s\<lparr>nm_pending := nm_pending s @ b, nm_inner := r\<rparr>)" if "nm_inner s = Inr b # r"
    using assms that by (subst (1 2) norm_collect.simps) (simp add: poll Let_def same)
  show "norm_collect lib s = Inl e # norm_collect lib (s\<lparr>nm_inner := r\<rparr>)" if "nm_inner s = Inl e # r"
    using assms that by (subst norm_collect.simps) (simp add: poll Let_def same)
  show "norm_collect lib s = norm_collect lib (s\<lparr>nm_inner_eof := True, nm_pending := end_line (nm_pending s)\<rparr>)"
    if "nm_inner s = []"
    using assms that by (subst (1 2) norm_collect.simps) (simp add: poll Let_def same)
qed

lemma norm_collect_flush:
  assumes "\<not> nm_completed s" and "nm_inner_eof s" and "nl \<notin> set (nm_pending s)"
  shows "norm_collect lib s = (case fst (flush_eof lib (nm_state s)) of None \<Rightarrow> [] | Some x \<Rightarrow> [Inr x])"
proof -
  have completed: "nm_completed t \<Longrightarrow> norm_collect lib t = []" for t
    by (subst norm_collect.simps) (simp add: norm_poll.simps [of lib t])
  show ?thesis
    using assms
    by (subst norm_collect.simps)
      (auto simp: norm_poll.simps [of lib s] process_pending_None Let_def completed split: prod.split option.split)
qed

lemma end_line_append:
  assumes "pre = [] \<or> last pre = nl"
  shows "end_line (pre @ x) = pre @ end_line x"
  using assms by (cases "x = []") (auto simp: end_line_def)

lemma lines_end_line: "lines_of (end_line (a @ b)) = lines_of a @ lines_of (end_line (rest_of a @ b))"
proof -
  obtain pre where pre: "a = pre @ rest_of a" "pre = [] \<or> last pre = nl" using buffer_split by blast
  have "end_line (rest_of a @ b) = rest_of a @ b \<or> end_line (rest_of a @ b) = rest_of a @ (b @ [nl])"
    by (simp add: end_line_def)
  then obtain b' where b': "end_line (rest_of a @ b) = rest_of a @ b'" by blast
  have "end_line (a @ b) = pre @ end_line (rest_of a @ b)"
    using end_line_append [OF pre(2), of "rest_of a @ b"] pre(1) by (metis append.assoc)
  then have "end_line (a @ b) = a @ b'" using b' pre(1) by (metis append.assoc)
  then show ?thesis using lines_of_append(1) [of a b'] b' by simp
qed

lemma norm_collect_chunks:
  assumes "\<not> nm_completed s" and "\<not> nm_inner_eof s" and "nl \<notin> set (nm_pending s)" and "nm_inner s = map Inr cs"
  shows "norm_collect lib s = map Inr (normalized lib (nm_state s) (nm_pending s @ concat cs))"
  using assms
proof (induction cs arbitrary: s)
  case Nil
  let ?p = "end_line (nm_pending s)"
  have "rest_of ?p = []"
  proof (cases "nm_pending s = []")
    case True
    then show ?thesis by (simp add: end_line_def lines_of_None)
  next
    case False
    then have "last (nm_pending s) \<in> set (nm_pending s)" by simp
    then have "last (nm_pending s) \<noteq> nl" using Nil(3) by metis
    then show ?thesis using False Nil(3) lines_of_line [of "nm_pending s" "[]"] by (simp add: end_line_def lines_of_None)
  qed
  then show ?case
    using Nil norm_collect_chunk(3) [of s lib]
      norm_collect_lines [of "s\<lparr>nm_inner_eof := True, nm_pending := ?p\<rparr>" lib]
    by (simp add: normalized_def norm_collect_flush split: prod.split option.split)
next
  case (Cons c cs)
  let ?s = "s\<lparr>nm_pending := nm_pending s @ c, nm_inner := map Inr cs\<rparr>" and ?p = "nm_pending s @ c"
  obtain outs st where ls: "norm_lines lib (lines_of ?p) (nm_state s) = (outs, st)" by force
  have "norm_collect lib s = norm_collect lib ?s"
    using Cons.prems by (intro norm_collect_chunk(1)) simp_all
  also have "\<dots> = map Inr outs @ norm_collect lib (?s\<lparr>nm_pending := rest_of ?p, nm_state := st\<rparr>)"
    using norm_collect_lines [of ?s lib] Cons.prems ls by simp
  also have "norm_collect lib (?s\<lparr>nm_pending := rest_of ?p, nm_state := st\<rparr>) = map Inr (normalized lib st (rest_of ?p @ concat cs))"
    using Cons.IH [of "?s\<lparr>nm_pending := rest_of ?p, nm_state := st\<rparr>"] Cons.prems by (simp add: rest_of_nl)
  also have "outs @ normalized lib st (rest_of ?p @ concat cs) = normalized lib (nm_state s) (?p @ concat cs)"
    unfolding normalized_def lines_end_line [of ?p "concat cs"] norm_lines_append by (simp add: ls split: prod.split)
  then have "map Inr outs @ map Inr (normalized lib st (rest_of ?p @ concat cs)) = map Inr (normalized lib (nm_state s) (?p @ concat cs))"
    by (metis map_append)
  finally show ?case by simp
qed

text \<open>
  C30. The normalised stream is a function of the upstream bytes. Whatever chunks they arrive in, the
  client receives the transformation of each complete line in order (a last line without a newline
  counts as complete), then what the accumulator still held and, unless the upstream sent it, the
  end marker.
\<close>

theorem normalized_stream_spec:
  "norm_collect lib (norm_new (map Inr cs)) =
     map Inr (normalized lib \<lparr>ns_acc = acc_new builtin_think_pairs, ns_seen_done = False\<rparr> (concat cs))"
  using norm_collect_chunks [of "norm_new (map Inr cs)" cs lib] by (simp add: norm_new_def)

section \<open>No byte of a completion is lost\<close>

definition str_at :: "string \<Rightarrow> json_map \<Rightarrow> string" where
  "str_at k delta = (case map_of delta k of Some (JStr s) \<Rightarrow> s | _ \<Rightarrow> [])"

fun rewrite_deltas :: "accumulator \<Rightarrow> json_map list \<Rightarrow> json_map list \<times> accumulator" where
  "rewrite_deltas acc [] = ([], acc)"
| "rewrite_deltas acc (d # ds) =
     (case rewrite_delta acc d of (acc, d) \<Rightarrow> (case rewrite_deltas acc ds of (ds, acc) \<Rightarrow> (d # ds, acc)))"

lemma fold_collect_texts:
  "fold collect_texts evs (t, r) = (t @ side InText (events_bytes evs), r @ side InReasoning (events_bytes evs))"
proof (induction evs arbitrary: t r)
  case (Cons e evs)
  then show ?case by (cases e) (auto simp: side_def events_bytes_def on_side_def comp_def filter_map)
qed (simp add: side_def events_bytes_def)

text \<open>The reasoning a delta carries itself, under any of its names.\<close>

definition alias_text :: "json_map \<Rightarrow> string" where
  "alias_text d = str_at ''reasoning_content'' d @ str_at ''reasoning'' d @ str_at ''reasoning_text'' d @ str_at ''thinking'' d"

lemma concat_nonempty_str: "concat (nonempty_str v) = (case v of Some (JStr s) \<Rightarrow> s | _ \<Rightarrow> [])"
  by (simp add: nonempty_str_def split: option.split json.split)

lemma nonempty_str_Nil: "concat (nonempty_str v) = [] \<Longrightarrow> nonempty_str v = []"
  by (auto simp: nonempty_str_def split: option.splits json.splits if_splits)

lemma fold_aliases_get:
  assumes "obj_wf d"
  shows "obj_wf (fold_reasoning_aliases d)"
    and "str_at ''reasoning_content'' (fold_reasoning_aliases d) = alias_text d"
    and "map_of (fold_reasoning_aliases d) ''content'' = map_of d ''content''"
proof -
  let ?ps = "nonempty_str (map_of d ''reasoning_content'') @ nonempty_str (map_of d ''reasoning'') @
    nonempty_str (map_of d ''reasoning_text'')"
  let ?d = "obj_remove ''reasoning_text'' (obj_remove ''reasoning'' (obj_remove ''reasoning_content'' d))"
  have wf: "obj_wf ?d" using assms by simp
  have get: "map_of ?d k = (if k \<in> {''reasoning_text'', ''reasoning'', ''reasoning_content''} then None else map_of d k)" for k
    using assms by (simp add: obj_get_remove)
  have "fold take_alias reasoning_aliases ([], d) = (?ps, ?d)"
    using assms by (simp add: reasoning_aliases_def take_alias_def obj_get_remove)
  then have eq: "fold_reasoning_aliases d =
      (let parts = ?ps @ nonempty_str (map_of d ''thinking'');
           r = (if nonempty_str (map_of d ''thinking'') \<noteq> [] then obj_remove ''thinking'' ?d else ?d)
       in if parts \<noteq> [] then obj_insert ''reasoning_content'' (JStr (concat parts)) r else r)"
    by (simp add: fold_reasoning_aliases_def get Let_def)
  show "obj_wf (fold_reasoning_aliases d)" using wf by (simp add: eq Let_def)
  show "map_of (fold_reasoning_aliases d) ''content'' = map_of d ''content''"
    using wf by (simp add: eq Let_def obj_get_remove get)
  have "concat (?ps @ nonempty_str (map_of d ''thinking'')) = alias_text d"
    by (simp add: concat_nonempty_str alias_text_def str_at_def)
  then show "str_at ''reasoning_content'' (fold_reasoning_aliases d) = alias_text d"
    using wf by (auto simp: eq Let_def str_at_def obj_get_remove get)
qed

lemma str_at_append_reasoning:
  assumes "obj_wf d"
  shows "str_at ''reasoning_content'' (append_reasoning d r) = str_at ''reasoning_content'' d @ r"
    and "str_at ''content'' (append_reasoning d r) = str_at ''content'' d"
  by (auto simp: append_reasoning_def str_at_def split: option.split json.split)

lemma rewrite_delta_spec:
  assumes "obj_wf d" and "rewrite_delta acc d = (acc', d')"
  shows "\<exists>evs. (if str_at ''content'' d = [] then (evs, acc') = ([], acc) else (evs, acc') = feed acc (str_at ''content'' d)) \<and>
      str_at ''content'' d' = side InText (events_bytes evs) \<and>
      str_at ''reasoning_content'' d' = alias_text d @ side InReasoning (events_bytes evs)"
proof -
  let ?d = "fold_reasoning_aliases d"
  note al = fold_aliases_get [OF assms(1)]
  have content: "delta_content ?d = (if str_at ''content'' d = [] then None else Some (str_at ''content'' d))"
    by (auto simp: delta_content_def al(3) str_at_def split: option.split json.split)
  show ?thesis
  proof (cases "str_at ''content'' d = []")
    case True
    then have "acc' = acc \<and> d' = ?d" using assms(2) content by (simp add: rewrite_delta_def Let_def)
    moreover have "str_at ''content'' ?d = []" using True al(3) by (simp add: str_at_def)
    ultimately show ?thesis using True al(2) by (auto simp: side_def events_bytes_def)
  next
    case False
    obtain evs acc1 where f: "feed acc (str_at ''content'' d) = (evs, acc1)" by force
    let ?t = "side InText (events_bytes evs)"
    let ?d1 = "if ?t = [] then obj_remove ''content'' ?d else obj_insert ''content'' (JStr ?t) ?d"
    have "acc' = acc1 \<and> d' = append_reasoning ?d1 (side InReasoning (events_bytes evs))"
      using assms(2) content False f by (simp add: rewrite_delta_def Let_def fold_collect_texts)
    moreover have "obj_wf ?d1" using al(1) by simp
    moreover have "str_at ''content'' ?d1 = ?t" using al(1) by (auto simp: str_at_def obj_get_remove)
    moreover have "str_at ''reasoning_content'' ?d1 = alias_text d"
      using al(1,2) by (auto simp: str_at_def obj_get_remove)
    ultimately show ?thesis using False f by (auto simp: str_at_append_reasoning)
  qed
qed

lemma rewrite_deltas_spec:
  assumes "list_all obj_wf ds" and "rewrite_deltas acc ds = (ds', acc')"
  shows "\<exists>evs. feed_all acc (filter (\<lambda>c. c \<noteq> []) (map (str_at ''content'') ds)) = (evs, acc') \<and>
    concat (map (str_at ''content'') ds') = side InText (events_bytes evs) \<and>
    (list_all (\<lambda>d. alias_text d = []) ds \<longrightarrow>
      concat (map (str_at ''reasoning_content'') ds') = side InReasoning (events_bytes evs))"
  using assms
proof (induction ds arbitrary: acc ds')
  case Nil
  then show ?case by (simp add: side_def events_bytes_def)
next
  case (Cons d ds)
  obtain acc1 d1 where d1: "rewrite_delta acc d = (acc1, d1)" by force
  obtain ds1 where ds1: "rewrite_deltas acc1 ds = (ds1, acc')" "ds' = d1 # ds1"
    using Cons.prems(2) d1 by (auto split: prod.splits)
  obtain evs1 where e1: "if str_at ''content'' d = [] then (evs1, acc1) = ([], acc) else (evs1, acc1) = feed acc (str_at ''content'' d)"
    "str_at ''content'' d1 = side InText (events_bytes evs1)"
    "str_at ''reasoning_content'' d1 = alias_text d @ side InReasoning (events_bytes evs1)"
    using rewrite_delta_spec [OF _ d1] Cons.prems(1) by auto
  obtain evs where e: "feed_all acc1 (filter (\<lambda>c. c \<noteq> []) (map (str_at ''content'') ds)) = (evs, acc')"
    "concat (map (str_at ''content'') ds1) = side InText (events_bytes evs)"
    "list_all (\<lambda>d. alias_text d = []) ds \<longrightarrow>
      concat (map (str_at ''reasoning_content'') ds1) = side InReasoning (events_bytes evs)"
    using Cons.IH [OF _ ds1(1)] Cons.prems(1) by auto
  have "feed_all acc (filter (\<lambda>c. c \<noteq> []) (map (str_at ''content'') (d # ds))) = (evs1 @ evs, acc')"
    using e1(1) e(1) by (auto split: if_splits prod.splits)
  moreover have "side st (events_bytes (evs1 @ evs)) = side st (events_bytes evs1) @ side st (events_bytes evs)" for st
    by (simp add: side_def events_bytes_def)
  ultimately show ?case using e1 e ds1(2) by auto
qed

lemma concat_filter_nonempty: "concat (filter (\<lambda>c. c \<noteq> []) xs) = concat xs"
  by (induction xs) auto



section \<open>Frames that keep their text\<close>

text \<open>A payload that comes back unchanged: its chunk is forwarded as it is, and its text is the writer's.\<close>

definition unchanged_payload :: "json_lib \<Rightarrow> accumulator \<Rightarrow> string \<Rightarrow> bool" where
  "unchanged_payload lib acc p =
     (nl \<notin> set p \<and> CHR 0x0D \<notin> set p \<and> valid_utf8 (''data: '' @ p @ [nl]) \<and> trim_start (CHR '' '' # p) = p \<and> p \<noteq> ''[DONE]'' \<and>
      (case jl_parse lib p of Inl _ \<Rightarrow> False
       | Inr chunk \<Rightarrow> is_object chunk \<and> jl_write lib chunk = p \<and> rewrite_chunk_value acc chunk = (True, acc, chunk)))"

lemma drop_suffix_one: "drop_suffix [c] (s @ [c]) = s"
  by (simp add: drop_suffix_def strip_suffix_def strip_prefix_def)

lemma drop_suffix_other: "c \<notin> set s \<Longrightarrow> drop_suffix [c] s = s"
  by (cases s rule: rev_cases) (auto simp: drop_suffix_def strip_suffix_def strip_prefix_def)

lemma transform_unchanged:
  assumes "unchanged_payload lib (ns_acc st) p"
  shows "transform_line lib (''data: '' @ p @ [nl]) st = (Some (''data: '' @ p @ [nl]), st)"
proof -
  from assms obtain chunk where c: "jl_parse lib p = Inr chunk" "is_object chunk" "jl_write lib chunk = p"
    "rewrite_chunk_value (ns_acc st) chunk = (True, ns_acc st, chunk)"
    "CHR 0x0D \<notin> set p" "valid_utf8 (''data: '' @ p @ [nl])" "trim_start (CHR '' '' # p) = p" "p \<noteq> ''[DONE]''"
    by (auto simp: unchanged_payload_def split: sum.splits)
  have "drop_suffix [CHR 0x0D] (drop_suffix [nl] ((''data: '' @ p) @ [nl])) = ''data: '' @ p"
    unfolding drop_suffix_one using c(5) by (intro drop_suffix_other) auto
  then have l: "drop_suffix [CHR 0x0D] (drop_suffix [nl] (''data: '' @ p @ [nl])) = ''data: '' @ p" by simp
  have s: "strip_prefix ''data:'' (''data: '' @ p) = Some (CHR '' '' # p)" by (simp add: strip_prefix_def)
  show ?thesis
    unfolding transform_line_def from_utf8_def using c(6)
    by (simp only: if_True option.case Let_def l s c(1-4,7,8) sum.case prod.case) simp
qed

lemma transform_blank: "transform_line lib [nl] st = (None, st)"
proof -
  have "valid_utf8 [nl]" by code_simp
  moreover have "drop_suffix [CHR 0x0D] (drop_suffix [nl] [nl]) = []" by code_simp
  ultimately show ?thesis by (simp add: transform_line_def from_utf8_def)
qed

lemma norm_lines_unchanged:
  assumes "list_all (unchanged_payload lib (ns_acc st)) ps"
  shows "norm_lines lib (concat (map (\<lambda>p. [''data: '' @ p, []]) ps)) st = (map (\<lambda>p. ''data: '' @ p @ [nl]) ps, st)"
  using assms
proof (induction ps)
  case (Cons p ps)
  then show ?case using transform_unchanged [of lib st p] transform_blank [of lib st] by simp
qed simp

lemma frames_lines:
  "list_all (\<lambda>p. nl \<notin> set p) ps \<Longrightarrow>
     lines_of (concat (map sse_data ps)) = concat (map (\<lambda>p. [''data: '' @ p, []]) ps) \<and> rest_of (concat (map sse_data ps)) = []"
proof (induction ps)
  case Nil
  then show ?case by (simp add: lines_of_None)
next
  case (Cons p ps)
  let ?b = "concat (map sse_data ps)"
  have "concat (map sse_data (p # ps)) = (''data: '' @ p) @ nl # ([] @ nl # ?b)" by (simp add: sse_data_def)
  moreover have "nl \<notin> set (''data: '' @ p)" using Cons.prems by auto
  ultimately have "lines_of (concat (map sse_data (p # ps))) = (''data: '' @ p) # [] # lines_of ?b"
    "rest_of (concat (map sse_data (p # ps))) = rest_of ?b"
    using lines_of_line [of "''data: '' @ p" "[] @ nl # ?b"] lines_of_line [of "[]" ?b] by (simp_all only: list.set empty_iff not_False_eq_True)
  then show ?case using Cons by simp
qed

lemma end_line_frames: "end_line (concat (map sse_data ps)) = concat (map sse_data ps)"
  by (cases ps rule: rev_cases) (simp_all add: end_line_def sse_data_def)

text \<open>
  C32. Chunks that come back unchanged lose the blank line that ends their event. A stream of frames
  whose payloads are already in the writer's form and carry nothing to rewrite (what the provider
  relays emit) is forwarded with one newline after each payload instead of two.
\<close>

theorem unchanged_frames_merge:
  assumes "list_all (unchanged_payload lib (acc_new builtin_think_pairs)) ps"
    and "concat cs = concat (map sse_data ps)"
  shows "norm_collect lib (norm_new (map Inr cs)) = map (\<lambda>p. Inr (''data: '' @ p @ [nl])) ps @ [Inr sse_done]"
proof -
  let ?acc = "acc_new builtin_think_pairs"
  let ?st = "\<lparr>ns_acc = ?acc, ns_seen_done = False\<rparr>"
  have "list_all (\<lambda>p. nl \<notin> set p) ps" using assms(1) by (auto simp: unchanged_payload_def elim!: list.pred_mono_strong)
  then have lines: "lines_of (concat (map sse_data ps)) = concat (map (\<lambda>p. [''data: '' @ p, []]) ps)" using frames_lines by blast
  have out: "norm_lines lib (concat (map (\<lambda>p. [''data: '' @ p, []]) ps)) ?st = (map (\<lambda>p. ''data: '' @ p @ [nl]) ps, ?st)"
    using norm_lines_unchanged [of lib ?st ps] assms(1) by simp
  have "fst (flush_eof lib ?st) = Some sse_done"
    by (simp add: flush_eof_def flush_def assemble_drained_def acc_new_def sse_done_def)
  then have "normalized lib ?st (concat cs) = map (\<lambda>p. ''data: '' @ p @ [nl]) ps @ [sse_done]"
    unfolding normalized_def assms(2) end_line_frames lines out by simp
  then show ?thesis
    using norm_collect_chunks [of "norm_new (map Inr cs)" cs lib] by (simp add: norm_new_def)
qed

definition hello_chunk :: json where
  "hello_chunk = JObj [(''choices'', JArr [JObj [(''delta'', JObj [(''content'', JStr ''hello'')]), (''index'', JInt 0)]])]"

definition hello_lib :: json_lib where
  "hello_lib = \<lparr>jl_parse = (\<lambda>s. if s = ''p'' then Inr hello_chunk else Inl []), jl_write = (\<lambda>_. ''p'')\<rparr>"

theorem unchanged_frames_merge_witness:
  "norm_collect hello_lib (norm_new [Inr (sse_data ''p''), Inr (sse_data ''p'')]) =
     [Inr (''data: p'' @ [nl]), Inr (''data: p'' @ [nl]), Inr sse_done]"
proof -
  have "rewrite_chunk_value (acc_new builtin_think_pairs) hello_chunk = (True, acc_new builtin_think_pairs, hello_chunk)"
    by code_simp
  moreover have "valid_utf8 (''data: p'' @ [nl])" "trim_start '' p'' = ''p''" "is_object hello_chunk" by code_simp+
  ultimately have "unchanged_payload hello_lib (acc_new builtin_think_pairs) ''p''"
    by (simp add: unchanged_payload_def hello_lib_def)
  then show ?thesis
    using unchanged_frames_merge [of hello_lib "[''p'', ''p'']" "[sse_data ''p'', sse_data ''p'']"] by simp
qed

end
