(* ===== verification/Provider_Convert.thy ===== *)
theory Provider_Convert
  imports Anthropic_Stream Gemini_Stream Upstream_Http Chat_Types
begin

text \<open>
  Converting between the OpenAI wire format and the native formats of Anthropic
  (\<open>provider/anthropic.rs\<close>) and Gemini (\<open>provider/gemini.rs\<close>): the native records, what is serialised and
  read of them, and both directions of the conversion. Writing a JSON value as text, the clock and
  the random identifier are parameters.
\<close>

section \<open>Shared pieces\<close>

definition content_text :: "(json \<Rightarrow> string) \<Rightarrow> json \<Rightarrow> string" where
  "content_text write v = (case v of JStr s \<Rightarrow> s | other \<Rightarrow> write other)"

definition stop_list :: "json option \<Rightarrow> string list option" where
  "stop_list stop =
     (case stop of
        Some (JStr s) \<Rightarrow> Some [s]
      | Some (JArr arr) \<Rightarrow> (let v = List.map_filter as_str arr in if v = [] then None else Some v)
      | _ \<Rightarrow> None)"

definition join_parts :: "string list \<Rightarrow> string option" where
  "join_parts parts = (if parts = [] then None else Some (join [] parts))"

definition token_count :: "json option \<Rightarrow> string \<Rightarrow> u32" where
  "token_count usage k =
     (case Option.bind (Option.bind usage (\<lambda>u. jget u k)) as_u64 of Some n \<Rightarrow> ucast n | None \<Rightarrow> 0)"

definition assistant_message :: "string \<Rightarrow> string option \<Rightarrow> response_message" where
  "assistant_message content reasoning =
     \<lparr>rm_role = ''assistant'', rm_content = Some content, rm_tool_calls = None, rm_reasoning_content = reasoning,
      rm_reasoning = None, rm_reasoning_text = None, rm_thinking = None\<rparr>"

section \<open>Anthropic\<close>

record anthropic_message =
  am_role :: string
  am_content :: string

record anthropic_request =
  an_model :: string
  an_max_tokens :: u32
  an_system :: "string option"
  an_messages :: "anthropic_message list"
  an_stop_sequences :: "string list option"
  an_temperature :: "rat option"
  an_top_p :: "rat option"
  an_thinking :: "json option"
  an_stream :: bool

definition enc_strings :: "string list \<Rightarrow> json" where
  "enc_strings xs = JArr (map JStr xs)"

definition enc_anthropic_request :: "anthropic_request \<Rightarrow> json" where
  "enc_anthropic_request r =
     JObj ([(''model'', JStr (an_model r)), (''max_tokens'', enc_uint (an_max_tokens r)),
            (''system'', enc_opt JStr (an_system r)),
            (''messages'', JArr (map (\<lambda>m. JObj [(''role'', JStr (am_role m)), (''content'', JStr (am_content m))]) (an_messages r)))] @
           some_entry ''stop_sequences'' enc_strings (an_stop_sequences r) @
           some_entry ''temperature'' JFloat (an_temperature r) @
           some_entry ''top_p'' JFloat (an_top_p r) @
           some_entry ''thinking'' id (an_thinking r) @
           [(''stream'', JBool (an_stream r))])"

text \<open>The message loop: the system texts and the turns.\<close>

fun anthropic_turns :: "(json \<Rightarrow> string) \<Rightarrow> message list \<Rightarrow> string list \<times> anthropic_message list" where
  "anthropic_turns write [] = ([], [])"
| "anthropic_turns write (m # ms) =
     (case anthropic_turns write ms of (system, turns) \<Rightarrow>
        if msg_role m = ''system'' then
          (case msg_content m of JStr s \<Rightarrow> (s # system, turns) | _ \<Rightarrow> (system, turns))
        else if msg_role m = ''user'' \<or> msg_role m = ''assistant'' then
          (system, \<lparr>am_role = msg_role m, am_content = content_text write (msg_content m)\<rparr> # turns)
        else (system, turns))"

definition openai_to_anthropic_base :: "(json \<Rightarrow> string) \<Rightarrow> chat_request \<Rightarrow> bool \<Rightarrow> anthropic_request" where
  "openai_to_anthropic_base write req stream =
     (case anthropic_turns write (req_messages req) of (system_parts, messages) \<Rightarrow>
        \<lparr>an_model = req_model req,
         an_max_tokens = (case req_max_tokens req of Some n \<Rightarrow> n | None \<Rightarrow> 4096),
         an_system = (if system_parts = [] then None else Some (join [nl, nl] system_parts)),
         an_messages = messages, an_stop_sequences = stop_list (req_stop req),
         an_temperature = req_temperature req, an_top_p = req_top_p req,
         an_thinking = or_else (jget (req_extra req) ''thinking'') (jget (req_extra req) ''thinking_config''),
         an_stream = stream\<rparr>)"

definition openai_to_anthropic :: "(json \<Rightarrow> string) \<Rightarrow> chat_request \<Rightarrow> anthropic_request" where
  "openai_to_anthropic write req = openai_to_anthropic_base write req False"

definition openai_to_anthropic_stream :: "(json \<Rightarrow> string) \<Rightarrow> chat_request \<Rightarrow> anthropic_request" where
  "openai_to_anthropic_stream write req = openai_to_anthropic_base write req True"

record anthropic_content =
  ac_type :: string
  ac_text :: "string option"
  ac_thinking :: "string option"

record anthropic_response =
  ar_id :: string
  ar_model :: string
  ar_content :: "anthropic_content list"
  ar_stop_reason :: "string option"
  ar_usage :: json

definition dec_anthropic_content :: "json \<Rightarrow> anthropic_content option" where
  "dec_anthropic_content v =
     Option.bind (struct_map [(''type'', False), (''text'', True), (''thinking'', True)] v) (\<lambda>m.
     Option.bind (req_field as_str m ''type'') (\<lambda>ty.
     Option.bind (opt_field as_str m ''text'') (\<lambda>tx.
     Option.bind (opt_field as_str m ''thinking'') (\<lambda>th.
     Some \<lparr>ac_type = ty, ac_text = tx, ac_thinking = th\<rparr>))))"

definition dec_anthropic_response :: "json \<Rightarrow> anthropic_response option" where
  "dec_anthropic_response v =
     Option.bind (struct_map [(''id'', False), (''model'', False), (''content'', False), (''stop_reason'', False),
       (''usage'', False)] v) (\<lambda>m.
     Option.bind (req_field as_str m ''id'') (\<lambda>i.
     Option.bind (req_field as_str m ''model'') (\<lambda>md.
     Option.bind (req_field (dec_list dec_anthropic_content) m ''content'') (\<lambda>cs.
     Option.bind (opt_field as_str m ''stop_reason'') (\<lambda>sr.
     Option.bind (req_field Some m ''usage'') (\<lambda>us.
     Some \<lparr>ar_id = i, ar_model = md, ar_content = cs, ar_stop_reason = sr, ar_usage = us\<rparr>))))))"

text \<open>The closure over the content blocks: the reasoning texts and the answer texts.\<close>

fun split_blocks :: "anthropic_content list \<Rightarrow> string list \<times> string list" where
  "split_blocks [] = ([], [])"
| "split_blocks (c # cs) =
     (case split_blocks cs of (reasoning, answer) \<Rightarrow>
        if ac_type c = ''thinking'' then
          (case ac_thinking c of Some t \<Rightarrow> (t # reasoning, answer) | None \<Rightarrow> (reasoning, answer))
        else if ac_type c = ''text'' then
          (case ac_text c of Some t \<Rightarrow> (reasoning, t # answer) | None \<Rightarrow> (reasoning, answer))
        else (reasoning, answer))"

definition anthropic_finish :: "string option \<Rightarrow> string option" where
  "anthropic_finish stop =
     (if stop = Some ''end_turn'' then Some ''stop''
      else if stop = Some ''max_tokens'' then Some ''length''
      else if stop = Some ''stop_sequence'' then Some ''stop''
      else if stop = Some ''tool_use'' then Some ''tool_calls''
      else None)"

definition anthropic_to_openai :: "u64 \<Rightarrow> anthropic_response \<Rightarrow> string \<Rightarrow> chat_response" where
  "anthropic_to_openai now an model =
     (case split_blocks (ar_content an) of (reasoning, answer) \<Rightarrow>
        let p = token_count (Some (ar_usage an)) ''input_tokens'';
            c = token_count (Some (ar_usage an)) ''output_tokens''
        in \<lparr>resp_id = ar_id an, resp_object = ''chat.completion'', resp_created = now, resp_model = model,
            resp_choices =
              [\<lparr>ch_index = 0, ch_message = assistant_message (join [] answer) (join_parts reasoning),
                ch_finish_reason = anthropic_finish (ar_stop_reason an)\<rparr>],
            resp_usage = Some \<lparr>prompt_tokens = p, completion_tokens = c, total_tokens = p + c\<rparr>,
            resp_raw_usage_json = None\<rparr>)"

section \<open>Gemini\<close>

record gemini_content =
  gc_role :: string
  gc_parts :: "string list"

record gemini_generation_config =
  gg_max_output_tokens :: "u32 option"
  gg_temperature :: "rat option"
  gg_top_p :: "rat option"
  gg_stop_sequences :: "string list option"
  gg_thinking_config :: "json option"

record gemini_request =
  gq_contents :: "gemini_content list"
  gq_system_instruction :: "string list option"
  gq_generation_config :: "gemini_generation_config option"

definition enc_parts :: "string list \<Rightarrow> json" where
  "enc_parts ps = JArr (map (\<lambda>t. JObj [(''text'', JStr t)]) ps)"

definition enc_generation_config :: "gemini_generation_config \<Rightarrow> json" where
  "enc_generation_config g =
     JObj (some_entry ''maxOutputTokens'' enc_uint (gg_max_output_tokens g) @
           some_entry ''temperature'' JFloat (gg_temperature g) @
           some_entry ''topP'' JFloat (gg_top_p g) @
           some_entry ''stopSequences'' enc_strings (gg_stop_sequences g) @
           some_entry ''thinkingConfig'' id (gg_thinking_config g) @ [])"

definition enc_gemini_request :: "gemini_request \<Rightarrow> json" where
  "enc_gemini_request r =
     JObj ([(''contents'', JArr (map (\<lambda>c. JObj [(''role'', JStr (gc_role c)), (''parts'', enc_parts (gc_parts c))]) (gq_contents r)))] @
           some_entry ''systemInstruction'' (\<lambda>ps. JObj [(''parts'', enc_parts ps)]) (gq_system_instruction r) @
           some_entry ''generationConfig'' enc_generation_config (gq_generation_config r) @ [])"

fun gemini_turns :: "(json \<Rightarrow> string) \<Rightarrow> message list \<Rightarrow> string list \<times> gemini_content list" where
  "gemini_turns write [] = ([], [])"
| "gemini_turns write (m # ms) =
     (case gemini_turns write ms of (system, turns) \<Rightarrow>
        if msg_role m = ''system'' then
          (case msg_content m of JStr s \<Rightarrow> (s # system, turns) | _ \<Rightarrow> (system, turns))
        else if msg_role m = ''user'' then
          (system, \<lparr>gc_role = ''user'', gc_parts = [content_text write (msg_content m)]\<rparr> # turns)
        else if msg_role m = ''assistant'' then
          (system, \<lparr>gc_role = ''model'', gc_parts = [content_text write (msg_content m)]\<rparr> # turns)
        else (system, turns))"

definition openai_to_gemini :: "(json \<Rightarrow> string) \<Rightarrow> chat_request \<Rightarrow> gemini_request" where
  "openai_to_gemini write req =
     (case gemini_turns write (req_messages req) of (system_texts, contents) \<Rightarrow>
        \<lparr>gq_contents = contents,
         gq_system_instruction = (if system_texts = [] then None else Some [join [nl, nl] system_texts]),
         gq_generation_config = Some
           \<lparr>gg_max_output_tokens = Some (case req_max_tokens req of Some n \<Rightarrow> n | None \<Rightarrow> 8192),
            gg_temperature = req_temperature req, gg_top_p = req_top_p req,
            gg_stop_sequences = stop_list (req_stop req),
            gg_thinking_config =
              or_else (or_else (jget (req_extra req) ''thinkingConfig'') (jget (req_extra req) ''thinking_config''))
                (jget (req_extra req) ''thinking'')\<rparr>\<rparr>)"

record gemini_part =
  gp_text :: "string option"
  gp_thought :: bool

record candidate_dto =
  gd_parts :: "gemini_part list"
  gd_finish_reason :: "string option"

record gemini_response =
  gr_candidates :: "candidate_dto list"
  gr_usage_metadata :: "json option"

definition dec_gemini_part :: "json \<Rightarrow> gemini_part option" where
  "dec_gemini_part v =
     Option.bind (struct_map [(''text'', True), (''thought'', True)] v) (\<lambda>m.
     Option.bind (opt_field as_str m ''text'') (\<lambda>t.
     Option.bind (default_field False as_bool m ''thought'') (\<lambda>th.
     Some \<lparr>gp_text = t, gp_thought = th\<rparr>)))"

definition dec_gemini_content :: "json \<Rightarrow> gemini_part list option" where
  "dec_gemini_content v =
     Option.bind (struct_map [(''parts'', False)] v) (\<lambda>m. req_field (dec_list dec_gemini_part) m ''parts'')"

definition dec_gemini_candidate :: "json \<Rightarrow> candidate_dto option" where
  "dec_gemini_candidate v =
     Option.bind (struct_map [(''content'', False), (''finishReason'', False)] v) (\<lambda>m.
     Option.bind (req_field dec_gemini_content m ''content'') (\<lambda>ps.
     Option.bind (opt_field as_str m ''finishReason'') (\<lambda>fr.
     Some \<lparr>gd_parts = ps, gd_finish_reason = fr\<rparr>)))"

definition dec_gemini_response :: "json \<Rightarrow> gemini_response option" where
  "dec_gemini_response v =
     Option.bind (struct_map [(''candidates'', False), (''usageMetadata'', False)] v) (\<lambda>m.
     Option.bind (req_field (dec_list dec_gemini_candidate) m ''candidates'') (\<lambda>cs.
     Option.bind (opt_field Some m ''usageMetadata'') (\<lambda>us.
     Some \<lparr>gr_candidates = cs, gr_usage_metadata = us\<rparr>)))"

fun split_parts :: "gemini_part list \<Rightarrow> string list \<times> string list" where
  "split_parts [] = ([], [])"
| "split_parts (p # ps) =
     (case split_parts ps of (reasoning, answer) \<Rightarrow>
        (case gp_text p of
           None \<Rightarrow> (reasoning, answer)
         | Some t \<Rightarrow> if gp_thought p then (t # reasoning, answer) else (reasoning, t # answer)))"

definition gemini_to_openai :: "u64 \<Rightarrow> string \<Rightarrow> gemini_response \<Rightarrow> string \<Rightarrow> chat_response" where
  "gemini_to_openai now rand_hex gm model =
     (let candidate = (case gr_candidates gm of [] \<Rightarrow> None | c # _ \<Rightarrow> Some c)
      in case split_parts (case candidate of None \<Rightarrow> [] | Some c \<Rightarrow> gd_parts c) of (reasoning, answer) \<Rightarrow>
         let p = token_count (gr_usage_metadata gm) ''promptTokenCount'';
             c = token_count (gr_usage_metadata gm) ''candidatesTokenCount'';
             t = token_count (gr_usage_metadata gm) ''totalTokenCount''
         in \<lparr>resp_id = ''chatcmpl-'' @ rand_hex, resp_object = ''chat.completion'', resp_created = now,
             resp_model = model,
             resp_choices =
               [\<lparr>ch_index = 0, ch_message = assistant_message (join [] answer) (join_parts reasoning),
                 ch_finish_reason = map_option gemini_finish (Option.bind candidate gd_finish_reason)\<rparr>],
             resp_usage = Some \<lparr>prompt_tokens = p, completion_tokens = c,
               total_tokens = (if 0 < t then t else p + c)\<rparr>,
             resp_raw_usage_json = None\<rparr>)"

section \<open>The two formats carry the same conversation\<close>

definition from_gemini_role :: "string \<Rightarrow> string" where
  "from_gemini_role r = (if r = ''model'' then ''assistant'' else r)"

lemma turns_agree:
  "fst (gemini_turns write ms) = fst (anthropic_turns write ms) \<and>
   map (\<lambda>c. (from_gemini_role (gc_role c), gc_parts c)) (snd (gemini_turns write ms)) =
     map (\<lambda>m. (am_role m, [am_content m])) (snd (anthropic_turns write ms))"
  by (induction ms) (auto simp: from_gemini_role_def split: prod.splits json.splits)

text \<open>
  A request means the same to both native providers: the Anthropic and the Gemini translation carry
  the same system instruction, the same turns with the same speakers and texts, and the same stop
  sequences and sampling parameters.
\<close>

theorem requests_agree:
  "let an = openai_to_anthropic_base write req stream; gm = openai_to_gemini write req
   in gq_system_instruction gm = map_option (\<lambda>s. [s]) (an_system an) \<and>
      map (\<lambda>c. (from_gemini_role (gc_role c), gc_parts c)) (gq_contents gm) =
        map (\<lambda>m. (am_role m, [am_content m])) (an_messages an) \<and>
      (\<exists>g. gq_generation_config gm = Some g \<and> gg_stop_sequences g = an_stop_sequences an \<and>
         gg_temperature g = an_temperature an \<and> gg_top_p g = an_top_p an)"
  using turns_agree [of "write" "req_messages req"]
  by (auto simp: openai_to_anthropic_base_def openai_to_gemini_def Let_def split: prod.splits)

text \<open>A reply as a list of texts, each marked as reasoning or answer, in both native forms.\<close>

definition anthropic_blocks :: "(bool \<times> string) list \<Rightarrow> anthropic_content list" where
  "anthropic_blocks bs =
     map (\<lambda>(th, t). if th then \<lparr>ac_type = ''thinking'', ac_text = None, ac_thinking = Some t\<rparr>
       else \<lparr>ac_type = ''text'', ac_text = Some t, ac_thinking = None\<rparr>) bs"

definition gemini_parts :: "(bool \<times> string) list \<Rightarrow> gemini_part list" where
  "gemini_parts bs = map (\<lambda>(th, t). \<lparr>gp_text = Some t, gp_thought = th\<rparr>) bs"

lemma replies_split:
  "split_blocks (anthropic_blocks bs) = (map snd (filter fst bs), map snd (filter (\<lambda>b. \<not> fst b) bs))"
  "split_parts (gemini_parts bs) = (map snd (filter fst bs), map snd (filter (\<lambda>b. \<not> fst b) bs))"
  by (induction bs) (auto simp: anthropic_blocks_def gemini_parts_def)

text \<open>
  C10. A reply reaches the client in the same shape from both native providers: for the same texts, each
  reasoning or answer, both conversions produce the same assistant message, in which the reasoning
  texts and the answer texts are concatenated in order, and no text is lost.
\<close>

theorem replies_agree:
  assumes "ar_content an = anthropic_blocks bs" and "gr_candidates gm = \<lparr>gd_parts = gemini_parts bs, gd_finish_reason = fr\<rparr> # cs"
  shows "map ch_message (resp_choices (anthropic_to_openai now an model)) =
      [assistant_message (concat (map snd (filter (\<lambda>b. \<not> fst b) bs)))
         (if filter fst bs = [] then None else Some (concat (map snd (filter fst bs))))] \<and>
    map ch_message (resp_choices (gemini_to_openai now' rand gm model')) =
      map ch_message (resp_choices (anthropic_to_openai now an model))"
  using assms by (simp add: anthropic_to_openai_def gemini_to_openai_def Let_def replies_split join_parts_def)

theorem replies_agree_witness:
  "map ch_message (resp_choices (anthropic_to_openai 0
      \<lparr>ar_id = ''i'', ar_model = ''m'', ar_content = anthropic_blocks [(True, ''t''), (False, ''a''), (False, ''b'')],
       ar_stop_reason = None, ar_usage = JNull\<rparr> ''m'')) = [assistant_message ''ab'' (Some ''t'')] \<and>
   map ch_message (resp_choices (gemini_to_openai 0 ''r''
      \<lparr>gr_candidates = [\<lparr>gd_parts = gemini_parts [(True, ''t''), (False, ''a''), (False, ''b'')], gd_finish_reason = None\<rparr>],
       gr_usage_metadata = None\<rparr> ''m'')) = [assistant_message ''ab'' (Some ''t'')]"
  using replies_agree [of "\<lparr>ar_id = ''i'', ar_model = ''m'', ar_content = anthropic_blocks [(True, ''t''), (False, ''a''), (False, ''b'')],
       ar_stop_reason = None, ar_usage = JNull\<rparr>" "[(True, ''t''), (False, ''a''), (False, ''b'')]"
      "\<lparr>gr_candidates = [\<lparr>gd_parts = gemini_parts [(True, ''t''), (False, ''a''), (False, ''b'')], gd_finish_reason = None\<rparr>],
       gr_usage_metadata = None\<rparr>" None "[]" 0 "''m''" 0 "''r''" "''m''"]
  by simp

end
