(* ===== verification/Providers.thy ===== *)
theory Providers
  imports Provider_Convert Audit_Facts Gateway_Config Key_Router
begin

text \<open>
  The upstream providers (\<open>provider/mod.rs\<close>, \<open>provider/openai.rs\<close>, \<open>provider/anthropic.rs\<close>,
  \<open>provider/gemini.rs\<close>): one chat call, the health probe and the audit facts of each kind, the
  registry that builds them (\<open>provider/registry.rs\<close>, the factories of \<open>bootstrap.rs\<close>) and the router
  built from them (\<open>runtime.rs\<close>). A call sends one request and depends on the network only through
  the answer to it. The clock, random identifiers, the canonical text of a status and the text of a
  serialisation error are fields of the environment.
\<close>

record upstream_env =
  ue_http :: http_lib
  ue_json :: json_lib
  ue_now :: u64
  ue_uuid :: string
  ue_rand_hex :: string
  ue_show_status :: "u16 \<Rightarrow> string"
  ue_serialize_error :: string

datatype provider_response = Once chat_response | Stream "item list"

record provider =
  pr_kind :: provider_kind
  pr_id :: string
  pr_base_url :: string
  pr_bad_status_codes :: "u16 list"

definition is_bad_status :: "provider \<Rightarrow> u16 \<Rightarrow> bool" where
  "is_bad_status p s = (s \<in> set (pr_bad_status_codes p))"

abbreviation connect_error :: "string \<Rightarrow> app_error" where
  "connect_error m \<equiv> Upstream None True False m"

section \<open>Requests\<close>

definition bearer_post :: "string \<Rightarrow> string \<Rightarrow> json \<Rightarrow> http_request" where
  "bearer_post url key body =
     \<lparr>hq_method = ''POST'', hq_url = url,
      hq_headers = [(''authorization'', ''Bearer '' @ key), (''content-type'', ''application/json'')],
      hq_body = JsonBody body\<rparr>"

definition anthropic_post :: "string \<Rightarrow> string \<Rightarrow> (string \<times> string) list \<Rightarrow> json \<Rightarrow> http_request" where
  "anthropic_post url key headers body =
     \<lparr>hq_method = ''POST'', hq_url = url,
      hq_headers = [(''x-api-key'', key), (''anthropic-version'', ''2023-06-01'')] @ headers,
      hq_body = JsonBody body\<rparr>"

definition gemini_post :: "string \<Rightarrow> string \<Rightarrow> (string \<times> string) list \<Rightarrow> json \<Rightarrow> http_request" where
  "gemini_post url key headers body =
     \<lparr>hq_method = ''POST'', hq_url = url, hq_headers = [(''x-goog-api-key'', key)] @ headers, hq_body = JsonBody body\<rparr>"

definition is_streaming :: "chat_request \<Rightarrow> bool" where
  "is_streaming req = (case req_stream req of Some b \<Rightarrow> b | None \<Rightarrow> False)"

text \<open>The chunks of a streamed body; a failed read becomes an error item.\<close>

definition body_items :: "string \<Rightarrow> http_response \<Rightarrow> item list" where
  "body_items what resp =
     map (\<lambda>c. case c of Inr b \<Rightarrow> Inr b | Inl e \<Rightarrow> Inl (connect_error (what @ e))) (hr_chunks resp)"

section \<open>Chat\<close>

definition openai_reply :: "upstream_env \<Rightarrow> http_response \<Rightarrow> provider_response result" where
  "openai_reply env resp =
     (let is_stream = (case hr_content_type resp of Some ct \<Rightarrow> starts_with ct ''text/event-stream'' | None \<Rightarrow> False);
          fail = (\<lambda>e. Upstream (Some (hr_status resp)) False False (''failed to parse upstream response: '' @ e))
      in if is_stream then Inr (Stream (body_items ''stream read error: '' resp))
         else case response_json (ue_http env) resp of
                Inl e \<Rightarrow> Inl (fail e)
              | Inr raw \<Rightarrow>
                  (case dec_response raw of
                     None \<Rightarrow> Inl (fail (lib_type_error (ue_http env) raw))
                   | Some r \<Rightarrow> Inr (Once (r\<lparr>resp_raw_usage_json := jget raw ''usage''\<rparr>))))"

definition openai_chat :: "upstream_env \<Rightarrow> network \<Rightarrow> provider \<Rightarrow> chat_request \<Rightarrow> key_entry \<Rightarrow> provider_response result" where
  "openai_chat env net p req key =
     (case enc_request req of
        None \<Rightarrow> Inl (Internal (''failed to serialize request: '' @ ue_serialize_error env))
      | Some body \<Rightarrow>
          (case net (bearer_post (pr_base_url p @ ''/chat/completions'') (ke_key key) (JObj body)) of
             Inl e \<Rightarrow> Inl (connect_error (''upstream connect error: '' @ e))
           | Inr resp \<Rightarrow>
               let s = hr_status resp; msg = upstream_error_message (ue_http env) s resp
               in if is_success s then openai_reply env resp
                  else if is_server_error s then Inl (Upstream (Some s) True False msg)
                  else if is_bad_status p s then Inl (Upstream (Some s) True True msg)
                  else Inl (Upstream (Some s) False False msg)))"

text \<open>The streamed answer and the errors of the two native providers.\<close>

definition native_stream_reply ::
  "upstream_env \<Rightarrow> provider \<Rightarrow> (item list \<Rightarrow> item list) \<Rightarrow> string + http_response \<Rightarrow> provider_response result" where
  "native_stream_reply env p relay_body r =
     (case r of
        Inl e \<Rightarrow> Inl (connect_error (''stream connect: '' @ e))
      | Inr resp \<Rightarrow>
          let s = hr_status resp
          in if \<not> is_success s
             then Inl (Upstream (Some s) (500 \<le> s) (is_bad_status p s) (upstream_error_message (ue_http env) s resp))
             else Inr (Stream (relay_body (body_items ''stream error: '' resp))))"

definition native_error :: "upstream_env \<Rightarrow> provider \<Rightarrow> http_response \<Rightarrow> app_error" where
  "native_error env p resp =
     (let s = hr_status resp; msg = upstream_error_message (ue_http env) s resp
      in if 500 \<le> s then Upstream (Some s) True False msg
         else if is_bad_status p s then Upstream (Some s) True True msg
         else Upstream (Some s) False False msg)"

definition native_json ::
  "upstream_env \<Rightarrow> http_response \<Rightarrow> (json \<Rightarrow> 'a option) \<Rightarrow> string \<Rightarrow> ('a \<Rightarrow> chat_response) \<Rightarrow> provider_response result" where
  "native_json env resp dec usage_key convert =
     (let fail = (\<lambda>m. Upstream (Some (hr_status resp)) False False m)
      in case response_json (ue_http env) resp of
           Inl e \<Rightarrow> Inl (fail (''parse error: '' @ e))
         | Inr raw \<Rightarrow>
             (case dec raw of
                None \<Rightarrow> Inl (fail (''deserialize error: '' @ lib_type_error (ue_http env) raw))
              | Some r \<Rightarrow> Inr (Once ((convert r)\<lparr>resp_raw_usage_json := jget raw usage_key\<rparr>))))"

definition anthropic_chat :: "upstream_env \<Rightarrow> network \<Rightarrow> provider \<Rightarrow> chat_request \<Rightarrow> key_entry \<Rightarrow> provider_response result" where
  "anthropic_chat env net p req key =
     (let url = pr_base_url p @ ''/messages''; w = lib_write_json (ue_http env)
      in if is_streaming req then
           native_stream_reply env p
             (\<lambda>items. relay_anthropic_stream (ue_json env) (ue_uuid env) (ue_now env) items (req_model req))
             (net (anthropic_post url (ke_key key) [] (enc_anthropic_request (openai_to_anthropic_stream w req))))
         else
           case net (anthropic_post url (ke_key key) [(''content-type'', ''application/json'')]
                  (enc_anthropic_request (openai_to_anthropic w req))) of
             Inl e \<Rightarrow> Inl (connect_error (''anthropic connect error: '' @ e))
           | Inr resp \<Rightarrow>
               if is_success (hr_status resp)
               then native_json env resp dec_anthropic_response ''usage''
                      (\<lambda>an. anthropic_to_openai (ue_now env) an (req_model req))
               else Inl (native_error env p resp))"

definition gemini_chat :: "upstream_env \<Rightarrow> network \<Rightarrow> provider \<Rightarrow> chat_request \<Rightarrow> key_entry \<Rightarrow> provider_response result" where
  "gemini_chat env net p req key =
     (let base = pr_base_url p @ ''/models/'' @ req_model req;
          body = enc_gemini_request (openai_to_gemini (lib_write_json (ue_http env)) req)
      in if is_streaming req then
           native_stream_reply env p
             (\<lambda>items. relay_gemini_stream (ue_json env) (ue_uuid env) (ue_now env) items (req_model req))
             (net (gemini_post (base @ '':streamGenerateContent?alt=sse'') (ke_key key) [] body))
         else
           case net (gemini_post (base @ '':generateContent'') (ke_key key) [(''content-type'', ''application/json'')] body) of
             Inl e \<Rightarrow> Inl (connect_error (''gemini connect error: '' @ e))
           | Inr resp \<Rightarrow>
               if is_success (hr_status resp)
               then native_json env resp dec_gemini_response ''usageMetadata''
                      (\<lambda>gm. gemini_to_openai (ue_now env) (ue_rand_hex env) gm (req_model req))
               else Inl (native_error env p resp))"

fun chat :: "upstream_env \<Rightarrow> network \<Rightarrow> provider \<Rightarrow> chat_request \<Rightarrow> key_entry \<Rightarrow> provider_response result" where
  "chat env net p req key =
     (case pr_kind p of
        OpenAi \<Rightarrow> openai_chat env net p req key
      | Anthropic \<Rightarrow> anthropic_chat env net p req key
      | Gemini \<Rightarrow> gemini_chat env net p req key)"

declare chat.simps [simp del]

section \<open>Health probes\<close>

definition probe_reply :: "upstream_env \<Rightarrow> string \<Rightarrow> string \<Rightarrow> string + http_response \<Rightarrow> unit result" where
  "probe_reply env connect status r =
     (case r of
        Inl e \<Rightarrow> Inl (connect_error (connect @ e))
      | Inr resp \<Rightarrow>
          if is_success (hr_status resp) then Inr ()
          else Inl (Upstream (Some (hr_status resp)) True False (status @ ue_show_status env (hr_status resp))))"

definition probe_openai :: "upstream_env \<Rightarrow> network \<Rightarrow> string \<Rightarrow> key_entry \<Rightarrow> unit result" where
  "probe_openai env net base_url key =
     probe_reply env ''probe connect error: '' ''probe returned ''
       (net \<lparr>hq_method = ''GET'', hq_url = base_url @ ''/models'',
             hq_headers = [(''authorization'', ''Bearer '' @ ke_key key)], hq_body = NoBody\<rparr>)"

definition probe_anthropic :: "upstream_env \<Rightarrow> network \<Rightarrow> string \<Rightarrow> key_entry \<Rightarrow> unit result" where
  "probe_anthropic env net base_url key =
     probe_reply env ''probe error: '' ''probe: ''
       (net (anthropic_post (base_url @ ''/messages/count_tokens'') (ke_key key) []
          (JObj (obj_of [(''model'', JStr ''claude-3-5-sonnet-20241022''),
             (''messages'', JArr [JObj (obj_of [(''role'', JStr ''user''), (''content'', JStr ''.'')])])]))))"

definition probe_gemini :: "upstream_env \<Rightarrow> network \<Rightarrow> string \<Rightarrow> key_entry \<Rightarrow> unit result" where
  "probe_gemini env net base_url key =
     probe_reply env ''probe error: '' ''probe: ''
       (net \<lparr>hq_method = ''GET'', hq_url = base_url @ ''/models'',
             hq_headers = [(''x-goog-api-key'', ke_key key)], hq_body = NoBody\<rparr>)"

fun probe :: "upstream_env \<Rightarrow> network \<Rightarrow> provider \<Rightarrow> key_entry \<Rightarrow> unit result" where
  "probe env net p key =
     (case pr_kind p of
        OpenAi \<Rightarrow> probe_openai env net (pr_base_url p) key
      | Anthropic \<Rightarrow> probe_anthropic env net (pr_base_url p) key
      | Gemini \<Rightarrow> probe_gemini env net (pr_base_url p) key)"

section \<open>Audit facts\<close>

definition int_at :: "json \<Rightarrow> string list \<Rightarrow> int option" where
  "int_at v path = Option.bind (jpointer path v) as_i64"

definition extract_cache_from_usage :: "json \<Rightarrow> cache_report" where
  "extract_cache_from_usage raw =
     (case int_at raw [''prompt_tokens_details'', ''cached_tokens''] of
        Some cached \<Rightarrow> \<lparr>cr_hit_tokens = Some cached, cr_creation_tokens = None, cr_source = OpenAiPromptCache\<rparr>
      | None \<Rightarrow>
          (case int_at raw [''prompt_cache_hit_tokens''] of
             Some cached \<Rightarrow> \<lparr>cr_hit_tokens = Some cached, cr_creation_tokens = None, cr_source = DeepSeekPromptCache\<rparr>
           | None \<Rightarrow> cache_report_none))"

definition first_finish :: "chat_response \<Rightarrow> string option" where
  "first_finish r = (case resp_choices r of [] \<Rightarrow> None | c # _ \<Rightarrow> ch_finish_reason c)"

definition openai_audit :: "chat_response \<Rightarrow> audit_from_provider" where
  "openai_audit r =
     (let a = (case resp_raw_usage_json r of
                 None \<Rightarrow> audit_provider_default
               | Some raw \<Rightarrow> audit_provider_default
                   \<lparr>ap_cache := extract_cache_from_usage raw,
                    ap_reasoning_tokens := int_at raw [''completion_tokens_details'', ''reasoning_tokens''],
                    ap_audio_tokens := int_at raw [''completion_tokens_details'', ''audio_tokens'']\<rparr>)
      in a\<lparr>ap_finish_reason := first_finish r, ap_upstream_model := Some (resp_model r)\<rparr>)"

definition anthropic_audit :: "chat_response \<Rightarrow> audit_from_provider" where
  "anthropic_audit r =
     (let a = (case resp_raw_usage_json r of
                 None \<Rightarrow> audit_provider_default
               | Some raw \<Rightarrow>
                   let hit = int_at raw [''cache_read_input_tokens''];
                       creation = int_at raw [''cache_creation_input_tokens'']
                   in if hit \<noteq> None \<or> creation \<noteq> None
                      then audit_provider_default\<lparr>ap_cache :=
                             \<lparr>cr_hit_tokens = hit, cr_creation_tokens = creation, cr_source = AnthropicCacheControl\<rparr>\<rparr>
                      else audit_provider_default)
      in a\<lparr>ap_upstream_model := Some (resp_model r), ap_finish_reason := first_finish r\<rparr>)"

definition gemini_audit :: "chat_response \<Rightarrow> audit_from_provider" where
  "gemini_audit r =
     (let a = (case Option.bind (resp_raw_usage_json r) (\<lambda>raw. int_at raw [''cachedContentTokenCount'']) of
                 None \<Rightarrow> audit_provider_default
               | Some cached \<Rightarrow> audit_provider_default\<lparr>ap_cache :=
                   \<lparr>cr_hit_tokens = Some cached, cr_creation_tokens = None, cr_source = GeminiCachedContent\<rparr>\<rparr>)
      in a\<lparr>ap_upstream_model := Some (resp_model r), ap_finish_reason := first_finish r\<rparr>)"

fun extract_audit :: "provider \<Rightarrow> provider_response \<Rightarrow> audit_from_provider" where
  "extract_audit p (Stream _) = audit_provider_default"
| "extract_audit p (Once r) =
     (case pr_kind p of OpenAi \<Rightarrow> openai_audit r | Anthropic \<Rightarrow> anthropic_audit r | Gemini \<Rightarrow> gemini_audit r)"

section \<open>The provider registry\<close>

record provider_factory =
  fc_kind_name :: string
  fc_create :: "provider_config \<Rightarrow> u16 list \<Rightarrow> provider result"
  fc_supports :: "provider_kind \<Rightarrow> bool"

definition provider_new :: "provider_kind \<Rightarrow> provider_config \<Rightarrow> u16 list \<Rightarrow> provider" where
  "provider_new kind cfg codes =
     \<lparr>pr_kind = kind, pr_id = pv_id cfg, pr_base_url = pv_base_url cfg, pr_bad_status_codes = codes\<rparr>"

definition factory_of :: "string \<Rightarrow> provider_kind \<Rightarrow> provider_factory" where
  "factory_of name kind =
     \<lparr>fc_kind_name = name, fc_create = (\<lambda>cfg codes. Inr (provider_new kind cfg codes)), fc_supports = (\<lambda>k. k = kind)\<rparr>"

type_synonym provider_registry = "provider_factory list"

definition register :: "provider_factory \<Rightarrow> provider_registry \<Rightarrow> provider_registry" where
  "register f reg = reg @ [f]"

definition boot_registry :: provider_registry where
  "boot_registry =
     register (factory_of ''gemini'' Gemini)
       (register (factory_of ''anthropic'' Anthropic) (register (factory_of ''openai'' OpenAi) []))"

fun show_provider_kind :: "provider_kind \<Rightarrow> string" where
  "show_provider_kind OpenAi = ''OpenAi''"
| "show_provider_kind Anthropic = ''Anthropic''"
| "show_provider_kind Gemini = ''Gemini''"

fun build_one :: "provider_registry \<Rightarrow> provider_config \<Rightarrow> u16 list \<Rightarrow> provider result" where
  "build_one [] cfg codes =
     Inl (Config (''no provider factory found for kind '' @ quoted (show_provider_kind (pv_kind cfg))))"
| "build_one (f # fs) cfg codes = (if fc_supports f (pv_kind cfg) then fc_create f cfg codes else build_one fs cfg codes)"

fun build_all :: "provider_registry \<Rightarrow> provider_config list \<Rightarrow> u16 list \<Rightarrow> (string, provider) dmap \<Rightarrow>
    (string, provider) dmap result" where
  "build_all reg [] codes providers = Inr providers"
| "build_all reg (cfg # cfgs) codes providers =
     (case build_one reg cfg codes of
        Inl e \<Rightarrow> Inl e
      | Inr p \<Rightarrow> build_all reg cfgs codes (dm_insert (pv_pool_id cfg) p providers))"

section \<open>Building a router\<close>

definition route_of :: "string \<Rightarrow> pool_config \<Rightarrow> model_routing \<Rightarrow> route" where
  "route_of pool_id pool routing = (pool_id, pool, routing_default_params routing, routing_upstream_model routing)"

fun check_routes :: "(string, pool_config) dmap \<Rightarrow> (string \<times> model_routing) list \<Rightarrow> app_error option" where
  "check_routes pools [] = None"
| "check_routes pools ((model, r) # rs) =
     (if dm_get pools (routing_pool_id r) = None
      then Some (Config (''pool '' @ quoted (routing_pool_id r) @ '' referenced by model '' @ quoted model @
             '' not found in configured pools''))
      else check_routes pools rs)"

fun add_routes :: "(string, pool_config) dmap \<Rightarrow> (string \<times> model_routing) list \<Rightarrow> (string, route) dmap \<Rightarrow>
    (string, route) dmap result" where
  "add_routes pools [] mm = Inr mm"
| "add_routes pools ((model, r) # rs) mm =
     (case dm_get pools (routing_pool_id r) of
        None \<Rightarrow> Inl (Config (''pool '' @ quoted (routing_pool_id r) @ '' not found''))
      | Some pool \<Rightarrow> add_routes pools rs (dm_insert model (route_of (routing_pool_id r) pool r) mm))"

definition rebuild_router ::
  "provider_registry \<Rightarrow> u16 list \<Rightarrow> provider_config list \<Rightarrow> (string, pool_config) dmap \<Rightarrow> (string, model_routing) dmap \<Rightarrow>
     provider router result" where
  "rebuild_router reg codes providers pools routing =
     (case build_all reg providers codes [] of
        Inl e \<Rightarrow> Inl e
      | Inr ps \<Rightarrow>
          (case check_routes pools routing of
             Some e \<Rightarrow> Inl e
           | None \<Rightarrow>
               (case add_routes pools routing [] of
                  Inl e \<Rightarrow> Inl e
                | Inr mm \<Rightarrow> Inr \<lparr>rt_model_map = mm, rt_providers = ps\<rparr>)))"

section \<open>One request, one answer\<close>

text \<open>A chat call depends on the network through the answer to a single request.\<close>

lemma chat_one_request: "\<exists>rq. \<forall>net. chat env net p req key = chat env (\<lambda>_. net rq) p req key"
proof (cases "pr_kind p")
  case OpenAi
  then show ?thesis by (cases "enc_request req") (auto simp: chat.simps openai_chat_def)
next
  case Anthropic
  then show ?thesis by (cases "is_streaming req") (auto simp: chat.simps anthropic_chat_def Let_def)
next
  case Gemini
  then show ?thesis by (cases "is_streaming req") (auto simp: chat.simps gemini_chat_def Let_def)
qed

text \<open>
  C9. How an upstream failure is classified. A refusal with a status in the list of bad codes marks the key
  and is retried with another one; a server error is retried without blaming the key; any other
  refusal is final. A streamed request to a native provider differs: there a bad code marks the key
  but is not retried, and a listed server error blames the key.
\<close>

theorem upstream_error_table:
  assumes "\<not> is_success (hr_status resp)" and "hr_status resp < 600" and "enc_request req = Some body"
  shows "let s = hr_status resp; bad = is_bad_status p s; native_stream = (pr_kind p \<noteq> OpenAi \<and> is_streaming req)
    in chat env (\<lambda>_. Inr resp) p req key =
         Inl (Upstream (Some s) (500 \<le> s \<or> bad \<and> \<not> native_stream) (bad \<and> (s < 500 \<or> native_stream))
           (upstream_error_message (ue_http env) s resp))"
proof (cases "pr_kind p")
  case OpenAi
  have "is_server_error (hr_status resp) \<longleftrightarrow> 500 \<le> hr_status resp"
    using assms(2) by (simp add: is_server_error_def)
  then show ?thesis using OpenAi assms by (auto simp: chat.simps openai_chat_def Let_def not_le)
next
  case Anthropic
  then show ?thesis
    using assms(1) by (auto simp: chat.simps anthropic_chat_def native_stream_reply_def native_error_def Let_def not_le)
next
  case Gemini
  then show ?thesis
    using assms(1) by (auto simp: chat.simps gemini_chat_def native_stream_reply_def native_error_def Let_def not_le)
qed

definition plain_env :: upstream_env where
  "plain_env =
     \<lparr>ue_http = \<lparr>lib_parse_json = (\<lambda>_. Inl ''no''), lib_type_error = (\<lambda>_. []), lib_decode_text = id, lib_write_json = (\<lambda>_. [])\<rparr>,
      ue_json = \<lparr>jl_parse = (\<lambda>_. Inl ''no''), jl_write = (\<lambda>_. [])\<rparr>, ue_now = 0, ue_uuid = ''u'', ue_rand_hex = ''r'',
      ue_show_status = (\<lambda>_. []), ue_serialize_error = []\<rparr>"

definition claude :: provider where
  "claude = \<lparr>pr_kind = Anthropic, pr_id = ''c'', pr_base_url = ''https://a'', pr_bad_status_codes = [401, 429]\<rparr>"

definition streamed_request :: chat_request where
  "streamed_request =
     \<lparr>req_model = ''m'', req_messages = [], req_stream = Some True, req_max_tokens = None, req_temperature = None,
      req_top_p = None, req_stop = None, req_presence_penalty = None, req_frequency_penalty = None, req_user = None,
      req_tools = None, req_tool_choice = None, req_stream_options = None, req_extra = JNull\<rparr>"

theorem upstream_error_table_witness:
  "chat plain_env (\<lambda>_. Inr \<lparr>hr_status = 429, hr_content_type = None, hr_chunks = []\<rparr>) claude streamed_request (api_key ''k'' 1) =
     Inl (Upstream (Some 429) False True ''upstream 429'')"
proof -
  let ?resp = "\<lparr>hr_status = 429, hr_content_type = None, hr_chunks = []\<rparr> :: http_response"
  have "\<not> is_success (hr_status ?resp)" "hr_status ?resp < 600" by code_simp+
  moreover obtain body where "enc_request streamed_request = Some body"
    by (simp add: enc_request.simps streamed_request_def)
  moreover have "is_bad_status claude 429" "pr_kind claude = Anthropic" "is_streaming streamed_request"
    "upstream_error_message (ue_http plain_env) 429 ?resp = ''upstream 429''"
    by code_simp+
  ultimately show ?thesis
    using upstream_error_table [of ?resp streamed_request body claude plain_env "api_key ''k'' 1"] by (simp add: Let_def)
qed

section \<open>The router of a configuration\<close>

lemma build_one_boot: "build_one boot_registry cfg codes = Inr (provider_new (pv_kind cfg) cfg codes)"
  by (cases "pv_kind cfg") (simp_all add: boot_registry_def register_def factory_of_def)

lemma build_all_boot:
  "\<exists>ps'. build_all boot_registry cfgs codes ps = Inr ps' \<and>
     (\<forall>pool. dm_get ps' pool =
        (case find (\<lambda>cfg. pv_pool_id cfg = pool) (rev cfgs) of
           Some cfg \<Rightarrow> Some (provider_new (pv_kind cfg) cfg codes) | None \<Rightarrow> dm_get ps pool))"
proof (induction cfgs arbitrary: ps)
  case (Cons cfg cfgs)
  obtain ps' where ps': "build_all boot_registry cfgs codes (dm_insert (pv_pool_id cfg) (provider_new (pv_kind cfg) cfg codes) ps) = Inr ps'"
    "\<forall>pool. dm_get ps' pool =
      (case find (\<lambda>cfg. pv_pool_id cfg = pool) (rev cfgs) of
         Some cfg \<Rightarrow> Some (provider_new (pv_kind cfg) cfg codes)
       | None \<Rightarrow> dm_get (dm_insert (pv_pool_id cfg) (provider_new (pv_kind cfg) cfg codes) ps) pool)"
    using Cons.IH by blast
  have "find P (xs @ [y]) = (case find P xs of Some x \<Rightarrow> Some x | None \<Rightarrow> if P y then Some y else None)" for P xs and y :: provider_config
    by (induction xs) auto
  then show ?case using ps' by (auto simp: build_one_boot split: option.splits)
qed simp

lemma check_routes_None:
  "check_routes pools rs = None \<longleftrightarrow> list_all (\<lambda>(_, r). dm_get pools (routing_pool_id r) \<noteq> None) rs"
  by (induction rs rule: check_routes.induct) auto

lemma add_routes_get:
  assumes "list_all (\<lambda>(_, r). dm_get pools (routing_pool_id r) \<noteq> None) rs" and "distinct (map fst rs)"
  shows "\<exists>mm'. add_routes pools rs mm = Inr mm' \<and>
    (\<forall>model. dm_get mm' model =
       (case dm_get rs model of
          Some r \<Rightarrow> Some (route_of (routing_pool_id r) (the (dm_get pools (routing_pool_id r))) r)
        | None \<Rightarrow> dm_get mm model))"
  using assms
proof (induction pools rs mm rule: add_routes.induct)
  case (2 pools model r rs mm)
  then obtain pool where pool: "dm_get pools (routing_pool_id r) = Some pool" by auto
  let ?mm = "dm_insert model (route_of (routing_pool_id r) pool r) mm"
  obtain mm' where "add_routes pools rs ?mm = Inr mm'"
    "\<forall>m. dm_get mm' m = (case dm_get rs m of
          Some r \<Rightarrow> Some (route_of (routing_pool_id r) (the (dm_get pools (routing_pool_id r))) r)
        | None \<Rightarrow> dm_get ?mm m)"
    using 2 pool by auto
  moreover have "dm_get rs model = None" using 2(3) by (simp add: map_of_eq_None_iff)
  ultimately show ?case using pool by (auto split: option.splits)
qed simp

lemma router_resolves:
  assumes "dm_wf routing" and routes: "\<And>model r. dm_get routing model = Some r \<Longrightarrow> dm_get pools (routing_pool_id r) \<noteq> None"
  shows "\<exists>rt. rebuild_router boot_registry codes providers pools routing = Inr rt \<and>
    (\<forall>model. resolve rt model =
      (case dm_get routing model of
         None \<Rightarrow> Inl (NotFound (''model '' @ quoted model @ '' not found''))
       | Some r \<Rightarrow>
           let pool_id = routing_pool_id r
           in case find (\<lambda>cfg. pv_pool_id cfg = pool_id) (rev providers) of
                None \<Rightarrow> Inl (Config (''pool '' @ quoted pool_id @ '' not found''))
              | Some cfg \<Rightarrow> Inr (provider_new (pv_kind cfg) cfg codes, the (dm_get pools pool_id), pool_id,
                   routing_default_params r, routing_upstream_model r)))"
proof -
  obtain ps where ps: "build_all boot_registry providers codes [] = Inr ps"
    "\<And>pool. dm_get ps pool =
      (case find (\<lambda>cfg. pv_pool_id cfg = pool) (rev providers) of
         Some cfg \<Rightarrow> Some (provider_new (pv_kind cfg) cfg codes) | None \<Rightarrow> None)"
    using build_all_boot [of providers codes "[]"] by (auto cong: option.case_cong)
  have all: "list_all (\<lambda>(_, r). dm_get pools (routing_pool_id r) \<noteq> None) routing"
    using routes dm_get_in_set [OF assms(1)] by (auto simp: list_all_iff)
  obtain mm where mm: "add_routes pools routing [] = Inr mm"
    "\<And>model. dm_get mm model =
       (case dm_get routing model of
          Some r \<Rightarrow> Some (route_of (routing_pool_id r) (the (dm_get pools (routing_pool_id r))) r) | None \<Rightarrow> None)"
    using add_routes_get [OF all, of "[]"] assms(1) by (auto simp: dm_wf_def cong: option.case_cong)
  have "check_routes pools routing = None" using all by (simp add: check_routes_None)
  then show ?thesis by (auto simp: rebuild_router_def ps mm resolve_def route_of_def Let_def split: option.split)
qed

lemma router_refused:
  assumes "dm_get routing model = Some r" and "dm_get pools (routing_pool_id r) = None"
  shows "\<exists>e. rebuild_router boot_registry codes providers pools routing = Inl e"
proof -
  have "check_routes pools routing \<noteq> None"
    using assms(2) map_of_SomeD [OF assms(1)] unfolding check_routes_None list_all_iff
    by (auto intro!: bexI [of _ "(model, r)"] simp del: not_None_eq)
  then show ?thesis
    using build_all_boot [of providers codes "[]"] by (auto simp: rebuild_router_def)
qed

text \<open>
  C8. The live router implements the managed configuration. Rebuilding it fails exactly when a routed
  model names a pool that does not exist. Otherwise a request for a routed model resolves to that
  pool, with the parameters and upstream name of the route and the last provider configured for
  the pool, and is refused as a configuration error when no provider serves the pool; a model
  without a route is unknown.
\<close>

theorem rebuild_router_correct:
  assumes "dm_wf routing"
  shows "case rebuild_router boot_registry codes providers pools routing of
      Inl _ \<Rightarrow> \<exists>model r. dm_get routing model = Some r \<and> dm_get pools (routing_pool_id r) = None
    | Inr rt \<Rightarrow>
        (case dm_get routing model of
           None \<Rightarrow> resolve rt model = Inl (NotFound (''model '' @ quoted model @ '' not found''))
         | Some r \<Rightarrow>
             let pool_id = routing_pool_id r
             in dm_get pools pool_id \<noteq> None \<and>
                resolve rt model =
                  (case find (\<lambda>cfg. pv_pool_id cfg = pool_id) (rev providers) of
                     None \<Rightarrow> Inl (Config (''pool '' @ quoted pool_id @ '' not found''))
                   | Some cfg \<Rightarrow> Inr (provider_new (pv_kind cfg) cfg codes, the (dm_get pools pool_id), pool_id,
                        routing_default_params r, routing_upstream_model r)))"
proof (cases "\<forall>model r. dm_get routing model = Some r \<longrightarrow> dm_get pools (routing_pool_id r) \<noteq> None")
  case True
  then show ?thesis
    using router_resolves [OF assms, of pools codes providers] by (fastforce simp: Let_def split: option.split)
next
  case False
  then show ?thesis using router_refused [of routing _ _ pools codes providers] by fastforce
qed

theorem rebuild_router_correct_witness:
  "\<exists>rt. rebuild_router boot_registry [] [\<lparr>pv_id = ''a'', pv_pool_id = ''p'', pv_base_url = ''u'', pv_kind = Gemini, pv_metadata = JNull\<rparr>]
      [(''p'', \<lparr>pc_keys = []\<rparr>)] [(''m'', Simple ''p'')] = Inr rt \<and>
    (\<exists>rest. resolve rt ''m'' = Inr rest)"
proof -
  let ?cfg = "\<lparr>pv_id = ''a'', pv_pool_id = ''p'', pv_base_url = ''u'', pv_kind = Gemini, pv_metadata = JNull\<rparr>"
  have "dm_wf [(''m'', Simple ''p'')]" by (simp add: dm_wf_def)
  from rebuild_router_correct [OF this, where codes = "[]" and providers = "[?cfg]" and
      pools = "[(''p'', \<lparr>pc_keys = []\<rparr>)]" and model = "''m''"]
  show ?thesis by (auto simp: Let_def split: sum.splits if_splits)
qed

end
