(* ===== verification/Credentials.thy ===== *)
theory Credentials
  imports Bad_Keys Upstream_Http Chat_Types
begin

text \<open>
  Refreshable upstream credentials (\<open>credential/mod.rs\<close>, \<open>credential/xai.rs\<close>): the live token cache with
  \<open>ensure_fresh\<close>, and the device-code login. The token endpoint is a function of the time of the
  request; it answers with a connection error or a response, and with the milliseconds the exchange
  took. The per-identity mutex makes \<open>ensure_fresh\<close> one step; its table of locks is part of the state.
  Times are \<open>i64\<close> milliseconds, with the wrap-around of the arithmetic written out.
\<close>

definition wrap_i64 :: "int \<Rightarrow> int" where
  "wrap_i64 x = sint (word_of_int x :: u64)"

lemma wrap_i64_id: "- (2 ^ 63) \<le> x \<Longrightarrow> x < 2 ^ 63 \<Longrightarrow> wrap_i64 x = x"
  by (simp add: wrap_i64_def sint_sbintrunc' signed_take_bit_int_eq_self)

section \<open>Data\<close>

record live_token =
  lt_access :: string
  lt_refresh :: string
  lt_expires :: int

record xai_endpoints =
  xe_token_url :: string
  xe_device_code_url :: string
  xe_client_id :: string

definition xai_default :: xai_endpoints where
  "xai_default =
     \<lparr>xe_token_url = ''https://auth.x.ai/oauth2/token'',
      xe_device_code_url = ''https://auth.x.ai/oauth2/device/code'',
      xe_client_id = ''b1a00492-073a-47ea-816f-4c329264a828''\<rparr>"

definition xai_scope :: string where
  "xai_scope = ''openid profile email offline_access grok-cli:access api:access''"

definition refresh_skew_ms :: int where
  "refresh_skew_ms = 5 * 60 * 1000"

record token_response =
  tr_access_token :: "string option"
  tr_refresh_token :: "string option"
  tr_expires_in :: "int option"
  tr_error :: "string option"
  tr_error_description :: "string option"

definition token_fields :: fields where
  "token_fields =
     [(''access_token'', False), (''refresh_token'', False), (''expires_in'', False), (''error'', False),
      (''error_description'', False)]"

definition dec_token_response :: "json \<Rightarrow> token_response option" where
  "dec_token_response v =
     Option.bind (struct_map token_fields v) (\<lambda>m.
     Option.bind (opt_field as_str m ''access_token'') (\<lambda>a.
     Option.bind (opt_field as_str m ''refresh_token'') (\<lambda>r.
     Option.bind (opt_field as_i64 m ''expires_in'') (\<lambda>x.
     Option.bind (opt_field as_str m ''error'') (\<lambda>e.
     Option.bind (opt_field as_str m ''error_description'') (\<lambda>d.
     Some \<lparr>tr_access_token = a, tr_refresh_token = r, tr_expires_in = x, tr_error = e, tr_error_description = d\<rparr>))))))"

record device_code_response =
  dr_device_code :: "string option"
  dr_user_code :: "string option"
  dr_verification_uri :: "string option"
  dr_verification_uri_complete :: "string option"
  dr_interval :: "u64 option"
  dr_expires_in :: "u64 option"
  dr_error :: "string option"
  dr_error_description :: "string option"

definition device_fields :: fields where
  "device_fields =
     [(''device_code'', False), (''user_code'', False), (''verification_uri'', False),
      (''verification_uri_complete'', False), (''interval'', False), (''expires_in'', False), (''error'', False),
      (''error_description'', False)]"

definition dec_device_code_response :: "json \<Rightarrow> device_code_response option" where
  "dec_device_code_response v =
     Option.bind (struct_map device_fields v) (\<lambda>m.
     Option.bind (opt_field as_str m ''device_code'') (\<lambda>c.
     Option.bind (opt_field as_str m ''user_code'') (\<lambda>u.
     Option.bind (opt_field as_str m ''verification_uri'') (\<lambda>vu.
     Option.bind (opt_field as_str m ''verification_uri_complete'') (\<lambda>vc.
     Option.bind (opt_field dec_u64 m ''interval'') (\<lambda>i.
     Option.bind (opt_field dec_u64 m ''expires_in'') (\<lambda>x.
     Option.bind (opt_field as_str m ''error'') (\<lambda>e.
     Option.bind (opt_field as_str m ''error_description'') (\<lambda>d.
     Some \<lparr>dr_device_code = c, dr_user_code = u, dr_verification_uri = vu, dr_verification_uri_complete = vc,
           dr_interval = i, dr_expires_in = x, dr_error = e, dr_error_description = d\<rparr>)))))))))"

record device_code =
  dv_device_code :: string
  dv_user_code :: string
  dv_verification_uri :: string
  dv_verification_uri_complete :: "string option"
  dv_interval_seconds :: u64
  dv_expires_in_seconds :: u64

record device_code_prompt =
  dp_user_code :: string
  dp_verification_uri :: string
  dp_expires_in_seconds :: u64

section \<open>Errors\<close>

definition oauth_upstream :: "string \<Rightarrow> app_error" where
  "oauth_upstream m = Upstream (Some 401) True True m"

definition format_oauth_error :: "string \<Rightarrow> u16 \<Rightarrow> string option \<Rightarrow> string option \<Rightarrow> string" where
  "format_oauth_error action status error description =
     (let detail = join '': '' (List.map_filter id [error, description]);
          base = ''xAI OAuth '' @ action @ '' failed (HTTP '' @ show_nat (unat status) @ '')''
      in if detail = [] then base else base @ '': '' @ detail)"

definition oauth_denied :: "u16 \<Rightarrow> token_response \<Rightarrow> app_error" where
  "oauth_denied status body =
     Upstream (Some status) True True
       (format_oauth_error ''token refresh'' status (tr_error body) (tr_error_description body))"

section \<open>Token responses\<close>

type_synonym timed_net = "int \<Rightarrow> http_request \<Rightarrow> (string + http_response) \<times> nat"

definition form_post :: "string \<Rightarrow> (string \<times> string) list \<Rightarrow> http_request" where
  "form_post url fs =
     \<lparr>hq_method = ''POST'', hq_url = url, hq_headers = [(''Accept'', ''application/json'')], hq_body = FormBody fs\<rparr>"

definition credentials_from_token :: "int \<Rightarrow> token_response \<Rightarrow> string option \<Rightarrow> live_token result" where
  "credentials_from_token now body previous_refresh =
     (case nonempty (tr_access_token body) of
        None \<Rightarrow> Inl (oauth_upstream ''xAI token response missing access_token'')
      | Some access \<Rightarrow>
          (case or_else (nonempty (tr_refresh_token body)) (nonempty previous_refresh) of
             None \<Rightarrow> Inl (oauth_upstream ''xAI token response missing refresh_token'')
           | Some refresh \<Rightarrow>
               let lifetime = (case tr_expires_in body of Some v \<Rightarrow> if 0 < v then v else 3600 | None \<Rightarrow> 3600)
               in Inr \<lparr>lt_access = access, lt_refresh = refresh,
                       lt_expires = wrap_i64 (wrap_i64 (now + wrap_i64 (lifetime * 1000)) - refresh_skew_ms)\<rparr>))"

text \<open>\<open>resp.json()\<close> into a token response: a failing read, a text that is not JSON, or a value of the
  wrong type.\<close>

definition json_body :: "http_lib \<Rightarrow> (json \<Rightarrow> 'a option) \<Rightarrow> http_response \<Rightarrow> string + 'a" where
  "json_body lib dec r =
     (case response_json lib r of
        Inl e \<Rightarrow> Inl e
      | Inr v \<Rightarrow> (case dec v of None \<Rightarrow> Inl (lib_type_error lib v) | Some x \<Rightarrow> Inr x))"

definition refresh_request :: "xai_endpoints \<Rightarrow> string \<Rightarrow> http_request" where
  "refresh_request ep refresh =
     form_post (xe_token_url ep)
       [(''grant_type'', ''refresh_token''), (''client_id'', xe_client_id ep), (''refresh_token'', refresh)]"

definition refresh_token :: "http_lib \<Rightarrow> timed_net \<Rightarrow> int \<Rightarrow> xai_endpoints \<Rightarrow> string \<Rightarrow> live_token result" where
  "refresh_token lib net now ep refresh =
     (case net now (refresh_request ep refresh) of
        (Inl e, _) \<Rightarrow> Inl (oauth_upstream (''xAI token refresh request failed: '' @ e))
      | (Inr resp, took) \<Rightarrow>
          (case json_body lib dec_token_response resp of
             Inl e \<Rightarrow> Inl (oauth_upstream (''xAI token refresh returned invalid JSON: '' @ e))
           | Inr body \<Rightarrow>
               if \<not> is_success (hr_status resp) then Inl (oauth_denied (hr_status resp) body)
               else credentials_from_token (now + int took) body (Some refresh)))"

section \<open>The live token cache\<close>

text \<open>The database of the runtime is the sequence of rotations it was told to store.\<close>

record credential_runtime =
  cr_tokens :: "(string, live_token) dmap"
  cr_locks :: "(string, unit) dmap"
  cr_db :: "(string \<times> live_token) list option"
  cr_xai :: xai_endpoints

definition credential_runtime_new :: "bool \<Rightarrow> credential_runtime" where
  "credential_runtime_new db =
     \<lparr>cr_tokens = [], cr_locks = [], cr_db = (if db then Some [] else None), cr_xai = xai_default\<rparr>"

definition with_xai :: "bool \<Rightarrow> xai_endpoints \<Rightarrow> credential_runtime" where
  "with_xai db xai = \<lparr>cr_tokens = [], cr_locks = [], cr_db = (if db then Some [] else None), cr_xai = xai\<rparr>"

definition token_expired :: "int \<Rightarrow> int \<Rightarrow> bool" where
  "token_expired now expires = (expires \<le> now)"

definition apply_live :: "(string \<Rightarrow> string) \<Rightarrow> key_entry \<Rightarrow> live_token \<Rightarrow> key_entry" where
  "apply_live H entry live =
     (let out = (if nonempty (ke_identity entry) = None then entry\<lparr>ke_identity := Some (identity_hash H entry)\<rparr> else entry)
      in out\<lparr>ke_key := lt_access live, ke_refresh := Some (lt_refresh live), ke_expires := Some (lt_expires live)\<rparr>)"

definition persist :: "string \<Rightarrow> live_token \<Rightarrow> credential_runtime \<Rightarrow> credential_runtime" where
  "persist identity live rt = rt\<lparr>cr_db := map_option (\<lambda>log. log @ [(identity, live)]) (cr_db rt)\<rparr>"

definition take_lock :: "string \<Rightarrow> credential_runtime \<Rightarrow> credential_runtime" where
  "take_lock identity rt =
     (if dm_get (cr_locks rt) identity = None then rt\<lparr>cr_locks := dm_insert identity () (cr_locks rt)\<rparr> else rt)"

definition refresh_live ::
  "(string \<Rightarrow> string) \<Rightarrow> http_lib \<Rightarrow> timed_net \<Rightarrow> int \<Rightarrow> key_entry \<Rightarrow> credential_runtime \<Rightarrow>
     key_entry result \<times> credential_runtime" where
  "refresh_live H lib net now entry rt =
     (case nonempty (ke_refresh entry) of
        None \<Rightarrow> (Inl (oauth_upstream ''oauth credential is missing a refresh token''), rt)
      | Some refresh \<Rightarrow>
          let issuer = (case ke_issuer entry of Some i \<Rightarrow> i | None \<Rightarrow> [])
          in if issuer \<noteq> ''xai'' then (Inl (Config (''unsupported oauth issuer '' @ [CHR 0x27] @ issuer @ [CHR 0x27])), rt)
             else case refresh_token lib net now (cr_xai rt) refresh of
                    Inl e \<Rightarrow> (Inl e, rt)
                  | Inr live \<Rightarrow>
                      let identity = identity_hash H entry
                      in (Inr (apply_live H entry live),
                          persist identity live (rt\<lparr>cr_tokens := dm_insert identity live (cr_tokens rt)\<rparr>)))"

text \<open>The entry's own token while it lasts, otherwise a refresh.\<close>

definition ensure_own ::
  "(string \<Rightarrow> string) \<Rightarrow> http_lib \<Rightarrow> timed_net \<Rightarrow> int \<Rightarrow> key_entry \<Rightarrow> credential_runtime \<Rightarrow>
     key_entry result \<times> credential_runtime" where
  "ensure_own H lib net now entry rt =
     (case ke_expires entry of
        Some expires \<Rightarrow>
          if \<not> token_expired now expires then
            (Inr entry,
             case ke_refresh entry of
               None \<Rightarrow> rt
             | Some refresh \<Rightarrow>
                 rt\<lparr>cr_tokens := dm_insert (identity_hash H entry)
                     \<lparr>lt_access = ke_key entry, lt_refresh = refresh, lt_expires = expires\<rparr> (cr_tokens rt)\<rparr>)
          else refresh_live H lib net now entry rt
      | None \<Rightarrow> refresh_live H lib net now entry rt)"

definition ensure_fresh ::
  "(string \<Rightarrow> string) \<Rightarrow> http_lib \<Rightarrow> timed_net \<Rightarrow> int \<Rightarrow> key_entry \<Rightarrow> credential_runtime \<Rightarrow>
     key_entry result \<times> credential_runtime" where
  "ensure_fresh H lib net now entry rt =
     (if \<not> is_oauth entry then (Inr entry, rt)
      else
        let identity = identity_hash H entry;
            rt = take_lock identity rt
        in case dm_get (cr_tokens rt) identity of
             Some live \<Rightarrow>
               if \<not> token_expired now (lt_expires live) then (Inr (apply_live H entry live), rt)
               else ensure_own H lib net now entry rt
           | None \<Rightarrow> ensure_own H lib net now entry rt)"

section \<open>Device-code login\<close>

definition required_string :: "string option \<Rightarrow> string \<Rightarrow> string result" where
  "required_string v field =
     (case nonempty v of None \<Rightarrow> Inl (Internal (''xAI OAuth response missing '' @ field)) | Some s \<Rightarrow> Inr s)"

definition required_https :: "string option \<Rightarrow> string \<Rightarrow> string result" where
  "required_https raw field =
     (case nonempty raw of
        None \<Rightarrow> Inl (Internal (''xAI OAuth response missing '' @ field))
      | Some s \<Rightarrow>
          if \<not> starts_with s ''https://'' then Inl (Internal (''untrusted '' @ field @ '' in xAI OAuth response''))
          else Inr s)"

definition positive :: "u64 option \<Rightarrow> u64 option" where
  "positive x = (case x of Some v \<Rightarrow> if 0 < v then Some v else None | None \<Rightarrow> None)"

text \<open>The checks of a successful device authorisation, in the order the source makes them.\<close>

definition device_code_of :: "device_code_response \<Rightarrow> device_code result" where
  "device_code_of body =
     (case required_https (dr_verification_uri body) ''verification_uri'' of Inl e \<Rightarrow> Inl e | Inr uri \<Rightarrow>
     (case (case nonempty (dr_verification_uri_complete body) of
              None \<Rightarrow> Inr None
            | Some raw \<Rightarrow> map_sum id Some (required_https (Some raw) ''verification_uri_complete'')) of
        Inl e \<Rightarrow> Inl e | Inr uri_complete \<Rightarrow>
     (case required_string (dr_device_code body) ''device_code'' of Inl e \<Rightarrow> Inl e | Inr code \<Rightarrow>
     (case required_string (dr_user_code body) ''user_code'' of Inl e \<Rightarrow> Inl e | Inr user \<Rightarrow>
     (case positive (dr_expires_in body) of
        None \<Rightarrow> Inl (Internal ''xAI device authorization missing expires_in'')
      | Some expires \<Rightarrow>
          Inr \<lparr>dv_device_code = code, dv_user_code = user, dv_verification_uri = uri,
               dv_verification_uri_complete = uri_complete,
               dv_interval_seconds = (case positive (dr_interval body) of Some i \<Rightarrow> i | None \<Rightarrow> 5),
               dv_expires_in_seconds = expires\<rparr>)))))"

definition request_device_code ::
  "http_lib \<Rightarrow> timed_net \<Rightarrow> int \<Rightarrow> xai_endpoints \<Rightarrow> device_code result \<times> int" where
  "request_device_code lib net now ep =
     (case net now (form_post (xe_device_code_url ep)
             [(''client_id'', xe_client_id ep), (''scope'', xai_scope), (''referrer'', ''llm_proxy'')]) of
        (Inl e, took) \<Rightarrow> (Inl (Internal (''xAI device authorization request failed: '' @ e)), now + int took)
      | (Inr resp, took) \<Rightarrow>
          (case json_body lib dec_device_code_response resp of
             Inl e \<Rightarrow> Inl (Internal (''xAI device authorization invalid JSON: '' @ e))
           | Inr body \<Rightarrow>
               if \<not> is_success (hr_status resp)
               then Inl (Internal (format_oauth_error ''device authorization'' (hr_status resp)
                      (dr_error body) (dr_error_description body)))
               else device_code_of body, now + int took))"

text \<open>The wait between polls: the interval of the device, at least a second, and five seconds more for
  each time the server asked to slow down.\<close>

definition poll_interval_ms :: "device_code \<Rightarrow> nat \<Rightarrow> nat" where
  "poll_interval_ms device slow = 1000 * max (unat (dv_interval_seconds device)) 1 + 5000 * slow"

lemma poll_interval_pos: "0 < poll_interval_ms device slow"
  by (simp add: poll_interval_ms_def less_max_iff_disj)

definition poll_request :: "xai_endpoints \<Rightarrow> device_code \<Rightarrow> http_request" where
  "poll_request ep device =
     form_post (xe_token_url ep)
       [(''grant_type'', ''urn:ietf:params:oauth:grant-type:device_code''), (''client_id'', xe_client_id ep),
        (''device_code'', dv_device_code device)]"

text \<open>What a failed poll means: stop with an error, or keep waiting (more slowly when told to).\<close>

definition poll_failure :: "u16 \<Rightarrow> token_response \<Rightarrow> nat \<Rightarrow> nat result" where
  "poll_failure status body slow =
     (case tr_error body of
        None \<Rightarrow> Inl (Internal (format_oauth_error ''device token polling'' status None (tr_error_description body)))
      | Some e \<Rightarrow>
          if e = ''authorization_pending'' then Inr slow
          else if e = ''slow_down'' then Inr (Suc slow)
          else if e = ''access_denied'' \<or> e = ''authorization_denied''
            then Inl (Auth ''xAI device authorization was denied'')
          else if e = ''expired_token'' then Inl (Internal ''xAI device code expired'')
          else Inl (Internal (format_oauth_error ''device token polling'' status (Some e) (tr_error_description body))))"

definition device_timed_out :: app_error where
  "device_timed_out = Internal ''xAI device flow timed out''"

text \<open>The time left is signed; a negative one read as an unsigned number exceeds every interval.\<close>

definition poll_sleep :: "device_code \<Rightarrow> nat \<Rightarrow> int \<Rightarrow> nat" where
  "poll_sleep device slow remaining =
     (let interval = poll_interval_ms device slow
      in if remaining < 0 then interval else min interval (nat remaining))"

lemma poll_sleep_pos: "remaining \<noteq> 0 \<Longrightarrow> 0 < poll_sleep device slow remaining"
  using poll_interval_pos [of device slow] by (simp add: poll_sleep_def Let_def)

function poll_loop ::
  "http_lib \<Rightarrow> timed_net \<Rightarrow> xai_endpoints \<Rightarrow> device_code \<Rightarrow> int \<Rightarrow> nat \<Rightarrow> int \<Rightarrow> live_token result" where
  "poll_loop lib net ep device deadline slow now =
     (if deadline \<le> now then Inl device_timed_out
      else case net now (poll_request ep device) of
             (Inl e, _) \<Rightarrow> Inl (Internal (''xAI device token poll failed: '' @ e))
           | (Inr resp, took) \<Rightarrow>
               let now' = now + int took
               in case json_body lib dec_token_response resp of
                    Inl e \<Rightarrow> Inl (Internal (''xAI device token poll invalid JSON: '' @ e))
                  | Inr body \<Rightarrow>
                      if is_success (hr_status resp) then credentials_from_token now' body None
                      else case poll_failure (hr_status resp) body slow of
                             Inl e \<Rightarrow> Inl e
                           | Inr slow' \<Rightarrow>
                               if deadline - now' = 0 then Inl device_timed_out
                               else poll_loop lib net ep device deadline slow'
                                      (now' + int (poll_sleep device slow' (deadline - now'))))"
  by pat_completeness auto
termination
  apply (relation "measure (\<lambda>(lib, net, ep, device, deadline, slow, now). nat (deadline - now))")
   apply simp
  subgoal for lib net ep device deadline slow now x y b xa ba bb
    using poll_sleep_pos [of "deadline - xa" device bb] by simp
  done

declare poll_loop.simps [simp del]

definition poll_for_tokens ::
  "http_lib \<Rightarrow> timed_net \<Rightarrow> xai_endpoints \<Rightarrow> device_code \<Rightarrow> int \<Rightarrow> live_token result" where
  "poll_for_tokens lib net ep device now =
     (let deadline = wrap_i64 (now + wrap_i64 (sint (dv_expires_in_seconds device) * 1000))
      in poll_loop lib net ep device deadline 0 (now + int (poll_interval_ms device 0)))"

definition prompt_of :: "device_code \<Rightarrow> device_code_prompt" where
  "prompt_of device =
     \<lparr>dp_user_code = dv_user_code device,
      dp_verification_uri = (case dv_verification_uri_complete device of Some u \<Rightarrow> u | None \<Rightarrow> dv_verification_uri device),
      dp_expires_in_seconds = dv_expires_in_seconds device\<rparr>"

text \<open>The prompt shown to the operator, if any, and the credential.\<close>

definition login ::
  "http_lib \<Rightarrow> timed_net \<Rightarrow> xai_endpoints \<Rightarrow> int \<Rightarrow> device_code_prompt option \<times> key_entry result" where
  "login lib net ep now =
     (case request_device_code lib net now ep of
        (Inl e, _) \<Rightarrow> (None, Inl e)
      | (Inr device, now) \<Rightarrow>
          (Some (prompt_of device),
           case poll_for_tokens lib net ep device now of
             Inl e \<Rightarrow> Inl e
           | Inr live \<Rightarrow> Inr (oauth_key (lt_access live) (lt_refresh live) ''xai'' 1 (Some (lt_expires live)))))"

section \<open>What a fresh credential is\<close>

lemma nonempty_Some: "nonempty x = Some s \<longleftrightarrow> x = Some s \<and> s \<noteq> []"
  by (auto simp: nonempty_def split: option.splits)

lemma identity_hash_nonempty: "(\<And>s. H s \<noteq> []) \<Longrightarrow> identity_hash H k \<noteq> []"
  by (auto simp: identity_hash_def nonempty_Some split: option.split)

lemma apply_live_identity: "(\<And>s. H s \<noteq> []) \<Longrightarrow> identity_hash H (apply_live H entry live) = identity_hash H entry"
  using identity_hash_nonempty [of H entry]
  by (cases "nonempty (ke_identity entry)")
    (simp_all add: apply_live_def Let_def identity_hash_def nonempty_def split: option.splits if_splits)

lemma apply_live_fields:
  "ke_key (apply_live H entry live) = lt_access live" "ke_expires (apply_live H entry live) = Some (lt_expires live)"
  "ke_weight (apply_live H entry live) = ke_weight entry" "ke_cred_type (apply_live H entry live) = ke_cred_type entry"
  by (simp_all add: apply_live_def Let_def)

text \<open>How a refresh and \<open>ensure_fresh\<close> can succeed.\<close>

lemma refresh_live_Inr:
  assumes "refresh_live H lib net now entry rt = (Inr k, rt')"
  shows "\<exists>refresh live. refresh_token lib net now (cr_xai rt) refresh = Inr live \<and> k = apply_live H entry live \<and>
    dm_get (cr_tokens rt') (identity_hash H entry) = Some live"
  using assms by (auto simp: refresh_live_def Let_def persist_def split: option.splits if_splits sum.splits)

lemma ensure_own_Inr:
  assumes "ensure_own H lib net now entry rt = (Inr k, rt')"
  shows "(\<exists>expires. ke_expires entry = Some expires \<and> now < expires \<and> k = entry) \<or>
    refresh_live H lib net now entry rt = (Inr k, rt')"
  using assms by (auto simp: ensure_own_def token_expired_def not_le split: option.splits if_splits)

lemma ensure_fresh_Inr:
  assumes "ensure_fresh H lib net now entry rt = (Inr k, rt')"
  shows "(\<not> is_oauth entry \<and> k = entry \<and> rt' = rt) \<or>
    is_oauth entry \<and>
      ((\<exists>live. now < lt_expires live \<and> k = apply_live H entry live) \<or>
       ensure_own H lib net now entry (take_lock (identity_hash H entry) rt) = (Inr k, rt'))"
  using assms by (auto simp: ensure_fresh_def Let_def token_expired_def not_le split: option.splits if_splits)

lemma take_lock_xai [simp]: "cr_xai (take_lock i rt) = cr_xai rt"
  by (simp add: take_lock_def)

text \<open>
  C20. A credential that \<open>ensure_fresh\<close> hands out keeps its identity (the key under which the router, the
  circuit breaker and the burst counters know it) and its weight, and it is usable: a static key is
  unchanged, and an OAuth key carries a token that has not expired, unless it was refreshed in this
  very call.
\<close>

theorem ensure_fresh_correct:
  assumes "\<And>s. H s \<noteq> []" and "ensure_fresh H lib net now entry rt = (Inr k, rt')"
  shows "identity_hash H k = identity_hash H entry \<and> ke_weight k = ke_weight entry \<and>
    (if is_oauth entry then
       is_oauth k \<and> (\<exists>expires. ke_expires k = Some expires \<and>
         (now < expires \<or>
          (\<exists>refresh live. refresh_token lib net now (cr_xai rt) refresh = Inr live \<and> ke_key k = lt_access live \<and>
             expires = lt_expires live \<and> dm_get (cr_tokens rt') (identity_hash H entry) = Some live)))
     else k = entry \<and> rt' = rt)"
proof -
  note live = apply_live_identity [OF assms(1)] apply_live_fields is_oauth_def
  consider (static) "\<not> is_oauth entry" "k = entry" "rt' = rt"
    | (cached) live where "is_oauth entry" "now < lt_expires live" "k = apply_live H entry live"
    | (own) expires where "is_oauth entry" "ke_expires entry = Some expires" "now < expires" "k = entry"
    | (refreshed) refresh live where "is_oauth entry" "refresh_token lib net now (cr_xai rt) refresh = Inr live"
        "k = apply_live H entry live" "dm_get (cr_tokens rt') (identity_hash H entry) = Some live"
    using ensure_fresh_Inr [OF assms(2)] ensure_own_Inr refresh_live_Inr take_lock_xai by metis
  then show ?thesis
  proof cases
    case (cached live)
    then show ?thesis by (simp add: live)
  next
    case (refreshed refresh live)
    then show ?thesis by (auto simp: live)
  qed simp_all
qed

definition token_lib :: http_lib where
  "token_lib =
     \<lparr>lib_parse_json = (\<lambda>s. if s = ''pending'' then Inr (JObj [(''error'', JStr ''authorization_pending'')])
        else Inr (JObj [(''access_token'', JStr ''new''), (''expires_in'', JInt 7200), (''refresh_token'', JStr ''next'')])),
      lib_type_error = (\<lambda>_. []), lib_decode_text = id, lib_write_json = (\<lambda>_. [])\<rparr>"

definition granting :: "int \<Rightarrow> timed_net" where
  "granting t = (\<lambda>now _.
     (Inr (if now < t then \<lparr>hr_status = 400, hr_content_type = None, hr_chunks = [Inr ''pending'']\<rparr>
           else \<lparr>hr_status = 200, hr_content_type = None, hr_chunks = [Inr ''granted'']\<rparr>), 100))"

theorem ensure_fresh_correct_witness:
  "\<exists>k rt'. ensure_fresh ((#) CHR ''h'') token_lib (granting 0) 5000 (oauth_key ''old'' ''r'' ''xai'' 2 (Some 4000))
      (credential_runtime_new True) = (Inr k, rt') \<and> identity_hash ((#) CHR ''h'') k = ''hr'' \<and> is_oauth k"
proof -
  let ?e = "oauth_key ''old'' ''r'' ''xai'' 2 (Some 4000)" and ?rt = "credential_runtime_new True"
  have "case fst (ensure_fresh ((#) CHR ''h'') token_lib (granting 0) 5000 ?e ?rt) of Inl _ \<Rightarrow> False | Inr _ \<Rightarrow> True"
    by code_simp
  then obtain k rt' where k: "ensure_fresh ((#) CHR ''h'') token_lib (granting 0) 5000 ?e ?rt = (Inr k, rt')"
    by (metis sum.case_eq_if sum.collapse(2) prod.collapse)
  moreover have "identity_hash ((#) CHR ''h'') ?e = ''hr''" "is_oauth ?e" by code_simp+
  ultimately show ?thesis using ensure_fresh_correct [OF _ k] by auto
qed

section \<open>The device flow\<close>

text \<open>The loop never asks the server after the deadline: only its answers before that time matter.\<close>

lemma polls_before_deadline:
  assumes "\<And>t r. t < deadline \<Longrightarrow> net t r = net' t r"
  shows "poll_loop lib net ep device deadline slow now = poll_loop lib net' ep device deadline slow now"
proof (induction "nat (deadline - now)" arbitrary: slow now rule: less_induct)
  case less
  show ?case
  proof (cases "deadline \<le> now")
    case True
    then show ?thesis by (simp add: poll_loop.simps)
  next
    case False
    obtain x took where n: "net now (poll_request ep device) = (x, took)" by force
    then have n': "net' now (poll_request ep device) = (x, took)" using assms False by simp
    have IH: "poll_loop lib net ep device deadline s (now + int took + int (poll_sleep device s (deadline - (now + int took)))) =
        poll_loop lib net' ep device deadline s (now + int took + int (poll_sleep device s (deadline - (now + int took))))"
      if "deadline - (now + int took) \<noteq> 0" for s
      using poll_sleep_pos [OF that, of device s] False by (intro less) auto
    show ?thesis
      unfolding poll_loop.simps [of lib net ep device deadline slow now] poll_loop.simps [of lib net' ep device deadline slow now]
        n n' Let_def
      using IH by (simp split: sum.split)
  qed
qed

lemma poll_loop_pending:
  assumes "now < deadline" and "net now (poll_request ep device) = (Inr resp, took)"
    and "json_body lib dec_token_response resp = Inr body" and "\<not> is_success (hr_status resp)"
    and "tr_error body = Some ''authorization_pending''" and "now + int took \<noteq> deadline"
  shows "poll_loop lib net ep device deadline slow now =
    poll_loop lib net ep device deadline slow (now + int took + int (poll_sleep device slow (deadline - (now + int took))))"
  using assms by (simp add: poll_loop.simps [of lib net ep device deadline slow now] Let_def poll_failure_def)


definition sample_device :: device_code where
  "sample_device =
     \<lparr>dv_device_code = ''dc'', dv_user_code = ''uc'', dv_verification_uri = ''https://x'', dv_verification_uri_complete = None,
      dv_interval_seconds = 5, dv_expires_in_seconds = 600\<rparr>"

definition granted_tokens :: token_response where
  "granted_tokens =
     \<lparr>tr_access_token = Some ''new'', tr_refresh_token = Some ''next'', tr_expires_in = Some 7200, tr_error = None,
      tr_error_description = None\<rparr>"


end
