(* ===== verification/Model_Catalog.thy ===== *)
theory Model_Catalog
  imports Gateway_Config Key_Router Upstream_Http
begin

text \<open>
  The model catalog (\<open>model_catalog.rs\<close>): the model listing, the metadata served for each routed model,
  and the translation of a requested thinking level into the wire value of the model's upstream.
  The capabilities of a registry row are stored as JSON text; its parser is a parameter.
\<close>

record wire_model =
  wm_id :: string
  wm_object :: string
  wm_created :: u64
  wm_owned_by :: string

definition list_models :: "'p router \<Rightarrow> wire_model list" where
  "list_models rt =
     map (\<lambda>i. \<lparr>wm_id = i, wm_object = ''model'', wm_created = 0, wm_owned_by = ''openai''\<rparr>) (model_list rt)"

section \<open>Thinking levels\<close>

definition thinking_level_order :: "string list" where
  "thinking_level_order = [''off'', ''minimal'', ''low'', ''medium'', ''high'', ''xhigh'', ''max'']"

definition canonical_thinking_level :: "string \<Rightarrow> string option" where
  "canonical_thinking_level level =
     (if level = ''none'' then Some ''off'' else find (\<lambda>c. c = level) thinking_level_order)"

definition parse_caps :: "(string \<Rightarrow> string + json) \<Rightarrow> registry_entry \<Rightarrow> json option" where
  "parse_caps parse entry =
     Option.bind (re_capabilities_json entry) (\<lambda>raw. case parse raw of Inl _ \<Rightarrow> None | Inr v \<Rightarrow> Some v)"

definition level_map_of :: "json option \<Rightarrow> json_map option" where
  "level_map_of caps =
     Option.bind (Option.bind caps (jpointer [''metadata'', ''thinkingLevelMap''])) as_object"

definition put_level :: "string \<times> json \<Rightarrow> json_map \<Rightarrow> json_map" where
  "put_level kv out =
     (if is_null (snd kv) then out
      else case canonical_thinking_level (fst kv) of
             None \<Rightarrow> out
           | Some canonical \<Rightarrow> obj_insert canonical (snd kv) out)"

definition registry_thinking_level_map :: "json option \<Rightarrow> json_map option" where
  "registry_thinking_level_map caps =
     Option.bind (level_map_of caps) (\<lambda>m.
       let out = fold put_level m [] in if out = [] then None else Some out)"

definition reasoning_thinking_levels :: "json option \<Rightarrow> string list" where
  "reasoning_thinking_levels caps =
     (case registry_thinking_level_map caps of
        None \<Rightarrow> []
      | Some m \<Rightarrow> filter (\<lambda>level. map_of m level \<noteq> None) thinking_level_order)"

definition identity_thinking_level_map :: "string list \<Rightarrow> json_map option" where
  "identity_thinking_level_map levels =
     (if levels = [] then None else Some (obj_of (map (\<lambda>level. (level, JStr level)) levels)))"

definition unsupported_level :: "registry_entry \<Rightarrow> string \<Rightarrow> app_error" where
  "unsupported_level entry effort =
     BadRequest (''model '' @ quoted (re_id entry) @ '' does not support reasoning_effort='' @ quoted effort)"

definition translate_entry :: "(string \<Rightarrow> string + json) \<Rightarrow> registry_entry \<Rightarrow> json \<Rightarrow> json result" where
  "translate_entry parse entry extra =
     (case Option.bind (jget extra ''reasoning_effort'') as_str of
        None \<Rightarrow> Inr extra
      | Some effort \<Rightarrow>
     (case parse_caps parse entry of
        None \<Rightarrow> Inr extra
      | Some caps \<Rightarrow>
     (case level_map_of (Some caps) of
        None \<Rightarrow> Inr extra
      | Some level_map \<Rightarrow>
     (case canonical_thinking_level effort of
        None \<Rightarrow> Inr extra
      | Some requested \<Rightarrow>
     (case find (\<lambda>(k, _). canonical_thinking_level k = Some requested) level_map of
        None \<Rightarrow> Inl (unsupported_level entry effort)
      | Some (_, v) \<Rightarrow>
     (case as_str v of
        None \<Rightarrow> Inl (unsupported_level entry effort)
      | Some upstream \<Rightarrow>
          Inr (case extra of JObj m \<Rightarrow> JObj (obj_insert ''reasoning_effort'' (JStr upstream) m) | _ \<Rightarrow> extra)))))))"

definition enabled_entry :: "registry_entry list \<Rightarrow> string \<Rightarrow> registry_entry option" where
  "enabled_entry registry model = find (\<lambda>entry. re_id entry = model \<and> re_enabled entry) registry"

definition translate_reasoning_effort ::
  "(string \<Rightarrow> string + json) \<Rightarrow> registry_entry list \<Rightarrow> string \<Rightarrow> chat_request \<Rightarrow> chat_request result" where
  "translate_reasoning_effort parse registry model req =
     (case enabled_entry registry model of
        None \<Rightarrow> Inr req
      | Some entry \<Rightarrow>
          (case translate_entry parse entry (req_extra req) of
             Inl e \<Rightarrow> Inl e
           | Inr extra \<Rightarrow> Inr (req\<lparr>req_extra := extra\<rparr>)))"

section \<open>Model metadata\<close>

record wire_metadata =
  wd_id :: string
  wd_name :: string
  wd_context_window :: u32
  wd_max_output_tokens :: u32
  wd_input_types :: "string list"
  wd_reasoning :: bool
  wd_thinking_levels :: "string list"
  wd_thinking_level_map :: "json_map option"
  wd_supports_tools :: bool
  wd_supports_vision :: bool
  wd_pricing :: metadata_pricing

definition catalog_cost :: "json option \<Rightarrow> string \<Rightarrow> rat \<Rightarrow> rat" where
  "catalog_cost caps field fallback =
     (case Option.bind (Option.bind caps (jpointer [''metadata'', ''cost'', field])) as_f64 of
        Some n \<Rightarrow> if 0 \<le> n then n else fallback
      | None \<Rightarrow> fallback)"

definition clamp_u32 :: "int \<Rightarrow> u32" where
  "clamp_u32 n = word_of_int (max n 0)"

text \<open>The metadata of a model with an enabled registry row, and without one.\<close>

definition registry_metadata ::
  "(string \<Rightarrow> string + json) \<Rightarrow> registry_entry \<Rightarrow> string \<Rightarrow> model_metadata \<Rightarrow> wire_metadata" where
  "registry_metadata parse entry model md =
     (let caps = parse_caps parse entry;
          levels = reasoning_thinking_levels caps
      in \<lparr>wd_id = model, wd_name = re_display_name entry,
          wd_context_window = clamp_u32 (re_max_context_tokens entry),
          wd_max_output_tokens = clamp_u32 (re_max_output_tokens entry),
          wd_input_types = (if re_supports_vision entry then [''text'', ''image''] else [''text'']),
          wd_reasoning =
            (case Option.bind (Option.bind caps (\<lambda>v. jget v ''reasoning'')) as_bool of
               Some b \<Rightarrow> b | None \<Rightarrow> md_reasoning md),
          wd_thinking_levels = (if levels = [] then md_thinking_levels md else levels),
          wd_thinking_level_map = registry_thinking_level_map caps,
          wd_supports_tools = re_supports_tool_calling entry, wd_supports_vision = re_supports_vision entry,
          wd_pricing =
            \<lparr>mdr_input = or_zero (re_input_price entry), mdr_output = or_zero (re_output_price entry),
             mdr_cache_read = catalog_cost caps ''cache_read'' (mdr_cache_read (md_pricing md)),
             mdr_cache_write = catalog_cost caps ''cache_write'' (mdr_cache_write (md_pricing md))\<rparr>\<rparr>)"

definition configured_metadata :: "string \<Rightarrow> model_metadata \<Rightarrow> wire_metadata" where
  "configured_metadata model md =
     \<lparr>wd_id = model, wd_name = md_name md, wd_context_window = md_context_window md,
      wd_max_output_tokens = md_max_output_tokens md, wd_input_types = md_input_types md,
      wd_reasoning = md_reasoning md, wd_thinking_levels = md_thinking_levels md, wd_thinking_level_map = None,
      wd_supports_tools = md_supports_tools md, wd_supports_vision = md_supports_vision md,
      wd_pricing = md_pricing md\<rparr>"

definition metadata_of ::
  "(string \<Rightarrow> string + json) \<Rightarrow> metadata_config \<Rightarrow> registry_entry list \<Rightarrow> string \<Rightarrow> string \<Rightarrow> wire_metadata" where
  "metadata_of parse mc registry model pool =
     (let md = for_model mc model pool;
          out = (case enabled_entry registry model of
                   Some entry \<Rightarrow> registry_metadata parse entry model md
                 | None \<Rightarrow> configured_metadata model md)
      in out\<lparr>wd_thinking_level_map :=
           or_else (wd_thinking_level_map out) (identity_thinking_level_map (wd_thinking_levels out))\<rparr>)"

definition list_metadata ::
  "(string \<Rightarrow> string + json) \<Rightarrow> metadata_config \<Rightarrow> registry_entry list \<Rightarrow> 'p router \<Rightarrow> wire_metadata list" where
  "list_metadata parse mc registry rt =
     map (\<lambda>(model, pool). metadata_of parse mc registry model pool) (model_pool_list rt)"

section \<open>The advertised levels are the accepted ones\<close>

lemma canonical_level_cases:
  "canonical_thinking_level k = Some c \<Longrightarrow> k = c \<and> k \<noteq> ''none'' \<or> k = ''none'' \<and> c = ''off''"
  by (auto simp: canonical_thinking_level_def find_Some_iff split: if_splits)

definition has_level :: "string \<Rightarrow> string \<times> json \<Rightarrow> bool" where
  "has_level c kv = (canonical_thinking_level (fst kv) = Some c)"

lemma put_level_get:
  "map_of (put_level kv out) c = (if has_level c kv \<and> \<not> is_null (snd kv) then Some (snd kv) else map_of out c)"
  by (auto simp: put_level_def has_level_def split: option.split)

lemma put_levels_get:
  "map_of (fold put_level m out) c =
     (case filter (\<lambda>kv. has_level c kv \<and> \<not> is_null (snd kv)) m of
        [] \<Rightarrow> map_of out c | kvs \<Rightarrow> Some (snd (last kvs)))"
  by (induction m arbitrary: out) (auto simp: put_level_get split: list.splits)

lemma has_level_unique:
  assumes "obj_wf m" and "map_of m ''none'' = None \<or> map_of m ''off'' = None"
  shows "length (filter (has_level c) m) \<le> 1"
proof (rule ccontr)
  assume "\<not> ?thesis"
  then obtain a b xs where f: "filter (has_level c) m = a # b # xs"
    by (cases "filter (has_level c) m" rule: remdups_adj.cases) auto
  have "a \<in> set m" "b \<in> set m" "has_level c a" "has_level c b"
    using f filter_set [of "has_level c" m] by auto
  moreover have "fst a \<noteq> fst b"
  proof -
    have "distinct (map fst m)" using assms(1) by (simp add: obj_wf_def)
    then have "distinct (map fst (filter (has_level c) m))" by (rule distinct_map_filter)
    then show ?thesis unfolding f by simp
  qed
  ultimately show False
    using assms(2) canonical_level_cases [of "fst a" c] canonical_level_cases [of "fst b" c]
    by (auto simp: has_level_def map_of_eq_None_iff image_iff)
qed

lemma advertised_get:
  assumes "level_map_of caps = Some m"
  shows "Option.bind (registry_thinking_level_map caps) (\<lambda>adv. map_of adv c) = map_of (fold put_level m []) c"
  using assms by (simp add: registry_thinking_level_map_def Let_def)

text \<open>
  The thinking levels the catalog advertises for a model are the ones a request may use, and the
  wire values it advertises are the ones sent upstream: a canonical level is rewritten to the
  advertised value when that is a text, and refused otherwise. The level map of the model must not
  name the disabled level twice (\<open>none\<close> and \<open>off\<close>).
\<close>

theorem advertised_levels_accepted:
  assumes wf: "obj_wf m" and one: "map_of m ''none'' = None \<or> map_of m ''off'' = None"
    and caps: "parse_caps parse entry = Some caps" "level_map_of (Some caps) = Some m"
    and req: "map_of e ''reasoning_effort'' = Some (JStr effort)" "canonical_thinking_level effort = Some level"
  shows "translate_entry parse entry (JObj e) =
    (case Option.bind (registry_thinking_level_map (Some caps)) (\<lambda>adv. map_of adv level) of
       Some (JStr w) \<Rightarrow> Inr (JObj (obj_insert ''reasoning_effort'' (JStr w) e))
     | _ \<Rightarrow> Inl (unsupported_level entry effort))"
proof -
  have find: "find (\<lambda>(k, _). canonical_thinking_level k = Some level) m = find (has_level level) m"
    by (rule find_cong) (auto simp: has_level_def)
  have fil: "filter (\<lambda>kv. has_level level kv \<and> \<not> is_null (snd kv)) m =
      filter (\<lambda>kv. \<not> is_null (snd kv)) (filter (has_level level) m)" by (simp add: conj_commute)
  have hit: "find (has_level level) m = (case filter (has_level level) m of [] \<Rightarrow> None | kv # _ \<Rightarrow> Some kv)"
    by (induction m) auto
  show ?thesis
  proof (cases "filter (has_level level) m")
    case Nil
    then show ?thesis
      unfolding advertised_get [OF caps(2)] put_levels_get fil
      by (simp add: translate_entry_def req caps find hit)
  next
    case (Cons kv kvs)
    then have "filter (has_level level) m = [kv]" using has_level_unique [OF wf one, of level] by simp
    then show ?thesis
      unfolding advertised_get [OF caps(2)] put_levels_get fil
      by (cases kv; cases "snd kv") (simp_all add: translate_entry_def req caps find hit)
  qed
qed

definition grok_entry :: registry_entry where
  "grok_entry =
     \<lparr>re_id = ''grok'', re_display_name = ''Grok'', re_provider_kind = ''openai'', re_provider_config_id = None,
      re_supports_vision = False, re_supports_tool_calling = True, re_supports_json_mode = True,
      re_max_context_tokens = 1000, re_max_output_tokens = 100, re_input_price = None, re_output_price = None,
      re_capabilities_json = Some ''caps'', re_enabled = True\<rparr>"

definition grok_caps :: json where
  "grok_caps =
     JObj [(''metadata'', JObj [(''thinkingLevelMap'', JObj [(''high'', JStr ''heavy''), (''none'', JStr ''disabled'')])])]"

theorem advertised_levels_accepted_witness:
  "translate_entry (\<lambda>_. Inr grok_caps) grok_entry (JObj [(''reasoning_effort'', JStr ''off'')]) =
     Inr (JObj [(''reasoning_effort'', JStr ''disabled'')])"
proof -
  let ?m = "[(''high'', JStr ''heavy''), (''none'', JStr ''disabled'')]"
  have "obj_wf ?m" by code_simp
  moreover have "parse_caps (\<lambda>_. Inr grok_caps) grok_entry = Some grok_caps" by code_simp
  moreover have "level_map_of (Some grok_caps) = Some ?m" by code_simp
  moreover have "canonical_thinking_level ''off'' = Some ''off''" by code_simp
  moreover have "Option.bind (registry_thinking_level_map (Some grok_caps)) (\<lambda>adv. map_of adv ''off'') = Some (JStr ''disabled'')"
    by code_simp
  ultimately show ?thesis
    using advertised_levels_accepted [of ?m "\<lambda>_. Inr grok_caps" grok_entry grok_caps
        "[(''reasoning_effort'', JStr ''off'')]" "''off''" "''off''"]
    by simp
qed

text \<open>With both names in the map, an advertised level can be refused.\<close>

lemma advertised_level_refused:
  "let caps = JObj [(''metadata'', JObj [(''thinkingLevelMap'', JObj [(''none'', JNull), (''off'', JStr ''disabled'')])])]
   in registry_thinking_level_map (Some caps) = Some [(''off'', JStr ''disabled'')] \<and>
      translate_entry (\<lambda>_. Inr caps) grok_entry (JObj [(''reasoning_effort'', JStr ''off'')]) =
        Inl (unsupported_level grok_entry ''off'')"
  by code_simp

end
