(* ===== verification/Request_Log.thy ===== *)
theory Request_Log
  imports Audit_Facts Chat_Types
begin

text \<open>
  The request log: the row written for a completed request (\<open>db/mod.rs\<close>) and the event pushed to the
  live dashboard (\<open>dashboard/live.rs\<close>). A table is the list of its rows; a row gives each column a
  value. The primary key makes an insertion with a known identifier fail; any other failure of the
  database is a parameter of the insertion.
\<close>

datatype sql_value = SNull | SInt int | SText string | SReal rat

type_synonym sql_row = "(string \<times> sql_value) list"

definition bind_int :: "int option \<Rightarrow> sql_value" where
  "bind_int x = (case x of None \<Rightarrow> SNull | Some i \<Rightarrow> SInt i)"

definition bind_text :: "string option \<Rightarrow> sql_value" where
  "bind_text x = (case x of None \<Rightarrow> SNull | Some s \<Rightarrow> SText s)"

definition bind_real :: "rat option \<Rightarrow> sql_value" where
  "bind_real x = (case x of None \<Rightarrow> SNull | Some r \<Rightarrow> SReal r)"

record request_log =
  rl_id :: string
  rl_ts :: int
  rl_client_ip :: "string option"
  rl_model :: string
  rl_pool_id :: string
  rl_key_hash :: string
  rl_upstream_url :: "string option"
  rl_status_code :: "int option"
  rl_latency_ms :: "int option"
  rl_prompt_tokens :: "int option"
  rl_completion_tokens :: "int option"
  rl_total_tokens :: "int option"
  rl_is_stream :: bool
  rl_error :: "string option"
  rl_audit :: audit_detail
  rl_error_code :: "string option"
  rl_user_agent :: "string option"
  rl_cost_usd :: "rat option"

definition log_columns :: "string list" where
  "log_columns =
     [''id'', ''ts'', ''client_ip'', ''model'', ''pool_id'', ''key_hash'', ''upstream'',
      ''status_code'', ''latency_ms'', ''prompt_tokens'', ''completion_tokens'',
      ''total_tokens'', ''is_stream'', ''error'',
      ''cached_tokens'', ''cache_creation_tokens'', ''cache_source'',
      ''reasoning_tokens'', ''audio_tokens'',
      ''ttft_ms'', ''upstream_model'', ''system_fingerprint'', ''finish_reason'',
      ''error_code'', ''retry_count'', ''tenant_id'', ''user_agent'', ''cost_usd'']"

definition cache_source_text :: "cache_kind \<Rightarrow> string option" where
  "cache_source_text k = (if k = NoCache then None else Some (show_cache_kind k))"

definition log_binds :: "request_log \<Rightarrow> sql_value list" where
  "log_binds r =
     (let p = au_from_provider (rl_audit r); c = ap_cache p
      in [SText (rl_id r), SInt (rl_ts r), bind_text (rl_client_ip r), SText (rl_model r), SText (rl_pool_id r),
          SText (rl_key_hash r), bind_text (rl_upstream_url r), bind_int (rl_status_code r),
          bind_int (rl_latency_ms r), bind_int (rl_prompt_tokens r), bind_int (rl_completion_tokens r),
          bind_int (rl_total_tokens r), SInt (if rl_is_stream r then 1 else 0), bind_text (rl_error r),
          bind_int (cr_hit_tokens c), bind_int (cr_creation_tokens c), bind_text (cache_source_text (cr_source c)),
          bind_int (ap_reasoning_tokens p), bind_int (ap_audio_tokens p),
          bind_int (ar_ttft_ms (au_from_router (rl_audit r))), bind_text (ap_upstream_model p),
          bind_text (ap_system_fingerprint p), bind_text (ap_finish_reason p), bind_text (rl_error_code r),
          SInt (ar_retry_count (au_from_router (rl_audit r))), SText (au_tenant_id (rl_audit r)),
          bind_text (rl_user_agent r), bind_real (rl_cost_usd r)])"

definition log_row :: "request_log \<Rightarrow> sql_row" where
  "log_row r = zip log_columns (log_binds r)"

definition log_request :: "string option \<Rightarrow> request_log \<Rightarrow> sql_row list \<Rightarrow> unit result \<times> sql_row list" where
  "log_request fault r table =
     (case fault of
        Some e \<Rightarrow> (Inl (Internal (''Failed to log request: '' @ e)), table)
      | None \<Rightarrow>
          if list_ex (\<lambda>row. map_of row ''id'' = Some (SText (rl_id r))) table
          then (Inl (Internal ''Failed to log request: UNIQUE constraint failed: request_log.id''), table)
          else (Inr (), table @ [log_row r]))"

section \<open>Live events\<close>

record live_event =
  le_event_type :: string
  le_request_id :: string
  le_model :: string
  le_pool_id :: string
  le_status_code :: u16
  le_latency_ms :: int
  le_tokens :: "u32 option"
  le_ts :: int
  le_tenant_id :: string
  le_key_hash :: string
  le_error_code :: "string option"
  le_is_stream :: bool
  le_cost_usd :: "rat option"

text \<open>\<open>u32::try_from(t).unwrap_or(u32::MAX)\<close>\<close>

definition saturate_u32 :: "int \<Rightarrow> u32" where
  "saturate_u32 t = (if 0 \<le> t \<and> t < 2 ^ 32 then word_of_int t else - 1)"

definition live_event_of :: "request_log \<Rightarrow> live_event" where
  "live_event_of r =
     \<lparr>le_event_type = ''request'', le_request_id = rl_id r, le_model = rl_model r, le_pool_id = rl_pool_id r,
      le_status_code = word_of_int (max (case rl_status_code r of Some s \<Rightarrow> s | None \<Rightarrow> 0) 0),
      le_latency_ms = (case rl_latency_ms r of Some l \<Rightarrow> l | None \<Rightarrow> 0),
      le_tokens = map_option saturate_u32 (rl_total_tokens r), le_ts = rl_ts r,
      le_tenant_id = au_tenant_id (rl_audit r), le_key_hash = rl_key_hash r, le_error_code = rl_error_code r,
      le_is_stream = rl_is_stream r, le_cost_usd = rl_cost_usd r\<rparr>"

definition live_json :: "live_event \<Rightarrow> json" where
  "live_json e =
     JObj [(''event_type'', JStr (le_event_type e)), (''request_id'', JStr (le_request_id e)),
       (''model'', JStr (le_model e)), (''pool_id'', JStr (le_pool_id e)), (''status_code'', enc_uint (le_status_code e)),
       (''latency_ms'', JInt (le_latency_ms e)), (''tokens'', enc_opt enc_uint (le_tokens e)), (''ts'', JInt (le_ts e)),
       (''tenant_id'', JStr (le_tenant_id e)), (''key_hash'', JStr (le_key_hash e)),
       (''error_code'', enc_opt JStr (le_error_code e)), (''is_stream'', JBool (le_is_stream e)),
       (''cost_usd'', enc_opt JFloat (le_cost_usd e))]"

section \<open>Reading a row back\<close>

text \<open>Each column holds the field that is bound for it.\<close>

lemma log_row_columns: "length (log_binds r) = length log_columns" "distinct log_columns"
  by (simp_all add: log_binds_def log_columns_def Let_def)

lemma log_row_get:
  assumes "i < length log_columns"
  shows "map_of (log_row r) (log_columns ! i) = Some (log_binds r ! i)"
  unfolding log_row_def using log_row_columns assms by (simp add: map_of_zip_nth)

lemma bind_inject [simp]:
  "bind_int x = bind_int y \<longleftrightarrow> x = y" "bind_text s = bind_text t \<longleftrightarrow> s = t" "bind_real a = bind_real b \<longleftrightarrow> a = b"
  by (auto simp: bind_int_def bind_text_def bind_real_def split: option.splits)

lemma cache_source_text_inject [simp]: "cache_source_text a = cache_source_text b \<longleftrightarrow> a = b"
  by (cases a; cases b) (simp_all add: cache_source_text_def)

text \<open>
  Nothing of a completed request is lost or mixed up in the log: two log entries that produce the same
  row agree in every field, the audit details included.
\<close>

theorem log_row_inject: "log_row r = log_row r' \<longleftrightarrow> r = r'"
proof
  assume "log_row r = log_row r'"
  then have "log_binds r = log_binds r'"
    using log_row_columns unfolding log_row_def by (metis map_snd_zip)
  then show "r = r'"
    by (cases r; cases r'; cases "rl_audit r"; cases "rl_audit r'")
      (auto simp: log_binds_def Let_def intro!: audit_from_provider.equality audit_from_router.equality cache_report.equality
        split: if_splits)
qed simp

lemma log_request_keeps:
  assumes "log_request fault r table = (res, table')"
  shows "\<exists>new. table' = table @ new \<and> length new \<le> 1"
  using assms by (auto simp: log_request_def split: option.splits if_splits)

end
