(* ===== verification/Gateway_Metrics.thy ===== *)
theory Gateway_Metrics
  imports Sse_Lines
begin

text \<open>
  The metrics registry (\<open>metrics.rs\<close>): the counters, their wrapping atomic updates and the text the
  metrics endpoint serves. The last part reads the counters back from that text.
\<close>

record metrics =
  mt_total_requests :: u64
  mt_failed_requests :: u64
  mt_stream_requests :: u64
  mt_cache_hits :: u64
  mt_active_connections :: u64
  mt_prompt_tokens :: u64
  mt_completion_tokens :: u64
  mt_retry_count :: u64
  mt_key_demotions :: u64
  mt_upstream_5xx :: u64
  mt_upstream_4xx :: u64
  mt_latency_sum_ms :: u64

definition metrics_default :: metrics where
  "metrics_default =
     \<lparr>mt_total_requests = 0, mt_failed_requests = 0, mt_stream_requests = 0, mt_cache_hits = 0, mt_active_connections = 0,
      mt_prompt_tokens = 0, mt_completion_tokens = 0, mt_retry_count = 0, mt_key_demotions = 0, mt_upstream_5xx = 0,
      mt_upstream_4xx = 0, mt_latency_sum_ms = 0\<rparr>"

definition inc_total_requests :: "metrics \<Rightarrow> metrics" where
  "inc_total_requests m = m\<lparr>mt_total_requests := mt_total_requests m + 1\<rparr>"

definition inc_failed :: "metrics \<Rightarrow> metrics" where
  "inc_failed m = m\<lparr>mt_failed_requests := mt_failed_requests m + 1\<rparr>"

definition inc_stream :: "metrics \<Rightarrow> metrics" where
  "inc_stream m = m\<lparr>mt_stream_requests := mt_stream_requests m + 1\<rparr>"

definition inc_cache_hit :: "metrics \<Rightarrow> metrics" where
  "inc_cache_hit m = m\<lparr>mt_cache_hits := mt_cache_hits m + 1\<rparr>"

definition inc_active :: "metrics \<Rightarrow> metrics" where
  "inc_active m = m\<lparr>mt_active_connections := mt_active_connections m + 1\<rparr>"

definition dec_active :: "metrics \<Rightarrow> metrics" where
  "dec_active m = m\<lparr>mt_active_connections := mt_active_connections m - 1\<rparr>"

definition add_prompt_tokens :: "u64 \<Rightarrow> metrics \<Rightarrow> metrics" where
  "add_prompt_tokens n m = m\<lparr>mt_prompt_tokens := mt_prompt_tokens m + n\<rparr>"

definition add_completion_tokens :: "u64 \<Rightarrow> metrics \<Rightarrow> metrics" where
  "add_completion_tokens n m = m\<lparr>mt_completion_tokens := mt_completion_tokens m + n\<rparr>"

definition inc_retry :: "metrics \<Rightarrow> metrics" where
  "inc_retry m = m\<lparr>mt_retry_count := mt_retry_count m + 1\<rparr>"

definition inc_key_demotion :: "metrics \<Rightarrow> metrics" where
  "inc_key_demotion m = m\<lparr>mt_key_demotions := mt_key_demotions m + 1\<rparr>"

definition inc_upstream_5xx :: "metrics \<Rightarrow> metrics" where
  "inc_upstream_5xx m = m\<lparr>mt_upstream_5xx := mt_upstream_5xx m + 1\<rparr>"

definition inc_upstream_4xx :: "metrics \<Rightarrow> metrics" where
  "inc_upstream_4xx m = m\<lparr>mt_upstream_4xx := mt_upstream_4xx m + 1\<rparr>"

definition record_latency_ms :: "u64 \<Rightarrow> metrics \<Rightarrow> metrics" where
  "record_latency_ms ms m = m\<lparr>mt_latency_sum_ms := mt_latency_sum_ms m + ms\<rparr>"

section \<open>The text of the metrics endpoint\<close>

text \<open>Name, kind, help text and value of each metric, in the order they are written.\<close>

definition metric_rows :: "metrics \<Rightarrow> (string \<times> string \<times> string \<times> u64) list" where
  "metric_rows m =
     [(''llm_proxy_requests_total'', ''counter'', ''Total requests'', mt_total_requests m),
      (''llm_proxy_requests_failed_total'', ''counter'', ''Failed requests'', mt_failed_requests m),
      (''llm_proxy_stream_requests_total'', ''counter'', ''Streaming requests'', mt_stream_requests m),
      (''llm_proxy_cache_hits_total'', ''counter'', ''Cache hits'', mt_cache_hits m),
      (''llm_proxy_active_connections'', ''gauge'', ''Active connections'', mt_active_connections m),
      (''llm_proxy_prompt_tokens_total'', ''counter'', ''Prompt tokens'', mt_prompt_tokens m),
      (''llm_proxy_completion_tokens_total'', ''counter'', ''Completion tokens'', mt_completion_tokens m),
      (''llm_proxy_retries_total'', ''counter'', ''Retry events'', mt_retry_count m),
      (''llm_proxy_key_demotions_total'', ''counter'', ''Key demotion events'', mt_key_demotions m),
      (''llm_proxy_upstream_5xx_total'', ''counter'', ''Upstream 5xx'', mt_upstream_5xx m),
      (''llm_proxy_upstream_4xx_total'', ''counter'', ''Upstream 4xx'', mt_upstream_4xx m),
      (''llm_proxy_request_latency_ms_sum'', ''counter'', ''Total latency ms'', mt_latency_sum_ms m)]"

fun metric_lines :: "string \<times> string \<times> string \<times> u64 \<Rightarrow> string list" where
  "metric_lines (name, kind, help, v) =
     [''# HELP '' @ name @ '' '' @ help, ''# TYPE '' @ name @ '' '' @ kind, name @ '' '' @ show_nat (unat v)]"

definition render :: "metrics \<Rightarrow> string" where
  "render m = concat (map (\<lambda>l. l @ [nl]) (concat (map metric_lines (metric_rows m))))"

definition metrics_handler :: "metrics \<Rightarrow> u16 \<times> string \<times> string" where
  "metrics_handler m = (200, ''text/plain; charset=utf-8'', render m)"

section \<open>Reading the text back\<close>

definition read_nat :: "string \<Rightarrow> nat" where
  "read_nat s = foldl (\<lambda>n c. 10 * n + (of_char c - 48)) 0 s"

lemma read_show_nat [simp]: "read_nat (show_nat n) = n"
proof (induction n rule: show_nat.induct)
  case (1 n)
  show ?case
  proof (cases "n < 10")
    case True
    then show ?thesis by (simp add: show_nat.simps [of n] read_nat_def)
  next
    case False
    then have "read_nat (show_nat (n div 10)) = n div 10" using 1 by simp
    then show ?thesis using False by (simp add: show_nat.simps [of n] read_nat_def)
  qed
qed

lemma nl_show_nat: "nl \<notin> set (show_nat n)"
proof (induction n rule: show_nat.induct)
  case (1 n)
  have "nl \<noteq> (char_of (48 + k) :: char)" if "k < 10" for k :: nat
  proof
    assume "nl = (char_of (48 + k) :: char)"
    then have "of_char nl = (of_char (char_of (48 + k) :: char) :: nat)" by simp
    then show False using that by simp
  qed
  then show ?case using 1 by (auto simp: show_nat.simps [of n])
qed

lemma lines_of_concat: "list_all (\<lambda>l. nl \<notin> set l) ls \<Longrightarrow> lines_of (concat (map (\<lambda>l. l @ [nl]) ls)) = ls"
proof (induction ls)
  case Nil
  then show ?case by (simp add: lines_of_None)
next
  case (Cons l ls)
  then show ?case using lines_of_line [of l "concat (map (\<lambda>l. l @ [nl]) ls)"] by simp
qed

definition metric_values :: "string \<Rightarrow> nat list" where
  "metric_values body =
     map (\<lambda>l. read_nat (tl (dropWhile (\<lambda>c. c \<noteq> CHR '' '') l))) (filter (\<lambda>l. hd l \<noteq> CHR ''#'') (lines_of body))"

lemma metric_values_render:
  "metric_values (render m) = map (\<lambda>(_, _, _, v). unat v) (metric_rows m)"
proof -
  have "lines_of (render m) = concat (map metric_lines (metric_rows m))"
    unfolding render_def by (rule lines_of_concat) (simp add: metric_rows_def nl_show_nat)
  then show ?thesis by (simp add: metric_values_def) (simp add: metric_rows_def)
qed

lemma render_inject: "render m = render m' \<longleftrightarrow> m = m'"
proof
  assume "render m = render m'"
  then have "map (\<lambda>(_, _, _, v). unat v) (metric_rows m) = map (\<lambda>(_, _, _, v). unat v) (metric_rows m')"
    by (metis metric_values_render)
  then show "m = m'" by (intro metrics.equality) (simp_all add: metric_rows_def word_unat_eq_iff)
qed simp

end
