(* ===== verification/Chat_Handler.thy ===== *)
theory Chat_Handler
  imports Providers Credentials Model_Catalog Request_Log Response_Normalize Circuit_Breaker Alerts
    Concurrency_Limiter Prompt_Cache Client_Auth Gateway_Metrics Stream_Normalize Stream_Inspector
begin

text \<open>
  The chat handler (\<open>server/handler.rs\<close>, with \<open>chat_service.rs\<close>): admission, the response cache, routing,
  the failover loop over the keys of the pool, accounting, and the streamed response with the task
  that inspects it. The state that requests share is a record; whatever other requests do to it
  while this one waits is a parameter (\<open>ev_others\<close>), applied wherever the handler awaits. Clocks,
  random draws and the network are functions of the attempt number, 0 being the time before the
  first attempt. A run also yields the keys of the upstream calls it makes.
\<close>

section \<open>State and environment\<close>

record app_state =
  st_router :: "provider router"
  st_bad :: registry
  st_cache :: prompt_cache
  st_metrics :: metrics
  st_breaker :: circuit_breaker
  st_concurrency :: concurrency_limiter
  st_alerts :: "alert_event list"
  st_bursts :: "(string \<times> string, u32) dmap"
  st_log :: "sql_row list"
  st_live :: "live_event list"
  st_credentials :: credential_runtime

record runtime_policy =
  rp_failover :: failover_config
  rp_alerts :: alert_config
  rp_cache_max_entries :: nat
  rp_response_normalization :: response_normalization

record chat_config =
  cc_policy :: runtime_policy
  cc_pricing :: pricing_config
  cc_registry :: "registry_entry list"
  cc_strip_think_tags :: bool

datatype await_point = Starting | Refreshing | Calling

record 'g chat_env =
  ev_hash :: "string \<Rightarrow> string"
  ev_sample :: "'g sampler"
  ev_rng :: "nat \<Rightarrow> 'g"
  ev_now :: "nat \<Rightarrow> instant"
  ev_now_ms :: "nat \<Rightarrow> int"
  ev_elapsed :: "nat \<Rightarrow> duration"
  ev_up :: "nat \<Rightarrow> upstream_env"
  ev_net :: "nat \<Rightarrow> network"
  ev_token_net :: "nat \<Rightarrow> timed_net"
  ev_others :: "nat \<Rightarrow> await_point \<Rightarrow> app_state \<Rightarrow> app_state"
  ev_digest :: "string \<Rightarrow> string"
  ev_ser :: "json \<Rightarrow> string"
  ev_show_f64 :: "rat \<Rightarrow> string"
  ev_parse :: "string \<Rightarrow> string + json"
  ev_log_fault :: "string option"

record chat_headers =
  hd_x_real_ip :: "string option"
  hd_x_forwarded_for :: "string option"
  hd_user_agent :: "string option"

section \<open>Pieces of the handler\<close>

definition client_ip_of :: "chat_headers \<Rightarrow> string option" where
  "client_ip_of h =
     map_option (\<lambda>s. trim (takeWhile (\<lambda>c. c \<noteq> CHR '','') s))
       (Option.bind (or_else (hd_x_real_ip h) (hd_x_forwarded_for h)) header_to_str)"

definition user_agent_of :: "chat_headers \<Rightarrow> string option" where
  "user_agent_of h = Option.bind (hd_user_agent h) header_to_str"

definition compute_cost :: "pricing_config \<Rightarrow> string \<Rightarrow> string \<Rightarrow> usage option \<Rightarrow> rat option" where
  "compute_cost pricing model tenant us =
     Option.bind us (\<lambda>u. cost_usd pricing model (Some tenant) (uint (prompt_tokens u)) (uint (completion_tokens u)))"

definition send_alert :: "alert_event \<Rightarrow> app_state \<Rightarrow> app_state" where
  "send_alert e st = st\<lparr>st_alerts := st_alerts st @ [e]\<rparr>"

definition count :: "(metrics \<Rightarrow> metrics) \<Rightarrow> app_state \<Rightarrow> app_state" where
  "count f st = st\<lparr>st_metrics := f (st_metrics st)\<rparr>"

text \<open>The row, whose failure is ignored, and the event for the live dashboard.\<close>

definition write_log :: "string option \<Rightarrow> request_log \<Rightarrow> app_state \<Rightarrow> app_state" where
  "write_log fault r st =
     st\<lparr>st_log := snd (log_request fault r (st_log st)), st_live := st_live st @ [live_event_of r]\<rparr>"

definition merge_default_params :: "json option \<Rightarrow> json \<Rightarrow> json" where
  "merge_default_params params extra =
     (case (params, extra) of
        (Some (JObj pm), JObj m) \<Rightarrow>
          JObj (fold (\<lambda>(k, v) m. if map_of m k = None then obj_insert k v m else m) pm m)
      | _ \<Rightarrow> extra)"

record chat_ctx =
  cx_request_id :: string
  cx_tenant :: string
  cx_client_ip :: "string option"
  cx_user_agent :: "string option"
  cx_provider :: provider
  cx_pool :: pool_config
  cx_pool_id :: string
  cx_req :: chat_request

record stream_context =
  sc_request_id :: string
  sc_ts :: int
  sc_model :: string
  sc_pool_id :: string
  sc_key_hash :: string
  sc_upstream :: string
  sc_retry_count :: int
  sc_tenant_id :: string
  sc_min_latency_ms :: u64
  sc_user_agent :: "string option"
  sc_client_ip :: "string option"
  sc_pricing :: pricing_config

datatype chat_reply = JsonReply chat_response | StreamReply stream_context "item list"

definition max_attempts :: "chat_config \<Rightarrow> nat" where
  "max_attempts cc = unat (fo_max_retries (rp_failover (cc_policy cc)))"

abbreviation too_slow :: "u64 \<Rightarrow> int \<Rightarrow> bool" where
  "too_slow threshold latency \<equiv> sint threshold < latency"

definition latency_alert :: "u64 \<Rightarrow> int \<Rightarrow> string \<Rightarrow> int \<Rightarrow> app_state \<Rightarrow> app_state" where
  "latency_alert threshold ts model latency st =
     (if too_slow threshold latency then send_alert (LatencySpike ts model latency threshold) st else st)"

section \<open>One attempt\<close>

datatype step = Finish "chat_reply result" | Again "string list"

text \<open>A completed, non-streamed answer.\<close>

definition once_log :: "'g chat_env \<Rightarrow> chat_config \<Rightarrow> chat_ctx \<Rightarrow> nat \<Rightarrow> string list \<Rightarrow> string \<Rightarrow> chat_response \<Rightarrow> chat_response \<Rightarrow>
    request_log" where
  "once_log env cc cx n retries key_hash raw resp =
     (let us = (case resp_usage resp of Some u \<Rightarrow> u | None \<Rightarrow> usage_default)
      in \<lparr>rl_id = cx_request_id cx, rl_ts = ev_now_ms env n, rl_client_ip = cx_client_ip cx,
          rl_model = req_model (cx_req cx), rl_pool_id = cx_pool_id cx, rl_key_hash = key_hash,
          rl_upstream_url = Some (pr_base_url (cx_provider cx)), rl_status_code = Some 200,
          rl_latency_ms = Some (as_millis (ev_elapsed env n)),
          rl_prompt_tokens = Some (uint (prompt_tokens us)), rl_completion_tokens = Some (uint (completion_tokens us)),
          rl_total_tokens = Some (uint (total_tokens us)), rl_is_stream = False, rl_error = None,
          rl_audit = \<lparr>au_from_provider = extract_audit (cx_provider cx) (Once raw),
            au_from_router = \<lparr>ar_retry_count = int (length retries), ar_ttft_ms = None\<rparr>, au_tenant_id = cx_tenant cx\<rparr>,
          rl_error_code = None, rl_user_agent = cx_user_agent cx,
          rl_cost_usd = compute_cost (cc_pricing cc) (req_model (cx_req cx)) (cx_tenant cx) (resp_usage resp)\<rparr>)"

definition on_once ::
  "'g chat_env \<Rightarrow> chat_config \<Rightarrow> chat_ctx \<Rightarrow> nat \<Rightarrow> string list \<Rightarrow> string \<Rightarrow> chat_response \<Rightarrow> app_state \<Rightarrow> step \<times> app_state" where
  "on_once env cc cx n retries key_hash raw st =
     (let latency = as_millis (ev_elapsed env n);
          resp = (if cc_strip_think_tags cc then normalize_chat_response raw else raw);
          us = (case resp_usage resp of Some u \<Rightarrow> u | None \<Rightarrow> usage_default);
          st = count (record_latency_ms (word_of_int latency)) st;
          st = count (add_prompt_tokens (ucast (prompt_tokens us))) st;
          st = count (add_completion_tokens (ucast (completion_tokens us))) st;
          st = write_log (ev_log_fault env) (once_log env cc cx n retries key_hash raw resp) st;
          st = latency_alert (al_min_latency_ms (rp_alerts (cc_policy cc))) (ev_now_ms env n) (req_model (cx_req cx)) latency st;
          st = (if 0 < rp_cache_max_entries (cc_policy cc)
                then st\<lparr>st_cache := cache_put (ev_now env n)
                       (cache_key (ev_digest env) (ev_ser env) (ev_show_f64 env) (cx_req cx)) resp (st_cache st)\<rparr>
                else st)
      in (Finish (Inr (JsonReply resp)), st))"

definition client_stream :: "json_lib \<Rightarrow> bool \<Rightarrow> item list \<Rightarrow> item list" where
  "client_stream lib strip body = (if strip then norm_collect lib (norm_new body) else body)"

definition on_stream ::
  "'g chat_env \<Rightarrow> chat_config \<Rightarrow> chat_ctx \<Rightarrow> nat \<Rightarrow> string list \<Rightarrow> string \<Rightarrow> item list \<Rightarrow> app_state \<Rightarrow> step \<times> app_state" where
  "on_stream env cc cx n retries key_hash body st =
     (Finish (Inr (StreamReply
        \<lparr>sc_request_id = cx_request_id cx, sc_ts = ev_now_ms env n, sc_model = req_model (cx_req cx),
         sc_pool_id = cx_pool_id cx, sc_key_hash = key_hash, sc_upstream = pr_base_url (cx_provider cx),
         sc_retry_count = int (length retries), sc_tenant_id = cx_tenant cx,
         sc_min_latency_ms = al_min_latency_ms (rp_alerts (cc_policy cc)), sc_user_agent = cx_user_agent cx,
         sc_client_ip = cx_client_ip cx, sc_pricing = cc_pricing cc\<rparr>
        (client_stream (ue_json (ev_up env n)) (cc_strip_think_tags cc) body))), st)"

definition on_success ::
  "'g chat_env \<Rightarrow> chat_config \<Rightarrow> chat_ctx \<Rightarrow> nat \<Rightarrow> string list \<Rightarrow> string \<Rightarrow> provider_response \<Rightarrow> app_state \<Rightarrow> step \<times> app_state" where
  "on_success env cc cx n retries key_hash resp st =
     (let burst_key = (cx_pool_id cx, key_hash);
          st = st\<lparr>st_breaker := record_success burst_key (st_breaker st), st_bursts := dm_remove burst_key (st_bursts st)\<rparr>
      in case resp of
           Once raw \<Rightarrow> on_once env cc cx n retries key_hash raw st
         | Stream body \<Rightarrow> on_stream env cc cx n retries key_hash body st)"

text \<open>The counter of consecutive upstream errors of a key, with its alert.\<close>

definition note_burst ::
  "'g chat_env \<Rightarrow> chat_config \<Rightarrow> chat_ctx \<Rightarrow> nat \<Rightarrow> string \<Rightarrow> u16 option \<Rightarrow> string \<Rightarrow> app_state \<Rightarrow> app_state" where
  "note_burst env cc cx n key_hash status msg st =
     (let burst_key = (cx_pool_id cx, key_hash);
          c = (case dm_get (st_bursts st) burst_key of Some c \<Rightarrow> c + 1 | None \<Rightarrow> 1);
          st = st\<lparr>st_bursts := dm_insert burst_key c (st_bursts st)\<rparr>
      in if al_min_error_burst (rp_alerts (cc_policy cc)) \<le> c
         then send_alert (UpstreamError (ev_now_ms env n) (cx_pool_id cx) key_hash
                (case status of Some s \<Rightarrow> show_nat (unat s) | None \<Rightarrow> ''unknown'') status msg) st
         else st)"

definition surfaced :: "u16 option \<Rightarrow> string \<Rightarrow> step" where
  "surfaced status msg = Finish (Inl (Upstream status False False msg))"

definition blames_key :: "chat_config \<Rightarrow> u16 option \<Rightarrow> bool \<Rightarrow> bool" where
  "blames_key cc status bad_key_hint =
     (bad_key_hint \<and> (case status of Some s \<Rightarrow> s \<in> set (fo_bad_status_codes (rp_failover (cc_policy cc))) | None \<Rightarrow> False))"

text \<open>What follows the demotion, if any: give up or try again.\<close>

definition retry_or_fail ::
  "chat_config \<Rightarrow> nat \<Rightarrow> string list \<Rightarrow> u16 option \<Rightarrow> bool \<Rightarrow> string \<Rightarrow> step" where
  "retry_or_fail cc n retries status retryable msg =
     (if \<not> retryable then surfaced status msg
      else if max_attempts cc < n
        then surfaced status (''max retries ('' @ show_nat (max_attempts cc) @ '') exceeded: '' @ msg)
      else Again retries)"

definition on_upstream_error ::
  "'g chat_env \<Rightarrow> chat_config \<Rightarrow> chat_ctx \<Rightarrow> nat \<Rightarrow> string list \<Rightarrow> key_entry \<Rightarrow> u16 option \<Rightarrow> bool \<Rightarrow> bool \<Rightarrow> string \<Rightarrow>
     app_state \<Rightarrow> step \<times> app_state" where
  "on_upstream_error env cc cx n retries key status retryable bad_key_hint msg st =
     (let key_hash = identity_hash (ev_hash env) key;
          st = note_burst env cc cx n key_hash status msg st
      in if blames_key cc status bad_key_hint then
           let st = st\<lparr>st_breaker := snd (record_failure (ev_now env n) (cx_pool_id cx, key_hash) (st_breaker st))\<rparr>
           in case try_demote (ev_hash env) (cx_pool cx) (cx_pool_id cx) key (st_bad st) of
                (True, bad) \<Rightarrow>
                  (retry_or_fail cc n (retries @ [key_hash]) status retryable msg,
                   count inc_key_demotion (st\<lparr>st_bad := bad\<rparr>))
              | (False, _) \<Rightarrow> (surfaced status msg, st)
         else (retry_or_fail cc n retries status retryable msg, st))"

definition bad_key_error :: "app_error \<Rightarrow> bool" where
  "bad_key_error e = (case e of Upstream _ _ hint _ \<Rightarrow> hint | _ \<Rightarrow> False)"

definition on_refresh_error ::
  "'g chat_env \<Rightarrow> chat_config \<Rightarrow> chat_ctx \<Rightarrow> nat \<Rightarrow> string list \<Rightarrow> key_entry \<Rightarrow> app_error \<Rightarrow> app_state \<Rightarrow> step \<times> app_state" where
  "on_refresh_error env cc cx n retries key e st =
     (if bad_key_error e then
        (case try_demote (ev_hash env) (cx_pool cx) (cx_pool_id cx) key (st_bad st) of
           (True, bad) \<Rightarrow>
             (if max_attempts cc < n then Finish (Inl e) else Again (retries @ [identity_hash (ev_hash env) key]),
              st\<lparr>st_bad := bad\<rparr>)
         | (False, _) \<Rightarrow> (Finish (Inl e), st))
      else (Finish (Inl e), st))"

definition breaker_open_error :: "string \<Rightarrow> app_error" where
  "breaker_open_error pool_id = Upstream (Some 429) True False (''circuit breaker open for pool '' @ quoted pool_id)"

definition call_provider ::
  "'g chat_env \<Rightarrow> chat_config \<Rightarrow> chat_ctx \<Rightarrow> nat \<Rightarrow> string list \<Rightarrow> key_entry \<Rightarrow> app_state \<Rightarrow> step \<times> app_state" where
  "call_provider env cc cx n retries key st =
     (let st' = ev_others env n Calling st
      in case chat (ev_up env n) (ev_net env n) (cx_provider cx) (cx_req cx) key of
           Inr resp \<Rightarrow> on_success env cc cx n retries (identity_hash (ev_hash env) key) resp st'
         | Inl (Upstream status retryable hint msg) \<Rightarrow>
             on_upstream_error env cc cx n retries key status retryable hint msg st'
         | Inl other \<Rightarrow> (Finish (Inl other), st'))"

definition use_key ::
  "'g chat_env \<Rightarrow> chat_config \<Rightarrow> chat_ctx \<Rightarrow> nat \<Rightarrow> string list \<Rightarrow> key_entry \<Rightarrow> app_state \<Rightarrow> step \<times> key_entry list \<times> app_state" where
  "use_key env cc cx n retries key st =
     (let key_hash = identity_hash (ev_hash env) key;
          (allowed, breaker) = allow (ev_now env n) (cx_pool_id cx, key_hash) (st_breaker st);
          st = st\<lparr>st_breaker := breaker\<rparr>
      in if allowed then
           (case call_provider env cc cx n retries key st of (out, st) \<Rightarrow> (out, [key], st))
         else
           (if max_attempts cc < n then Finish (Inl (breaker_open_error (cx_pool_id cx)))
            else Again (retries @ [key_hash]), [], st))"

definition chat_attempt ::
  "'g chat_env \<Rightarrow> chat_config \<Rightarrow> chat_ctx \<Rightarrow> nat \<Rightarrow> string list \<Rightarrow> app_state \<Rightarrow> step \<times> key_entry list \<times> app_state" where
  "chat_attempt env cc cx n retries st0 =
     (let st = ev_others env n Starting st0
      in case pick_key (ev_hash env) (ev_sample env) (ev_rng env n) (st_bad st) (cx_pool cx) (cx_pool_id cx) of
           None \<Rightarrow>
             (Finish (Inl (pool_exhausted (cx_pool_id cx))), [],
              send_alert (alert_event.PoolExhausted (ev_now_ms env n) (cx_pool_id cx)) st)
         | Some key \<Rightarrow>
             (case ensure_fresh (ev_hash env) (ue_http (ev_up env n)) (ev_token_net env n) (ev_now_ms env n) key
                     (st_credentials st) of
                (r, creds) \<Rightarrow>
                  let st = ev_others env n Refreshing (st\<lparr>st_credentials := creds\<rparr>)
                  in case r of
                       Inl e \<Rightarrow>
                         (case on_refresh_error env cc cx n retries key e st of (out, st) \<Rightarrow> (out, [], st))
                     | Inr key \<Rightarrow> use_key env cc cx n retries key st))"

lemma retry_or_fail_Again: "retry_or_fail cc n retries status retryable msg = Again rs \<Longrightarrow> n \<le> max_attempts cc"
  by (auto simp: retry_or_fail_def surfaced_def split: if_splits)

text \<open>An attempt only asks for another one while attempts are left.\<close>

lemma call_provider_Again: "call_provider env cc cx n retries key st = (Again rs, st') \<Longrightarrow> n \<le> max_attempts cc"
  by (auto simp: call_provider_def on_success_def on_once_def on_stream_def on_upstream_error_def surfaced_def Let_def
      dest: retry_or_fail_Again split: sum.splits app_error.splits provider_response.splits prod.splits bool.splits if_splits)

lemma chat_attempt_Again: "chat_attempt env cc cx n retries st = (Again rs, calls, st') \<Longrightarrow> n \<le> max_attempts cc"
  by (auto simp: chat_attempt_def use_key_def on_refresh_error_def Let_def
      dest: call_provider_Again [of env cc cx n retries] split: option.splits prod.splits sum.splits if_splits bool.splits)

section \<open>The loop\<close>

function chat_loop ::
  "'g chat_env \<Rightarrow> chat_config \<Rightarrow> chat_ctx \<Rightarrow> nat \<Rightarrow> string list \<Rightarrow> app_state \<Rightarrow> chat_reply result \<times> key_entry list \<times> app_state" where
  "chat_loop env cc cx n retries st =
     (case chat_attempt env cc cx n retries st of
        (Finish r, calls, st) \<Rightarrow> (r, calls, st)
      | (Again retries', calls, st) \<Rightarrow>
          (case chat_loop env cc cx (Suc n) retries' st of (r, calls', st) \<Rightarrow> (r, calls @ calls', st)))"
  by pat_completeness auto
termination
  by (relation "measure (\<lambda>(env, cc, cx, n, retries, st). Suc (max_attempts cc) - n)")
    (auto dest!: chat_attempt_Again [OF sym])

declare chat_loop.simps [simp del]

section \<open>The request that is sent upstream\<close>

text \<open>The thinking level is translated, the model renamed and the default parameters added, in this order.\<close>

definition effective_request ::
  "(string \<Rightarrow> string + json) \<Rightarrow> registry_entry list \<Rightarrow> json option \<Rightarrow> string option \<Rightarrow> chat_request \<Rightarrow> chat_request result" where
  "effective_request parse registry default_params upstream_model req =
     (case translate_reasoning_effort parse registry (req_model req) req of
        Inl e \<Rightarrow> Inl e
      | Inr r \<Rightarrow>
          let r = (case upstream_model of Some u \<Rightarrow> r\<lparr>req_model := u\<rparr> | None \<Rightarrow> r)
          in Inr (r\<lparr>req_extra := merge_default_params default_params (req_extra r)\<rparr>))"

section \<open>The handler\<close>

definition cached_log :: "'g chat_env \<Rightarrow> chat_config \<Rightarrow> string \<Rightarrow> string \<Rightarrow> chat_headers \<Rightarrow> string \<Rightarrow> chat_response \<Rightarrow> request_log" where
  "cached_log env cc request_id tenant h model cached =
     \<lparr>rl_id = request_id, rl_ts = ev_now_ms env 0, rl_client_ip = client_ip_of h, rl_model = model,
      rl_pool_id = ''cache'', rl_key_hash = ''cache-hit'', rl_upstream_url = None, rl_status_code = Some 200,
      rl_latency_ms = Some 0,
      rl_prompt_tokens = map_option (\<lambda>u. uint (prompt_tokens u)) (resp_usage cached),
      rl_completion_tokens = map_option (\<lambda>u. uint (completion_tokens u)) (resp_usage cached),
      rl_total_tokens = map_option (\<lambda>u. uint (total_tokens u)) (resp_usage cached),
      rl_is_stream = False, rl_error = None, rl_audit = audit_none, rl_error_code = None,
      rl_user_agent = user_agent_of h, rl_cost_usd = compute_cost (cc_pricing cc) model tenant (resp_usage cached)\<rparr>"

definition cache_lookup :: "'g chat_env \<Rightarrow> chat_request \<Rightarrow> app_state \<Rightarrow> chat_response option \<times> app_state" where
  "cache_lookup env req st =
     (if \<not> is_streaming req \<and> (case req_temperature req of Some t \<Rightarrow> t | None \<Rightarrow> 0) < 1 / 100
      then (case cache_get (ev_now env 0) (cache_key (ev_digest env) (ev_ser env) (ev_show_f64 env) req) (st_cache st) of
              (hit, c) \<Rightarrow> (hit, st\<lparr>st_cache := c\<rparr>))
      else (None, st))"

definition routed_request ::
  "'g chat_env \<Rightarrow> chat_config \<Rightarrow> string \<Rightarrow> string \<Rightarrow> chat_headers \<Rightarrow> chat_request \<Rightarrow> app_state \<Rightarrow>
     chat_reply result \<times> key_entry list \<times> app_state" where
  "routed_request env cc tenant request_id h req st =
     (case resolve (st_router st) (req_model req) of
        Inl e \<Rightarrow> (Inl e, [], st)
      | Inr (provider, pool, pool_id, default_params, upstream_model) \<Rightarrow>
          (case effective_request (ev_parse env) (cc_registry cc) default_params upstream_model req of
             Inl e \<Rightarrow> (Inl e, [], st)
           | Inr req' \<Rightarrow>
               chat_loop env cc
                 \<lparr>cx_request_id = request_id, cx_tenant = tenant, cx_client_ip = client_ip_of h,
                  cx_user_agent = user_agent_of h, cx_provider = provider, cx_pool = pool, cx_pool_id = pool_id,
                  cx_req = req'\<rparr> 1 [] st))"

definition admitted_request ::
  "'g chat_env \<Rightarrow> chat_config \<Rightarrow> string \<Rightarrow> string \<Rightarrow> chat_headers \<Rightarrow> chat_request \<Rightarrow> app_state \<Rightarrow>
     chat_reply result \<times> key_entry list \<times> app_state" where
  "admitted_request env cc tenant request_id h req st =
     (case cache_lookup env req st of
        (Some cached, st) \<Rightarrow>
          (Inr (JsonReply cached), [],
           write_log (ev_log_fault env) (cached_log env cc request_id tenant h (req_model req) cached)
             (count inc_cache_hit st))
      | (None, st) \<Rightarrow> routed_request env cc tenant request_id h req st)"

definition chat_completions_handler ::
  "'g chat_env \<Rightarrow> chat_config \<Rightarrow> authed_client \<Rightarrow> string \<Rightarrow> chat_headers \<Rightarrow> chat_request \<Rightarrow> app_state \<Rightarrow>
     chat_reply result \<times> key_entry list \<times> app_state" where
  "chat_completions_handler env cc client request_id h req st =
     (let st = count inc_total_requests st;
          tenant = ac_tenant_id client
      in case acquire tenant (st_concurrency st) of
           (False, cl) \<Rightarrow>
             (Inl (Upstream (Some 429) True False ''tenant concurrency limit reached''), [],
              send_alert (RateLimited (ev_now_ms env 0) tenant) (count inc_failed (st\<lparr>st_concurrency := cl\<rparr>)))
         | (True, cl) \<Rightarrow>
             let st = st\<lparr>st_concurrency := cl\<rparr>;
                 st = (if is_streaming req then count inc_stream st else st)
             in case admitted_request env cc tenant request_id h req st of
                  (r, calls, st) \<Rightarrow> (r, calls, st\<lparr>st_concurrency := drop_guard tenant (st_concurrency st)\<rparr>))"

section \<open>The task behind a streamed reply\<close>

text \<open>The chunks are those forwarded to the client, each with the time it reached the task.\<close>

definition stream_log :: "stream_context \<Rightarrow> stream_inspector \<Rightarrow> int \<Rightarrow> request_log" where
  "stream_log ctx inspector latency =
     (let us = (case ss_usage (finalize inspector) of Some u \<Rightarrow> u | None \<Rightarrow> usage_default)
      in \<lparr>rl_id = sc_request_id ctx, rl_ts = sc_ts ctx, rl_client_ip = sc_client_ip ctx, rl_model = sc_model ctx,
          rl_pool_id = sc_pool_id ctx, rl_key_hash = sc_key_hash ctx, rl_upstream_url = Some (sc_upstream ctx),
          rl_status_code = Some 200, rl_latency_ms = Some latency,
          rl_prompt_tokens = Some (uint (prompt_tokens us)), rl_completion_tokens = Some (uint (completion_tokens us)),
          rl_total_tokens = Some (uint (total_tokens us)), rl_is_stream = True, rl_error = None,
          rl_audit = \<lparr>au_from_provider = into_audit inspector,
            au_from_router = \<lparr>ar_retry_count = sc_retry_count ctx, ar_ttft_ms = ttft_ms inspector\<rparr>,
            au_tenant_id = sc_tenant_id ctx\<rparr>,
          rl_error_code = None, rl_user_agent = sc_user_agent ctx,
          rl_cost_usd = compute_cost (sc_pricing ctx) (sc_model ctx) (sc_tenant_id ctx) (Some us)\<rparr>)"

definition stream_task ::
  "(string \<Rightarrow> string + json) \<Rightarrow> string option \<Rightarrow> stream_context \<Rightarrow> instant \<Rightarrow> (instant \<times> string) list \<Rightarrow> instant \<Rightarrow>
     app_state \<Rightarrow> app_state" where
  "stream_task parse fault ctx started_at chunks ended st =
     (let inspector = inspect_stream parse started_at chunks ended;
          latency = as_millis (elapsed ended started_at);
          st = count (record_latency_ms (word_of_int (max latency 0))) st;
          st = write_log fault (stream_log ctx inspector latency) st
      in latency_alert (sc_min_latency_ms ctx) (sc_ts ctx) (sc_model ctx) latency st)"

section \<open>The listings\<close>

definition models_handler :: "'p router \<Rightarrow> string \<times> wire_model list" where
  "models_handler rt = (''list'', list_models rt)"

definition model_metadata_handler ::
  "(string \<Rightarrow> string + json) \<Rightarrow> metadata_config \<Rightarrow> registry_entry list \<Rightarrow> 'p router \<Rightarrow> string \<times> wire_metadata list" where
  "model_metadata_handler parse mc registry rt = (''model_metadata_list'', list_metadata parse mc registry rt)"

end
