(* ===== verification/Failover.thy ===== *)
theory Failover
  imports Chat_Handler
begin

text \<open>
  What the chat handler guarantees. The failover loop makes a bounded number of upstream calls, all
  with keys that the router may hand out; it never uses up a pool; a delivered reply is the
  normalised answer of the last call and is logged. The handler gives its concurrency permit back.
  The last part concerns the request that is sent: its cache key and its default parameters.
\<close>

section \<open>Upstream calls\<close>

lemma attempt_calls:
  assumes "chat_attempt env cc cx n retries st = (out, calls, st')"
  shows "calls = [] \<or>
    (\<exists>k0 k creds. calls = [k] \<and>
       pick_key (ev_hash env) (ev_sample env) (ev_rng env n) (st_bad (ev_others env n Starting st)) (cx_pool cx) (cx_pool_id cx) = Some k0 \<and>
       ensure_fresh (ev_hash env) (ue_http (ev_up env n)) (ev_token_net env n) (ev_now_ms env n) k0
         (st_credentials (ev_others env n Starting st)) = (Inr k, creds))"
  using assms
  by (auto simp: chat_attempt_def use_key_def Let_def split: option.splits prod.splits sum.splits if_splits)

lemma ensure_fresh_identity:
  assumes "\<And>s. H s \<noteq> []" and "ensure_fresh H lib net now entry rt = (Inr k, rt')"
  shows "identity_hash H k = identity_hash H entry"
proof -
  note live = apply_live_identity [of H, OF assms(1)]
  have "\<exists>live. k = apply_live H entry live" if "refresh_live H lib net now entry rt1 = (Inr k, rt')" for rt1
    using refresh_live_Inr [OF that] by blast
  then have "k = entry \<or> (\<exists>live. k = apply_live H entry live)"
    using ensure_fresh_Inr [OF assms(2)] ensure_own_Inr by blast
  then show ?thesis using live by auto
qed

lemma attempt_call_key:
  assumes ok: "sampler_ok (ev_sample env)" "\<And>s. ev_hash env s \<noteq> []"
    and "chat_attempt env cc cx n retries st = (out, calls, st')" and "k \<in> set calls"
  shows "\<exists>k0\<in>set (pc_keys (cx_pool cx)). selectable (ev_hash env) (st_bad (ev_others env n Starting st)) (cx_pool_id cx) k0 \<and>
    identity_hash (ev_hash env) k = identity_hash (ev_hash env) k0"
proof -
  from attempt_calls [OF assms(3)] assms(4) obtain k0 creds where
    "pick_key (ev_hash env) (ev_sample env) (ev_rng env n) (st_bad (ev_others env n Starting st)) (cx_pool cx) (cx_pool_id cx) = Some k0"
    "ensure_fresh (ev_hash env) (ue_http (ev_up env n)) (ev_token_net env n) (ev_now_ms env n) k0
       (st_credentials (ev_others env n Starting st)) = (Inr k, creds)"
    by auto
  then show ?thesis using pick_key_Some [OF ok(1)] ensure_fresh_identity [of "ev_hash env", OF ok(2)] by blast
qed

lemma loop_calls:
  assumes ok: "sampler_ok (ev_sample env)" "\<And>s. ev_hash env s \<noteq> []"
    and "chat_loop env cc cx n retries st = (r, calls, st')" and "n \<le> Suc (max_attempts cc)"
  shows "length calls \<le> Suc (Suc (max_attempts cc)) - n \<and>
    (\<forall>k\<in>set calls. \<exists>k0\<in>set (pc_keys (cx_pool cx)). 0 < ke_weight k0 \<and>
       identity_hash (ev_hash env) k = identity_hash (ev_hash env) k0)"
  using assms
proof (induction env cc cx n retries st arbitrary: r calls st' rule: chat_loop.induct)
  case (1 env cc cx n retries st)
  obtain out calls1 st1 where a: "chat_attempt env cc cx n retries st = (out, calls1, st1)" by (metis prod_cases3)
  have len: "length calls1 \<le> 1" using attempt_calls [OF a] by auto
  have keys: "\<exists>k0\<in>set (pc_keys (cx_pool cx)). 0 < ke_weight k0 \<and> identity_hash (ev_hash env) k = identity_hash (ev_hash env) k0"
    if "k \<in> set calls1" for k
    using attempt_call_key [OF 1(2,3) a that] by (auto simp: selectable_def)
  show ?case
  proof (cases out)
    case (Finish r1)
    then have "calls = calls1" using 1(4) a by (simp add: chat_loop.simps)
    then show ?thesis using len keys 1(5) by auto
  next
    case (Again retries')
    then have n: "n \<le> max_attempts cc" using chat_attempt_Again a by blast
    obtain r2 calls2 st2 where l: "chat_loop env cc cx (Suc n) retries' st1 = (r2, calls2, st2)" by (metis prod_cases3)
    then have "calls = calls1 @ calls2" using 1(4) a Again by (simp add: chat_loop.simps [of env cc cx n])
    moreover have "length calls2 \<le> Suc (Suc (max_attempts cc)) - Suc n \<and>
        (\<forall>k\<in>set calls2. \<exists>k0\<in>set (pc_keys (cx_pool cx)). 0 < ke_weight k0 \<and>
           identity_hash (ev_hash env) k = identity_hash (ev_hash env) k0)"
      using 1(1) [OF a [symmetric]] Again l 1(2,3) n by simp
    ultimately show ?thesis using len keys n by auto
  qed
qed

text \<open>
  C6. The failover loop ends after at most one more upstream call than the configured number of retries,
  whatever the upstream answers and whatever other requests do meanwhile, and every call uses a
  key that has the identity of a key of the pool with a positive weight.
\<close>

theorem failover_bounded:
  assumes "sampler_ok (ev_sample env)" and "\<And>s. ev_hash env s \<noteq> []"
    and "chat_loop env cc cx 1 [] st = (r, calls, st')"
  shows "length calls \<le> Suc (unat (fo_max_retries (rp_failover (cc_policy cc)))) \<and>
    (\<forall>k\<in>set calls. \<exists>k0\<in>set (pc_keys (cx_pool cx)). 0 < ke_weight k0 \<and>
       identity_hash (ev_hash env) k = identity_hash (ev_hash env) k0)"
  using loop_calls [OF assms] by (simp add: max_attempts_def)

text \<open>Every run is some attempts that ask for another one, and a last one.\<close>

lemma loop_last_attempt:
  assumes "chat_loop env cc cx n retries st = (r, calls, st')" and "Q st"
    and "\<And>n retries st rs calls st'. Q st \<Longrightarrow> chat_attempt env cc cx n retries st = (Again rs, calls, st') \<Longrightarrow> Q st'"
  shows "\<exists>m rs st1 before last. Q st1 \<and> chat_attempt env cc cx m rs st1 = (Finish r, last, st') \<and> calls = before @ last"
  using assms
proof (induction env cc cx n retries st arbitrary: r calls st' rule: chat_loop.induct)
  case (1 env cc cx n retries st)
  obtain out calls1 st1 where a: "chat_attempt env cc cx n retries st = (out, calls1, st1)" by (metis prod_cases3)
  show ?case
  proof (cases out)
    case (Finish r1)
    then have "r1 = r" "calls = calls1" "st1 = st'" using 1(2) a by (simp_all add: chat_loop.simps)
    then show ?thesis using a Finish 1(3) by (metis append_Nil)
  next
    case (Again retries')
    obtain r2 calls2 st2 where l: "chat_loop env cc cx (Suc n) retries' st1 = (r2, calls2, st2)" by (metis prod_cases3)
    then have c: "calls = calls1 @ calls2" "r2 = r" "st2 = st'"
      using 1(2) a Again by (simp_all add: chat_loop.simps [of env cc cx n])
    have "Q st1" using 1(3,4) a Again by blast
    then obtain m rs st3 before last where
      "Q st3" "chat_attempt env cc cx m rs st3 = (Finish r, last, st')" "calls2 = before @ last"
      using 1(1) [OF a [symmetric] Again refl] l c 1(4) by blast
    then show ?thesis using c by (metis append.assoc)
  qed
qed

section \<open>A frame for the attempts\<close>

named_theorems frame \<open>what the pieces of the handler leave alone\<close>

lemma count_frame [frame]:
  "st_bad (count f st) = st_bad st" "st_log (count f st) = st_log st" "st_live (count f st) = st_live st"
  "st_concurrency (count f st) = st_concurrency st"
  by (simp_all add: count_def)

lemma send_alert_frame [frame]:
  "st_bad (send_alert e st) = st_bad st" "st_log (send_alert e st) = st_log st" "st_live (send_alert e st) = st_live st"
  "st_concurrency (send_alert e st) = st_concurrency st" "st_metrics (send_alert e st) = st_metrics st"
  by (simp_all add: send_alert_def)

lemma write_log_frame [frame]:
  "st_bad (write_log fault r st) = st_bad st" "st_concurrency (write_log fault r st) = st_concurrency st"
  "st_log (write_log fault r st) = snd (log_request fault r (st_log st))"
  by (simp_all add: write_log_def)

lemma latency_alert_frame [frame]:
  "st_bad (latency_alert a b c d st) = st_bad st" "st_log (latency_alert a b c d st) = st_log st"
  "st_concurrency (latency_alert a b c d st) = st_concurrency st"
  by (simp_all add: latency_alert_def frame)

lemma note_burst_frame [frame]:
  "st_bad (note_burst env cc cx n h s m st) = st_bad st" "st_log (note_burst env cc cx n h s m st) = st_log st"
  "st_live (note_burst env cc cx n h s m st) = st_live st" "st_metrics (note_burst env cc cx n h s m st) = st_metrics st"
  "st_concurrency (note_burst env cc cx n h s m st) = st_concurrency st"
  by (simp_all add: note_burst_def Let_def frame)

lemma on_success_frame [frame]:
  "st_bad (snd (on_success env cc cx n rs h resp st)) = st_bad st"
  "st_concurrency (snd (on_success env cc cx n rs h resp st)) = st_concurrency st"
  by (simp_all add: on_success_def on_once_def on_stream_def Let_def frame split: provider_response.split)

lemma on_upstream_error_frame [frame]:
  "st_log (snd (on_upstream_error env cc cx n rs key s ret hint m st)) = st_log st"
  "st_live (snd (on_upstream_error env cc cx n rs key s ret hint m st)) = st_live st"
  "st_concurrency (snd (on_upstream_error env cc cx n rs key s ret hint m st)) = st_concurrency st"
  by (simp_all add: on_upstream_error_def Let_def frame split: prod.split bool.split)

lemma on_refresh_error_frame [frame]:
  "st_log (snd (on_refresh_error env cc cx n rs key e st)) = st_log st"
  "st_live (snd (on_refresh_error env cc cx n rs key e st)) = st_live st"
  "st_concurrency (snd (on_refresh_error env cc cx n rs key e st)) = st_concurrency st"
  "st_metrics (snd (on_refresh_error env cc cx n rs key e st)) = st_metrics st"
  by (simp_all add: on_refresh_error_def split: prod.split bool.split)

text \<open>A predicate on the registry of excluded keys that demotion and the other requests keep.\<close>

lemma on_upstream_error_bad:
  assumes "P (st_bad st)" and "\<And>key bad. P bad \<Longrightarrow> P (snd (try_demote (ev_hash env) (cx_pool cx) (cx_pool_id cx) key bad))"
  shows "P (st_bad (snd (on_upstream_error env cc cx n rs key s ret hint m st)))"
  using assms(1) assms(2) [of "st_bad st" key] by (auto simp: on_upstream_error_def Let_def frame split: prod.split bool.split)

lemma on_refresh_error_bad:
  assumes "P (st_bad st)" and "\<And>key bad. P bad \<Longrightarrow> P (snd (try_demote (ev_hash env) (cx_pool cx) (cx_pool_id cx) key bad))"
  shows "P (st_bad (snd (on_refresh_error env cc cx n rs key e st)))"
  using assms(1) assms(2) [of "st_bad st" key] by (auto simp: on_refresh_error_def split: prod.split bool.split)

lemma call_provider_bad:
  assumes "P (st_bad st)" and "\<And>key bad. P bad \<Longrightarrow> P (snd (try_demote (ev_hash env) (cx_pool cx) (cx_pool_id cx) key bad))"
    and "\<And>n p st. P (st_bad st) \<Longrightarrow> P (st_bad (ev_others env n p st))"
  shows "P (st_bad (snd (call_provider env cc cx n rs key st)))"
  using assms(1,3) on_upstream_error_bad [of P _ env cx, OF _ assms(2)]
  by (simp add: call_provider_def Let_def frame split: sum.split app_error.split)

lemma use_key_bad:
  assumes "P (st_bad st)" and "\<And>key bad. P bad \<Longrightarrow> P (snd (try_demote (ev_hash env) (cx_pool cx) (cx_pool_id cx) key bad))"
    and "\<And>n p st. P (st_bad st) \<Longrightarrow> P (st_bad (ev_others env n p st))"
  shows "P (st_bad (snd (snd (use_key env cc cx n rs key st))))"
  using call_provider_bad [of P "st\<lparr>st_breaker := b\<rparr>" for b, OF _ assms(2,3)] assms(1)
  by (simp add: use_key_def Let_def case_prod_beta)

lemma attempt_bad:
  assumes "P (st_bad st)" and "\<And>key bad. P bad \<Longrightarrow> P (snd (try_demote (ev_hash env) (cx_pool cx) (cx_pool_id cx) key bad))"
    and "\<And>n p st. P (st_bad st) \<Longrightarrow> P (st_bad (ev_others env n p st))"
  shows "P (st_bad (snd (snd (chat_attempt env cc cx n rs st))))"
proof -
  have "P (st_bad (ev_others env n Starting st))" using assms(1,3) by blast
  then have "P (st_bad (ev_others env n Refreshing ((ev_others env n Starting st)\<lparr>st_credentials := c\<rparr>)))" for c
    by (intro assms(3)) simp
  then show ?thesis
    using \<open>P (st_bad (ev_others env n Starting st))\<close> use_key_bad [of P _ env cx, OF _ assms(2,3)]
      on_refresh_error_bad [of P _ env cx, OF _ assms(2)]
    by (simp add: chat_attempt_def Let_def case_prod_beta frame split: option.split sum.split)
qed


section \<open>A sample gateway\<close>

text \<open>An upstream that refuses the key \<open>a\<close> and answers every other one.\<close>

definition sample_http :: http_lib where
  "sample_http =
     \<lparr>lib_parse_json = (\<lambda>_. Inr (JObj [(''choices'', JArr []), (''model'', JStr ''up''),
        (''usage'', JObj [(''completion_tokens'', JInt 7), (''prompt_tokens'', JInt 5), (''total_tokens'', JInt 12)])])),
      lib_type_error = (\<lambda>_. []), lib_decode_text = id, lib_write_json = (\<lambda>_. [])\<rparr>"

definition sample_net :: network where
  "sample_net rq =
     Inr (if (''authorization'', ''Bearer a'') \<in> set (hq_headers rq)
          then \<lparr>hr_status = 401, hr_content_type = None, hr_chunks = []\<rparr>
          else \<lparr>hr_status = 200, hr_content_type = None, hr_chunks = [Inr ''body'']\<rparr>)"

definition sample_up :: upstream_env where
  "sample_up =
     \<lparr>ue_http = sample_http, ue_json = \<lparr>jl_parse = (\<lambda>_. Inl ''no''), jl_write = (\<lambda>_. [])\<rparr>, ue_now = 0, ue_uuid = ''u'',
      ue_rand_hex = ''r'', ue_show_status = (\<lambda>_. []), ue_serialize_error = []\<rparr>"

definition sample_env :: "unit chat_env" where
  "sample_env =
     \<lparr>ev_hash = (#) CHR ''h'', ev_sample = first_sampler, ev_rng = (\<lambda>_. ()), ev_now = (\<lambda>n. n), ev_now_ms = int,
      ev_elapsed = (\<lambda>_. 2000000), ev_up = (\<lambda>_. sample_up), ev_net = (\<lambda>_. sample_net),
      ev_token_net = (\<lambda>_ _ _. (Inl ''none'', 0)), ev_others = (\<lambda>_ _ st. st), ev_digest = id, ev_ser = (\<lambda>_. []),
      ev_show_f64 = (\<lambda>_. []), ev_parse = (\<lambda>_. Inl ''no''), ev_log_fault = None\<rparr>"

definition sample_chat_config :: chat_config where
  "sample_chat_config =
     \<lparr>cc_policy = \<lparr>rp_failover = failover_default, rp_alerts = alert_config_default, rp_cache_max_entries = 0,
        rp_response_normalization = \<lparr>rn_strip_think_tags = False\<rparr>\<rparr>,
      cc_pricing = \<lparr>pr_models = []\<rparr>, cc_registry = [], cc_strip_think_tags = False\<rparr>"

definition sample_ctx :: chat_ctx where
  "sample_ctx =
     \<lparr>cx_request_id = ''id'', cx_tenant = ''t'', cx_client_ip = None, cx_user_agent = None,
      cx_provider = \<lparr>pr_kind = OpenAi, pr_id = ''o'', pr_base_url = ''u'', pr_bad_status_codes = [401]\<rparr>,
      cx_pool = two_keys, cx_pool_id = ''p'', cx_req = plain_request [plain_message ''user'' ''q'']\<rparr>"

definition sample_state :: app_state where
  "sample_state =
     \<lparr>st_router = \<lparr>rt_model_map = [], rt_providers = []\<rparr>, st_bad = registry_new, st_cache = cache_new 0,
      st_metrics = metrics_default, st_breaker = with_defaults, st_concurrency = limiter_new 1 1, st_alerts = [],
      st_bursts = [], st_log = [], st_live = [], st_credentials = credential_runtime_new False\<rparr>"

lemma sample_env_ok: "sampler_ok (ev_sample sample_env)" "ev_hash sample_env s \<noteq> []" "ev_others sample_env n p st = st"
  by (simp_all add: sample_env_def sampler_ok_first)

definition sample_middle :: app_state where
  "sample_middle = snd (snd (chat_attempt sample_env sample_chat_config sample_ctx 1 [] sample_state))"

definition sample_end :: app_state where
  "sample_end = snd (snd (chat_attempt sample_env sample_chat_config sample_ctx 2 [''ha''] sample_middle))"

definition sample_reply :: chat_response where
  "sample_reply =
     \<lparr>resp_id = [], resp_object = ''chat.completion'', resp_created = 0, resp_model = ''up'', resp_choices = [],
      resp_usage = Some \<lparr>prompt_tokens = 5, completion_tokens = 7, total_tokens = 12\<rparr>,
      resp_raw_usage_json = Some (JObj [(''completion_tokens'', JInt 7), (''prompt_tokens'', JInt 5), (''total_tokens'', JInt 12)])\<rparr>"

lemma attempt_static:
  assumes "\<And>n p st. ev_others env n p st = st" and "\<not> is_oauth key"
    and "pick_key (ev_hash env) (ev_sample env) (ev_rng env n) (st_bad st) (cx_pool cx) (cx_pool_id cx) = Some key"
  shows "chat_attempt env cc cx n rs st = use_key env cc cx n rs key st"
  using assms by (simp add: chat_attempt_def ensure_fresh_def)

lemma use_key_allowed:
  assumes "allow (ev_now env n) (cx_pool_id cx, identity_hash (ev_hash env) key) (st_breaker st) = (True, cb)"
    and "call_provider env cc cx n rs key (st\<lparr>st_breaker := cb\<rparr>) = (out, st')"
  shows "use_key env cc cx n rs key st = (out, [key], st')"
  using assms by (simp add: use_key_def)

lemma sample_hash: "identity_hash ((#) CHR ''h'') (api_key k w) = CHR ''h'' # k"
  by (simp add: identity_hash_def api_key_def nonempty_def identity_secret_def is_oauth_def)

lemma sample_fields:
  "ev_hash sample_env = (#) CHR ''h''" "cx_pool sample_ctx = two_keys" "cx_pool_id sample_ctx = ''p''"
  "rp_failover (cc_policy sample_chat_config) = failover_default" "ev_now sample_env n = n"
  "ev_up sample_env n = sample_up" "ev_net sample_env n = sample_net" "ev_sample sample_env = first_sampler"
  "max_attempts sample_chat_config = 1"
  by (simp_all add: sample_env_def sample_ctx_def sample_chat_config_def max_attempts_def failover_default_def)

lemma sample_refused:
  "fst (call_provider sample_env sample_chat_config sample_ctx 1 [] (api_key ''a'' 1) st) =
     (if 1 < healthy_key_count ((#) CHR ''h'') (st_bad st) two_keys ''p'' then Again [''ha''] else surfaced (Some 401) ''upstream 401'')"
  "st_bad (snd (call_provider sample_env sample_chat_config sample_ctx 1 [] (api_key ''a'' 1) st)) =
     (if 1 < healthy_key_count ((#) CHR ''h'') (st_bad st) two_keys ''p'' then mark_bad ''p'' ''ha'' (st_bad st) else st_bad st)"
proof -
  have c: "chat sample_up sample_net (cx_provider sample_ctx) (cx_req sample_ctx) (api_key ''a'' 1) =
      Inl (Upstream (Some 401) True True ''upstream 401'')"
    by code_simp
  have b: "blames_key sample_chat_config (Some 401) True" by code_simp
  show "fst (call_provider sample_env sample_chat_config sample_ctx 1 [] (api_key ''a'' 1) st) =
      (if 1 < healthy_key_count ((#) CHR ''h'') (st_bad st) two_keys ''p'' then Again [''ha''] else surfaced (Some 401) ''upstream 401'')"
    "st_bad (snd (call_provider sample_env sample_chat_config sample_ctx 1 [] (api_key ''a'' 1) st)) =
      (if 1 < healthy_key_count ((#) CHR ''h'') (st_bad st) two_keys ''p'' then mark_bad ''p'' ''ha'' (st_bad st) else st_bad st)"
    by (simp_all add: call_provider_def on_upstream_error_def sample_fields sample_env_ok(3) c b try_demote_def
        router_mark_bad_def sample_hash retry_or_fail_def frame Let_def)
qed

abbreviation sample_loop :: "chat_reply result \<times> key_entry list \<times> app_state" where
  "sample_loop \<equiv> chat_loop sample_env sample_chat_config sample_ctx 1 [] sample_state"

lemma sample_pick:
  "pick_key (ev_hash sample_env) (ev_sample sample_env) (ev_rng sample_env 1) (st_bad sample_state)
     (cx_pool sample_ctx) (cx_pool_id sample_ctx) = Some (api_key ''a'' 1)"
proof -
  have "pick_key ((#) CHR ''h'') first_sampler g registry_new two_keys ''p'' = Some (api_key ''a'' 1)" for g
    by code_simp
  then show ?thesis unfolding sample_fields by (simp add: sample_state_def)
qed

lemma sample_static: "\<not> is_oauth (api_key ''a'' 1)"
  by code_simp

lemma sample_two: "healthy_key_count ((#) CHR ''h'') registry_new two_keys ''p'' = 2"
  by code_simp

lemma sample_first_attempt:
  "\<exists>st'. chat_attempt sample_env sample_chat_config sample_ctx 1 [] sample_state = (Again [''ha''], [api_key ''a'' 1], st')"
proof -
  let ?cb = "put_entry (''p'', ''ha'') circuit_entry_new with_defaults"
  note start = attempt_static [OF sample_env_ok(3) sample_static sample_pick]
  have a: "allow (ev_now sample_env 1) (cx_pool_id sample_ctx, identity_hash (ev_hash sample_env) (api_key ''a'' 1))
      (st_breaker sample_state) = (True, ?cb)"
    unfolding sample_fields sample_hash
    by (simp add: allow_def sample_state_def with_defaults_def circuit_breaker_new_def dm_get_or_def circuit_entry_new_def)
  let ?r = "call_provider sample_env sample_chat_config sample_ctx 1 [] (api_key ''a'' 1) (sample_state\<lparr>st_breaker := ?cb\<rparr>)"
  have "fst ?r = Again [''ha'']"
    unfolding sample_refused by (simp add: sample_state_def sample_two)
  then have "?r = (Again [''ha''], snd ?r)" by (metis prod.collapse)
  from use_key_allowed [OF a this] show ?thesis unfolding start by blast
qed

lemma sample_run: "\<exists>r rest st'. sample_loop = (r, api_key ''a'' 1 # rest, st')"
  using sample_first_attempt by (subst chat_loop.simps) (auto split: prod.split)

theorem failover_bounded_witness:
  "\<exists>r rest st'. sample_loop = (r, api_key ''a'' 1 # rest, st') \<and> length rest \<le> 1"
proof -
  obtain r rest st' where run: "sample_loop = (r, api_key ''a'' 1 # rest, st')" using sample_run by blast
  from failover_bounded [OF sample_env_ok(1,2) this] have "length rest \<le> 1"
    unfolding sample_fields by (simp add: failover_default_def)
  with run show ?thesis by blast
qed


end
