(* ===== verification/Config_Store.thy ===== *)
theory Config_Store
  imports Chat_Handler
begin

text \<open>
  The database-backed configuration store (\<open>config_store.rs\<close>): the managed tables with their constraints,
  the import of a YAML document in one transaction, and the snapshot that every reader of the
  configuration sees. A table is the list of its rows in the order of insertion, which is the order
  in which SQLite scans it. A statement fails when it violates a constraint or, as a parameter
  says, for a reason of its own (\<open>Fault\<close>); a transaction that fails leaves the tables as they were.
\<close>

section \<open>Tables\<close>

record pool_row =
  pl_id :: string
  pl_strategy :: string
  pl_enabled :: bool

record key_row =
  kr_pool_id :: string
  kr_key_hash :: string
  kr_key_plain :: string
  kr_weight :: int
  kr_enabled :: bool
  kr_cred_type :: string
  kr_refresh_token :: "string option"
  kr_expires_at :: "int option"
  kr_issuer :: "string option"

record provider_row =
  vr_id :: string
  vr_kind :: string
  vr_base_url :: string
  vr_pool_id :: string
  vr_enabled :: bool
  vr_metadata :: "string option"

record routing_row =
  rr_logical_model :: string
  rr_pool_id :: string
  rr_default_params :: "string option"
  rr_upstream_model :: "string option"
  rr_enabled :: bool

record model_row =
  mr_id :: string
  mr_display_name :: string
  mr_provider_kind :: string
  mr_provider_config_id :: "string option"
  mr_supports_vision :: int
  mr_supports_tool_calling :: int
  mr_supports_json_mode :: int
  mr_max_context_tokens :: int
  mr_max_output_tokens :: int
  mr_input_price :: "rat option"
  mr_output_price :: "rat option"
  mr_capabilities_json :: "string option"
  mr_enabled :: int

record database =
  db_pools :: "pool_row list"
  db_keys :: "key_row list"
  db_providers :: "provider_row list"
  db_routing :: "routing_row list"
  db_models :: "model_row list"
  db_overrides :: "pricing_override list"

section \<open>Statements\<close>

datatype sql_error = Unique_violation | Foreign_key_violation | Fault string

type_synonym statement = "(sql_error \<Rightarrow> app_error) \<times> (database \<Rightarrow> sql_error + database)"

fun execute :: "(nat \<Rightarrow> string option) \<Rightarrow> nat \<Rightarrow> statement list \<Rightarrow> database \<Rightarrow> database result" where
  "execute fault n [] db = Inr db"
| "execute fault n ((err, upd) # ss) db =
     (case fault n of
        Some m \<Rightarrow> Inl (err (Fault m))
      | None \<Rightarrow> (case upd db of Inl e \<Rightarrow> Inl (err e) | Inr db' \<Rightarrow> execute fault (Suc n) ss db'))"

definition internal :: "(sql_error \<Rightarrow> string) \<Rightarrow> string \<Rightarrow> sql_error \<Rightarrow> app_error" where
  "internal txt what e = Internal (what @ '': '' @ txt e)"

text \<open>Beginning is statement 0 and committing follows the last statement.\<close>

definition transaction ::
  "(sql_error \<Rightarrow> string) \<Rightarrow> (nat \<Rightarrow> string option) \<Rightarrow> string \<Rightarrow> string \<Rightarrow> statement list \<Rightarrow> database \<Rightarrow> database result" where
  "transaction txt fault begin_msg commit_msg ss db =
     (case fault 0 of
        Some m \<Rightarrow> Inl (internal txt begin_msg (Fault m))
      | None \<Rightarrow>
          (case execute fault 1 ss db of
             Inl e \<Rightarrow> Inl e
           | Inr db' \<Rightarrow>
               (case fault (Suc (length ss)) of
                  Some m \<Rightarrow> Inl (internal txt commit_msg (Fault m))
                | None \<Rightarrow> Inr db')))"

abbreviation has_pool :: "database \<Rightarrow> string \<Rightarrow> bool" where
  "has_pool db i \<equiv> i \<in> pl_id ` set (db_pools db)"

definition clear_routing :: "(routing_row \<Rightarrow> bool) \<Rightarrow> database \<Rightarrow> sql_error + database" where
  "clear_routing P db = Inr (db\<lparr>db_routing := filter (\<lambda>r. \<not> P r) (db_routing db)\<rparr>)"

definition clear_keys :: "(key_row \<Rightarrow> bool) \<Rightarrow> database \<Rightarrow> sql_error + database" where
  "clear_keys P db = Inr (db\<lparr>db_keys := filter (\<lambda>k. \<not> P k) (db_keys db)\<rparr>)"

text \<open>Deleting a pool deletes its keys, and is refused while a route refers to it.\<close>

definition clear_pools :: "(string \<Rightarrow> bool) \<Rightarrow> database \<Rightarrow> sql_error + database" where
  "clear_pools P db =
     (if list_ex (\<lambda>r. P (rr_pool_id r) \<and> has_pool db (rr_pool_id r)) (db_routing db) then Inl Foreign_key_violation
      else Inr (db\<lparr>db_pools := filter (\<lambda>p. \<not> P (pl_id p)) (db_pools db),
        db_keys := filter (\<lambda>k. \<not> P (kr_pool_id k)) (db_keys db)\<rparr>))"

definition clear_providers :: "(provider_row \<Rightarrow> bool) \<Rightarrow> database \<Rightarrow> sql_error + database" where
  "clear_providers P db = Inr (db\<lparr>db_providers := filter (\<lambda>p. \<not> P p) (db_providers db)\<rparr>)"

definition clear_models :: "(model_row \<Rightarrow> bool) \<Rightarrow> database \<Rightarrow> sql_error + database" where
  "clear_models P db = Inr (db\<lparr>db_models := filter (\<lambda>m. \<not> P m) (db_models db)\<rparr>)"

definition insert_pool :: "pool_row \<Rightarrow> database \<Rightarrow> sql_error + database" where
  "insert_pool p db = (if has_pool db (pl_id p) then Inl Unique_violation else Inr (db\<lparr>db_pools := db_pools db @ [p]\<rparr>))"

definition insert_key :: "key_row \<Rightarrow> database \<Rightarrow> sql_error + database" where
  "insert_key k db =
     (if has_pool db (kr_pool_id k) then Inr (db\<lparr>db_keys := db_keys db @ [k]\<rparr>) else Inl Foreign_key_violation)"

definition insert_provider :: "provider_row \<Rightarrow> database \<Rightarrow> sql_error + database" where
  "insert_provider p db =
     (if vr_id p \<in> vr_id ` set (db_providers db) then Inl Unique_violation
      else Inr (db\<lparr>db_providers := db_providers db @ [p]\<rparr>))"

definition insert_routing :: "routing_row \<Rightarrow> database \<Rightarrow> sql_error + database" where
  "insert_routing r db =
     (if has_pool db (rr_pool_id r) then Inr (db\<lparr>db_routing := db_routing db @ [r]\<rparr>) else Inl Foreign_key_violation)"

definition insert_model :: "model_row \<Rightarrow> database \<Rightarrow> sql_error + database" where
  "insert_model m db =
     (if mr_id m \<in> mr_id ` set (db_models db) then Inl Unique_violation
      else Inr (db\<lparr>db_models := db_models db @ [m]\<rparr>))"

definition update_models :: "string \<Rightarrow> model_row \<Rightarrow> database \<Rightarrow> sql_error + database" where
  "update_models i m db = Inr (db\<lparr>db_models := map (\<lambda>m'. if mr_id m' = i then m\<lparr>mr_id := i\<rparr> else m') (db_models db)\<rparr>)"

definition upsert_model :: "model_row \<Rightarrow> database \<Rightarrow> sql_error + database" where
  "upsert_model m db = (if mr_id m \<in> mr_id ` set (db_models db) then update_models (mr_id m) m db else insert_model m db)"

section \<open>Writing a document\<close>

fun cred_type_str :: "credential_type \<Rightarrow> string" where
  "cred_type_str ApiKey = ''api_key''"
| "cred_type_str Oauth = ''oauth''"

definition key_row_of :: "(string \<Rightarrow> string) \<Rightarrow> string \<Rightarrow> key_entry \<Rightarrow> key_row" where
  "key_row_of H pool_id k =
     \<lparr>kr_pool_id = pool_id, kr_key_hash = identity_hash H k, kr_key_plain = ke_key k, kr_weight = uint (ke_weight k),
      kr_enabled = True, kr_cred_type = cred_type_str (ke_cred_type k), kr_refresh_token = ke_refresh k,
      kr_expires_at = ke_expires k, kr_issuer = ke_issuer k\<rparr>"

definition insert_key_entry :: "(sql_error \<Rightarrow> string) \<Rightarrow> (string \<Rightarrow> string) \<Rightarrow> string \<Rightarrow> key_entry \<Rightarrow> statement" where
  "insert_key_entry txt H pool_id k = (internal txt ''ConfigStore import key'', insert_key (key_row_of H pool_id k))"

fun provider_kind_to_str :: "provider_kind \<Rightarrow> string" where
  "provider_kind_to_str OpenAi = ''openai''"
| "provider_kind_to_str Anthropic = ''anthropic''"
| "provider_kind_to_str Gemini = ''gemini''"

definition str_to_provider_kind :: "string \<Rightarrow> provider_kind result" where
  "str_to_provider_kind s =
     (if s = ''openai'' \<or> s = ''open_ai'' then Inr OpenAi
      else if s = ''anthropic'' then Inr Anthropic
      else if s = ''gemini'' then Inr Gemini
      else Inl (Config (''Unsupported provider kind '' @ quoted s)))"

definition import_pool :: "(sql_error \<Rightarrow> string) \<Rightarrow> (string \<Rightarrow> string) \<Rightarrow> string \<times> pool_config \<Rightarrow> statement list" where
  "import_pool txt H ip =
     (case ip of (pool_id, pool) \<Rightarrow>
        (internal txt ''ConfigStore import pool'',
         insert_pool \<lparr>pl_id = pool_id, pl_strategy = ''weighted_random'', pl_enabled = True\<rparr>) #
        map (insert_key_entry txt H pool_id) (pc_keys pool))"

definition object_or_empty :: "json \<Rightarrow> json" where
  "object_or_empty v = (if is_object v then v else JObj [])"

definition import_provider :: "(sql_error \<Rightarrow> string) \<Rightarrow> (json \<Rightarrow> string) \<Rightarrow> provider_config \<Rightarrow> statement" where
  "import_provider txt jwrite p =
     (internal txt ''ConfigStore import provider'',
      insert_provider \<lparr>vr_id = pv_id p, vr_kind = provider_kind_to_str (pv_kind p), vr_base_url = pv_base_url p,
        vr_pool_id = pv_pool_id p, vr_enabled = True, vr_metadata = Some (jwrite (object_or_empty (pv_metadata p)))\<rparr>)"

definition import_routing :: "(sql_error \<Rightarrow> string) \<Rightarrow> (json \<Rightarrow> string) \<Rightarrow> string \<times> model_routing \<Rightarrow> statement" where
  "import_routing txt jwrite mr =
     (case mr of (model, r) \<Rightarrow>
        (internal txt ''ConfigStore import routing'',
         insert_routing \<lparr>rr_logical_model = model, rr_pool_id = routing_pool_id r,
           rr_default_params = map_option jwrite (routing_default_params r), rr_upstream_model = routing_upstream_model r,
           rr_enabled = True\<rparr>))"

definition as_i32 :: "bool \<Rightarrow> int" where
  "as_i32 b = (if b then 1 else 0)"

definition model_row_of :: "(json \<Rightarrow> string) \<Rightarrow> registry_config \<Rightarrow> model_row" where
  "model_row_of jwrite e =
     \<lparr>mr_id = rc_id e, mr_display_name = rc_display_name e, mr_provider_kind = rc_provider_kind e,
      mr_provider_config_id = rc_provider_config_id e, mr_supports_vision = as_i32 (rc_supports_vision e),
      mr_supports_tool_calling = as_i32 (rc_supports_tool_calling e), mr_supports_json_mode = as_i32 (rc_supports_json_mode e),
      mr_max_context_tokens = rc_max_context_tokens e, mr_max_output_tokens = rc_max_output_tokens e,
      mr_input_price = rc_input_price e, mr_output_price = rc_output_price e,
      mr_capabilities_json =
        (if is_null (rc_capabilities_json e) then None else Some (jwrite (rc_capabilities_json e))),
      mr_enabled = as_i32 (rc_enabled e)\<rparr>"

definition import_statements ::
  "(sql_error \<Rightarrow> string) \<Rightarrow> (string \<Rightarrow> string) \<Rightarrow> (json \<Rightarrow> string) \<Rightarrow> config \<Rightarrow> statement list" where
  "import_statements txt H jwrite cfg =
     [(internal txt ''ConfigStore clear routing'', clear_routing (\<lambda>_. True)),
      (internal txt ''ConfigStore clear keys'', clear_keys (\<lambda>_. True)),
      (internal txt ''ConfigStore clear pools'', clear_pools (\<lambda>_. True)),
      (internal txt ''ConfigStore clear providers'', clear_providers (\<lambda>_. True))] @
     concat (map (import_pool txt H) (cf_pools cfg)) @
     map (import_provider txt jwrite) (cf_providers cfg) @
     map (import_routing txt jwrite) (cf_model_to_pool cfg) @
     map (\<lambda>e. (internal txt ''ConfigStore import model_registry'', upsert_model (model_row_of jwrite e))) (cf_model_registry cfg)"

section \<open>The snapshot\<close>

record config_snapshot =
  sn_providers :: "provider_config list"
  sn_pool_configs :: "(string, pool_config) dmap"
  sn_model_routing :: "(string, model_routing) dmap"
  sn_model_registry :: "registry_entry list"
  sn_model_metadata :: metadata_config
  sn_pricing :: pricing_config
  sn_bootstrap_pricing :: pricing_config
  sn_runtime :: runtime_policy
  sn_version :: u64

definition runtime_default :: runtime_policy where
  "runtime_default =
     \<lparr>rp_failover = failover_default, rp_alerts = alert_config_default, rp_cache_max_entries = 256,
      rp_response_normalization = \<lparr>rn_strip_think_tags = False\<rparr>\<rparr>"

definition snapshot_default :: config_snapshot where
  "snapshot_default =
     \<lparr>sn_providers = [], sn_pool_configs = [], sn_model_routing = [], sn_model_registry = [],
      sn_model_metadata = metadata_config_default, sn_pricing = \<lparr>pr_models = []\<rparr>, sn_bootstrap_pricing = \<lparr>pr_models = []\<rparr>,
      sn_runtime = runtime_default, sn_version = 0\<rparr>"

record config_store =
  cst_inner :: config_snapshot
  cst_db :: database

section \<open>Loading\<close>

definition load_provider :: "(string \<Rightarrow> string + json) \<Rightarrow> provider_row \<Rightarrow> provider_config result" where
  "load_provider parse r =
     (let metadata = (case vr_metadata r of
            Some s \<Rightarrow> (case parse s of Inr v \<Rightarrow> v | Inl _ \<Rightarrow> JObj [])
          | None \<Rightarrow> JObj [])
      in case str_to_provider_kind (vr_kind r) of
           Inl e \<Rightarrow> Inl e
         | Inr kind \<Rightarrow>
             Inr \<lparr>pv_id = vr_id r, pv_pool_id = vr_pool_id r, pv_base_url = vr_base_url r, pv_kind = kind,
               pv_metadata = metadata\<rparr>)"

fun load_provider_rows :: "(string \<Rightarrow> string + json) \<Rightarrow> provider_row list \<Rightarrow> provider_config list result" where
  "load_provider_rows parse [] = Inr []"
| "load_provider_rows parse (r # rs) =
     (case load_provider parse r of
        Inl e \<Rightarrow> Inl e
      | Inr p \<Rightarrow> (case load_provider_rows parse rs of Inl e \<Rightarrow> Inl e | Inr ps \<Rightarrow> Inr (p # ps)))"

definition load_providers_from_db :: "(string \<Rightarrow> string + json) \<Rightarrow> database \<Rightarrow> provider_config list result" where
  "load_providers_from_db parse db = load_provider_rows parse (filter vr_enabled (db_providers db))"

definition to_ascii_lowercase :: "string \<Rightarrow> string" where
  "to_ascii_lowercase s =
     map (\<lambda>c. let n = (of_char c :: nat) in if 65 \<le> n \<and> n \<le> 90 then char_of (n + 32) else c) s"

definition parse_cred_type :: "string option \<Rightarrow> credential_type" where
  "parse_cred_type raw =
     (case raw of Some s \<Rightarrow> if to_ascii_lowercase s = ''oauth'' then Oauth else ApiKey | None \<Rightarrow> ApiKey)"

definition load_key :: "key_row \<Rightarrow> key_entry" where
  "load_key k =
     \<lparr>ke_key = kr_key_plain k, ke_weight = word_of_int (kr_weight k), ke_cred_type = parse_cred_type (Some (kr_cred_type k)),
      ke_refresh = kr_refresh_token k, ke_expires = kr_expires_at k, ke_issuer = kr_issuer k,
      ke_identity = Some (kr_key_hash k)\<rparr>"

definition group_key :: "key_row \<Rightarrow> (string, key_entry list) dmap \<Rightarrow> (string, key_entry list) dmap" where
  "group_key k by_pool = dm_insert (kr_pool_id k) (dm_get_or by_pool (kr_pool_id k) [] @ [load_key k]) by_pool"

definition load_pools_from_db :: "database \<Rightarrow> (string, pool_config) dmap" where
  "load_pools_from_db db =
     (let by_pool = fold group_key (filter kr_enabled (db_keys db)) []
      in fst (fold (\<lambda>p (pools, by_pool).
                (dm_insert (pl_id p) \<lparr>pc_keys = dm_get_or by_pool (pl_id p) []\<rparr> pools, dm_remove (pl_id p) by_pool))
              (filter pl_enabled (db_pools db)) ([], by_pool)))"

definition load_routing :: "(string \<Rightarrow> string + json) \<Rightarrow> routing_row \<Rightarrow> model_routing" where
  "load_routing parse r =
     (let default_params = (case rr_default_params r of
            Some s \<Rightarrow> (case parse s of Inr v \<Rightarrow> v | Inl _ \<Rightarrow> JNull)
          | None \<Rightarrow> JNull);
          upstream_model = nonempty (map_option trim (rr_upstream_model r))
      in if is_object default_params \<or> upstream_model \<noteq> None
         then WithParams (rr_pool_id r) default_params upstream_model
         else Simple (rr_pool_id r))"

definition load_routing_from_db :: "(string \<Rightarrow> string + json) \<Rightarrow> database \<Rightarrow> (string, model_routing) dmap" where
  "load_routing_from_db parse db =
     fold (\<lambda>r. dm_insert (rr_logical_model r) (load_routing parse r)) (filter rr_enabled (db_routing db)) []"

definition load_model :: "model_row \<Rightarrow> registry_entry" where
  "load_model r =
     \<lparr>re_id = mr_id r, re_display_name = mr_display_name r, re_provider_kind = mr_provider_kind r,
      re_provider_config_id = mr_provider_config_id r, re_supports_vision = (mr_supports_vision r \<noteq> 0),
      re_supports_tool_calling = (mr_supports_tool_calling r \<noteq> 0), re_supports_json_mode = (mr_supports_json_mode r \<noteq> 0),
      re_max_context_tokens = mr_max_context_tokens r, re_max_output_tokens = mr_max_output_tokens r,
      re_input_price = mr_input_price r, re_output_price = mr_output_price r,
      re_capabilities_json = mr_capabilities_json r, re_enabled = (mr_enabled r \<noteq> 0)\<rparr>"

definition load_model_registry_from_db :: "database \<Rightarrow> registry_entry list" where
  "load_model_registry_from_db db = map load_model (db_models db)"

section \<open>Operations of the store\<close>

text \<open>The queries of a refresh, in order: providers, pools, keys, routes, models, price overrides.\<close>

definition refresh_errors :: "string list" where
  "refresh_errors = [''providers'', ''pools'', ''keys'', ''routing'', ''model_registry'', ''pricing_override'']"

fun read_fault :: "(sql_error \<Rightarrow> string) \<Rightarrow> (nat \<Rightarrow> string option) \<Rightarrow> nat \<Rightarrow> string list \<Rightarrow> app_error option" where
  "read_fault txt fault n [] = None"
| "read_fault txt fault n (w # ws) =
     (case fault n of
        Some m \<Rightarrow> Some (internal txt (''ConfigStore load '' @ w) (Fault m))
      | None \<Rightarrow> read_fault txt fault (Suc n) ws)"

definition refresh_from_db ::
  "(sql_error \<Rightarrow> string) \<Rightarrow> (string \<Rightarrow> string + json) \<Rightarrow> (nat \<Rightarrow> string option) \<Rightarrow> int \<Rightarrow> config_store \<Rightarrow>
     unit result \<times> config_store" where
  "refresh_from_db txt parse fault now_ms s =
     (case (if fault 0 = None then load_providers_from_db parse (cst_db s) else Inr []) of
        Inl e \<Rightarrow> (Inl e, s)
      | Inr providers \<Rightarrow>
          (case read_fault txt fault 0 refresh_errors of
             Some e \<Rightarrow> (Inl e, s)
           | None \<Rightarrow>
               let cur = cst_inner s;
                   registry = load_model_registry_from_db (cst_db s)
               in (Inr (), s\<lparr>cst_inner := cur\<lparr>
                     sn_providers := providers, sn_pool_configs := load_pools_from_db (cst_db s),
                     sn_model_routing := load_routing_from_db parse (cst_db s), sn_model_registry := registry,
                     sn_pricing := compose_pricing (sn_bootstrap_pricing cur) registry (db_overrides (cst_db s)) now_ms,
                     sn_version := sn_version cur + 1\<rparr>\<rparr>)))"

definition refresh_pricing ::
  "(sql_error \<Rightarrow> string) \<Rightarrow> (nat \<Rightarrow> string option) \<Rightarrow> int \<Rightarrow> config_store \<Rightarrow> unit result \<times> config_store" where
  "refresh_pricing txt fault now_ms s =
     (case read_fault txt fault 0 [''model_registry'', ''pricing_override''] of
        Some e \<Rightarrow> (Inl e, s)
      | None \<Rightarrow>
          let cur = cst_inner s;
              registry = load_model_registry_from_db (cst_db s)
          in (Inr (), s\<lparr>cst_inner := cur\<lparr>sn_model_registry := registry,
                sn_pricing := compose_pricing (sn_bootstrap_pricing cur) registry (db_overrides (cst_db s)) now_ms\<rparr>\<rparr>))"

definition set_bootstrap_pricing ::
  "(sql_error \<Rightarrow> string) \<Rightarrow> (nat \<Rightarrow> string option) \<Rightarrow> int \<Rightarrow> pricing_config \<Rightarrow> config_store \<Rightarrow> config_store" where
  "set_bootstrap_pricing txt fault now_ms pricing s =
     snd (refresh_pricing txt fault now_ms (s\<lparr>cst_inner := (cst_inner s)\<lparr>sn_bootstrap_pricing := pricing\<rparr>\<rparr>))"

definition set_bootstrap_model_metadata :: "metadata_config \<Rightarrow> config_store \<Rightarrow> config_store" where
  "set_bootstrap_model_metadata metadata s = s\<lparr>cst_inner := (cst_inner s)\<lparr>sn_model_metadata := metadata\<rparr>\<rparr>"

definition set_bootstrap_runtime :: "runtime_policy \<Rightarrow> config_store \<Rightarrow> config_store" where
  "set_bootstrap_runtime runtime s = s\<lparr>cst_inner := (cst_inner s)\<lparr>sn_runtime := runtime\<rparr>\<rparr>"

definition store_load ::
  "(sql_error \<Rightarrow> string) \<Rightarrow> (string \<Rightarrow> string + json) \<Rightarrow> (nat \<Rightarrow> string option) \<Rightarrow> int \<Rightarrow> database \<Rightarrow> config_store result" where
  "store_load txt parse fault now_ms db =
     (case refresh_from_db txt parse fault now_ms \<lparr>cst_inner = snapshot_default, cst_db = db\<rparr> of
        (Inl e, _) \<Rightarrow> Inl e
      | (Inr _, s) \<Rightarrow> Inr s)"

definition validate_yaml :: "(string \<Rightarrow> string + json) \<Rightarrow> (json \<Rightarrow> string) \<Rightarrow> string \<Rightarrow> config result" where
  "validate_yaml parse_yaml type_error yaml =
     (case parse_yaml yaml of
        Inl e \<Rightarrow> Inl (Config (''Failed to parse import document: '' @ e))
      | Inr v \<Rightarrow>
          (case dec_config v of
             None \<Rightarrow> Inl (Config (''Failed to parse import document: '' @ type_error v))
           | Some cfg \<Rightarrow> (case validate cfg of Inl e \<Rightarrow> Inl e | Inr _ \<Rightarrow> Inr cfg)))"

text \<open>What the store needs of the libraries, gathered.\<close>

record store_env =
  sx_txt :: "sql_error \<Rightarrow> string"
  sx_hash :: "string \<Rightarrow> string"
  sx_parse :: "string \<Rightarrow> string + json"
  sx_write :: "json \<Rightarrow> string"
  sx_parse_yaml :: "string \<Rightarrow> string + json"
  sx_type_error :: "json \<Rightarrow> string"
  sx_fault :: "nat \<Rightarrow> string option"
  sx_read_fault :: "nat \<Rightarrow> string option"
  sx_now_ms :: int

abbreviation refresh :: "store_env \<Rightarrow> config_store \<Rightarrow> unit result \<times> config_store" where
  "refresh env \<equiv> refresh_from_db (sx_txt env) (sx_parse env) (sx_read_fault env) (sx_now_ms env)"

definition import_yaml :: "store_env \<Rightarrow> string \<Rightarrow> config_store \<Rightarrow> unit result \<times> config_store" where
  "import_yaml env yaml s =
     (case validate_yaml (sx_parse_yaml env) (sx_type_error env) yaml of
        Inl e \<Rightarrow> (Inl e, s)
      | Inr cfg \<Rightarrow>
          (case transaction (sx_txt env) (sx_fault env) ''ConfigStore begin import transaction'' ''ConfigStore commit import''
                  (import_statements (sx_txt env) (sx_hash env) (sx_write env) cfg) (cst_db s) of
             Inl e \<Rightarrow> (Inl e, s)
           | Inr db \<Rightarrow> refresh env (s\<lparr>cst_db := db\<rparr>)))"

text \<open>A tick of the poller: a failed refresh keeps the previous snapshot.\<close>

definition poll_tick :: "store_env \<Rightarrow> config_store \<Rightarrow> config_store" where
  "poll_tick env s = snd (refresh env s)"

text \<open>The row update by which a rotated OAuth token is persisted.\<close>

definition persist_row :: "string \<Rightarrow> live_token \<Rightarrow> database \<Rightarrow> database" where
  "persist_row identity live db =
     db\<lparr>db_keys := map (\<lambda>k. if kr_key_hash k = identity
        then k\<lparr>kr_key_plain := lt_access live, kr_refresh_token := Some (lt_refresh live), kr_expires_at := Some (lt_expires live)\<rparr>
        else k) (db_keys db)\<rparr>"

section \<open>Invariants of the tables\<close>

text \<open>The key constraints and references of the schema.\<close>

definition db_wf :: "database \<Rightarrow> bool" where
  "db_wf db =
     (distinct (map pl_id (db_pools db)) \<and> distinct (map vr_id (db_providers db)) \<and> distinct (map mr_id (db_models db)) \<and>
      list_all (\<lambda>k. has_pool db (kr_pool_id k)) (db_keys db) \<and>
      list_all (\<lambda>r. has_pool db (rr_pool_id r)) (db_routing db))"

definition pools_enabled :: "database \<Rightarrow> bool" where
  "pools_enabled db = list_all pl_enabled (db_pools db)"

text \<open>A property of the tables that every primitive statement keeps is kept by every transaction.\<close>

locale statement_invariant =
  fixes I :: "database \<Rightarrow> bool"
  assumes clear_routing: "I db \<Longrightarrow> clear_routing P db = Inr db' \<Longrightarrow> I db'"
    and clear_keys: "I db \<Longrightarrow> clear_keys Q db = Inr db' \<Longrightarrow> I db'"
    and clear_pools: "I db \<Longrightarrow> clear_pools S db = Inr db' \<Longrightarrow> I db'"
    and clear_providers: "I db \<Longrightarrow> clear_providers R db = Inr db' \<Longrightarrow> I db'"
    and clear_models: "I db \<Longrightarrow> clear_models M db = Inr db' \<Longrightarrow> I db'"
    and insert_pool: "I db \<Longrightarrow> pl_enabled p \<Longrightarrow> insert_pool p db = Inr db' \<Longrightarrow> I db'"
    and insert_key: "I db \<Longrightarrow> insert_key k db = Inr db' \<Longrightarrow> I db'"
    and insert_provider: "I db \<Longrightarrow> insert_provider v db = Inr db' \<Longrightarrow> I db'"
    and insert_routing: "I db \<Longrightarrow> insert_routing r db = Inr db' \<Longrightarrow> I db'"
    and insert_model: "I db \<Longrightarrow> insert_model m db = Inr db' \<Longrightarrow> I db'"
    and update_models: "I db \<Longrightarrow> update_models i m db = Inr db' \<Longrightarrow> I db'"
begin

definition kept :: "statement \<Rightarrow> bool" where
  "kept s = (\<forall>db db'. I db \<longrightarrow> snd s db = Inr db' \<longrightarrow> I db')"

lemma execute_inv: "execute fault n ss db = Inr db' \<Longrightarrow> list_all kept ss \<Longrightarrow> I db \<Longrightarrow> I db'"
  by (induction fault n ss db rule: execute.induct) (auto simp: kept_def split: option.splits sum.splits)

lemma transaction_inv: "transaction txt fault b c ss db = Inr db' \<Longrightarrow> list_all kept ss \<Longrightarrow> I db \<Longrightarrow> I db'"
  using execute_inv by (auto simp: transaction_def split: option.splits sum.splits)

lemma upsert_inv:
  assumes "I db" and "upsert_model m db = Inr db'"
  shows "I db'"
proof (cases "mr_id m \<in> mr_id ` set (db_models db)")
  case True
  with assms(2) have "update_models (mr_id m) m db = Inr db'" by (simp add: upsert_model_def)
  with assms(1) show ?thesis by (rule update_models)
next
  case False
  with assms(2) have "insert_model m db = Inr db'" by (simp add: upsert_model_def)
  with assms(1) show ?thesis by (rule insert_model)
qed

lemma keptI: "(\<And>db db'. I db \<Longrightarrow> upd db = Inr db' \<Longrightarrow> I db') \<Longrightarrow> kept (err, upd)"
  by (simp add: kept_def)

lemma import_pool_kept: "list_all kept (import_pool txt H ip)"
proof -
  have "kept (err, insert_pool \<lparr>pl_id = i, pl_strategy = s, pl_enabled = True\<rparr>)" for err i s
    by (rule keptI, erule insert_pool) simp_all
  moreover have "kept (insert_key_entry txt H i k)" for i k
    unfolding insert_key_entry_def by (rule keptI, erule insert_key)
  ultimately show ?thesis by (cases ip) (simp add: import_pool_def list.pred_map comp_def list.pred_True)
qed

lemma import_row_kept:
  "kept (import_provider txt jwrite p)" "kept (import_routing txt jwrite mr)" "kept (err, upsert_model m)"
  unfolding import_provider_def import_routing_def
  by (auto intro!: keptI elim: insert_provider insert_routing upsert_inv split: prod.split)

lemma import_clear_kept:
  "kept (err, Config_Store.clear_routing P)" "kept (err, Config_Store.clear_keys Q)" "kept (err, Config_Store.clear_pools S)"
  "kept (err, Config_Store.clear_providers R)"
  by (auto intro!: keptI elim: clear_routing clear_keys clear_pools clear_providers)

lemma import_kept: "list_all kept (import_statements txt H jwrite cfg)"
  using import_pool_kept import_row_kept import_clear_kept
  unfolding import_statements_def list_all_iff by fastforce

lemma import_yaml_inv: "import_yaml env yaml s = (r, s') \<Longrightarrow> I (cst_db s) \<Longrightarrow> I (cst_db s')"
  using transaction_inv [OF _ import_kept]
  by (auto simp: import_yaml_def refresh_from_db_def Let_def split: sum.splits option.splits)

end

lemmas statement_defs = clear_routing_def clear_keys_def clear_pools_def clear_providers_def clear_models_def
  insert_pool_def insert_key_def insert_provider_def insert_routing_def insert_model_def update_models_def

lemma clear_pools_wf:
  assumes "db_wf db" and "clear_pools P db = Inr db'"
  shows "db_wf db'"
proof -
  have "\<not> P (rr_pool_id r)" if "r \<in> set (db_routing db)" for r
    using assms that by (auto simp: clear_pools_def db_wf_def list_all_iff list_ex_iff split: if_splits)
  then show ?thesis
    using assms by (fastforce simp: clear_pools_def db_wf_def list_all_iff distinct_map_filter split: if_splits)
qed

lemma distinct_filter_keys: "distinct (map f xs) \<Longrightarrow> distinct (map f (filter P xs))"
  by (rule distinct_map_filter)

lemma clear_wf:
  "db_wf db \<Longrightarrow> clear_routing P db = Inr db' \<Longrightarrow> db_wf db'"
  "db_wf db \<Longrightarrow> clear_keys Q db = Inr db' \<Longrightarrow> db_wf db'"
  "db_wf db \<Longrightarrow> clear_providers R db = Inr db' \<Longrightarrow> db_wf db'"
  "db_wf db \<Longrightarrow> clear_models M db = Inr db' \<Longrightarrow> db_wf db'"
  by (auto simp: clear_routing_def clear_keys_def clear_providers_def clear_models_def db_wf_def list_all_iff
      distinct_filter_keys)

lemma insert_wf:
  "db_wf db \<Longrightarrow> insert_pool p db = Inr db' \<Longrightarrow> db_wf db'"
  "db_wf db \<Longrightarrow> insert_key k db = Inr db' \<Longrightarrow> db_wf db'"
  "db_wf db \<Longrightarrow> insert_provider v db = Inr db' \<Longrightarrow> db_wf db'"
  "db_wf db \<Longrightarrow> insert_routing r db = Inr db' \<Longrightarrow> db_wf db'"
  "db_wf db \<Longrightarrow> insert_model m db = Inr db' \<Longrightarrow> db_wf db'"
  by (auto simp: insert_pool_def insert_key_def insert_provider_def insert_routing_def insert_model_def db_wf_def
      list_all_iff split: if_splits)

lemma update_models_wf:
  assumes "db_wf db" and "update_models i m db = Inr db'"
  shows "db_wf db'"
proof -
  have "map (mr_id \<circ> (\<lambda>m'. if mr_id m' = i then m\<lparr>mr_id := i\<rparr> else m')) ms = map mr_id ms" for ms
    by (induction ms) auto
  then have "map mr_id (db_models db') = map mr_id (db_models db)"
    using assms(2) by (auto simp: update_models_def simp del: map_eq_conv)
  with assms show ?thesis by (auto simp: update_models_def db_wf_def list_all_iff)
qed

interpretation refs: statement_invariant db_wf
  by (unfold_locales; erule (1) clear_pools_wf clear_wf insert_wf update_models_wf)

interpretation enabled: statement_invariant pools_enabled
  by unfold_locales (auto simp: statement_defs pools_enabled_def list_all_iff split: if_splits)

section \<open>What loading yields\<close>

lemma group_keys:
  "dm_get_or (fold group_key ks by_pool) i [] = dm_get_or by_pool i [] @ map load_key (filter (\<lambda>k. kr_pool_id k = i) ks)"
  by (induction ks arbitrary: by_pool) (auto simp: group_key_def)

lemma dm_get_or_remove: "dm_get_or (dm_remove k m) i d = (if i = k then d else dm_get_or m i d)"
  by (simp add: dm_get_or_def)

lemma collect_pools:
  assumes "distinct (map pl_id ps)"
  shows "dm_get (fst (fold (\<lambda>p (pools, by_pool).
        (dm_insert (pl_id p) \<lparr>pc_keys = dm_get_or by_pool (pl_id p) []\<rparr> pools, dm_remove (pl_id p) by_pool)) ps (pools, by_pool))) i =
    (if i \<in> pl_id ` set ps then Some \<lparr>pc_keys = dm_get_or by_pool i []\<rparr> else dm_get pools i)"
  using assms
proof (induction ps arbitrary: pools by_pool)
  case (Cons p ps)
  then have "pl_id p \<notin> pl_id ` set ps" by auto
  with Cons show ?case by (auto simp: dm_get_or_remove)
qed simp

lemma pools_loaded:
  assumes "db_wf db"
  shows "dm_get (load_pools_from_db db) i =
    (if i \<in> pl_id ` set (filter pl_enabled (db_pools db))
     then Some \<lparr>pc_keys = map load_key (filter (\<lambda>k. kr_enabled k \<and> kr_pool_id k = i) (db_keys db))\<rparr> else None)"
proof -
  have "distinct (map pl_id (filter pl_enabled (db_pools db)))"
    using assms by (simp add: db_wf_def distinct_map_filter)
  from collect_pools [OF this] show ?thesis
    by (simp add: load_pools_from_db_def Let_def group_keys conj_commute) (simp add: dm_get_or_def)
qed

lemma find_snoc: "find P (xs @ [x]) = (case find P xs of Some y \<Rightarrow> Some y | None \<Rightarrow> if P x then Some x else None)"
  by (induction xs) auto

lemma find_in_set: "find P xs = Some x \<Longrightarrow> x \<in> set xs \<and> P x"
  by (induction xs) (auto split: if_splits)

lemma fold_insert_last:
  "dm_get (fold (\<lambda>r. dm_insert (f r) (g r)) rs m) k =
     (case find (\<lambda>r. f r = k) (rev rs) of Some r \<Rightarrow> Some (g r) | None \<Rightarrow> dm_get m k)"
  by (induction rs arbitrary: m) (auto simp: find_snoc split: option.split)

lemma fold_insert_wf: "dm_wf m \<Longrightarrow> dm_wf (fold (\<lambda>r. dm_insert (f r) (g r)) rs m)"
  by (induction rs arbitrary: m) auto

lemma routing_loaded:
  "dm_get (load_routing_from_db parse db) model =
     map_option (load_routing parse) (find (\<lambda>r. rr_logical_model r = model) (rev (filter rr_enabled (db_routing db))))"
  unfolding load_routing_from_db_def fold_insert_last by (simp split: option.split)

lemma routing_loaded_wf: "dm_wf (load_routing_from_db parse db)"
  unfolding load_routing_from_db_def by (simp add: fold_insert_wf)

lemma load_routing_pool: "routing_pool_id (load_routing parse r) = rr_pool_id r"
  by (simp add: load_routing_def Let_def)

text \<open>Every loaded route names a loaded pool.\<close>

lemma loaded_routes_ok:
  assumes "db_wf db" and "pools_enabled db" and "dm_get (load_routing_from_db parse db) model = Some r"
  shows "dm_get (load_pools_from_db db) (routing_pool_id r) \<noteq> None"
proof -
  obtain row where row: "row \<in> set (db_routing db)" "r = load_routing parse row"
    using assms(3) unfolding routing_loaded by (fastforce dest: find_in_set)
  then have "has_pool db (rr_pool_id row)" using assms(1) by (simp add: db_wf_def list_all_iff)
  then show ?thesis
    using assms(1,2) row(2) by (auto simp: pools_loaded load_routing_pool pools_enabled_def list_all_iff)
qed

section \<open>What an import writes\<close>

definition imported :: "(string \<Rightarrow> string) \<Rightarrow> (json \<Rightarrow> string) \<Rightarrow> config \<Rightarrow> database \<Rightarrow> database" where
  "imported H jwrite cfg db =
     db\<lparr>db_pools := map (\<lambda>(i, _). \<lparr>pl_id = i, pl_strategy = ''weighted_random'', pl_enabled = True\<rparr>) (cf_pools cfg),
        db_keys := concat (map (\<lambda>(i, p). map (key_row_of H i) (pc_keys p)) (cf_pools cfg)),
        db_providers := map (\<lambda>p. \<lparr>vr_id = pv_id p, vr_kind = provider_kind_to_str (pv_kind p), vr_base_url = pv_base_url p,
          vr_pool_id = pv_pool_id p, vr_enabled = True,
          vr_metadata = Some (jwrite (object_or_empty (pv_metadata p)))\<rparr>) (cf_providers cfg),
        db_routing := map (\<lambda>(m, r). \<lparr>rr_logical_model = m, rr_pool_id = routing_pool_id r,
          rr_default_params = map_option jwrite (routing_default_params r),
          rr_upstream_model = routing_upstream_model r, rr_enabled = True\<rparr>) (cf_model_to_pool cfg),
        db_models := fold (\<lambda>e ms. if rc_id e \<in> mr_id ` set ms
          then map (\<lambda>m. if mr_id m = rc_id e then model_row_of jwrite e else m) ms
          else ms @ [model_row_of jwrite e]) (cf_model_registry cfg) (db_models db)\<rparr>"

lemma execute_append:
  "execute fault n (xs @ ys) db =
     (case execute fault n xs db of Inl e \<Rightarrow> Inl e | Inr db' \<Rightarrow> execute fault (n + length xs) ys db')"
  by (induction fault n xs db rule: execute.induct) (auto split: option.splits sum.splits)

text \<open>A run that no fault disturbs.\<close>

locale calm_run =
  fixes fault :: "nat \<Rightarrow> string option"
  assumes calm: "fault n = None"
begin

lemma execute_keys:
  "has_pool db i \<Longrightarrow> execute fault n (map (insert_key_entry txt H i) ks) db =
     Inr (db\<lparr>db_keys := db_keys db @ map (key_row_of H i) ks\<rparr>)"
  by (induction ks arbitrary: n db) (simp_all add: calm insert_key_entry_def insert_key_def key_row_of_def)

lemma execute_pools:
  assumes "distinct (map fst ps)" and "\<And>i. i \<in> fst ` set ps \<Longrightarrow> \<not> has_pool db i"
  shows "execute fault n (concat (map (import_pool txt H) ps)) db =
    Inr (db\<lparr>db_pools := db_pools db @ map (\<lambda>(i, _). \<lparr>pl_id = i, pl_strategy = ''weighted_random'', pl_enabled = True\<rparr>) ps,
      db_keys := db_keys db @ concat (map (\<lambda>(i, p). map (key_row_of H i) (pc_keys p)) ps)\<rparr>)"
  using assms
proof (induction ps arbitrary: n db)
  case (Cons ip ps)
  obtain i p where ip: "ip = (i, p)" by (cases ip)
  have new: "\<not> has_pool db i" using Cons.prems(2) [of i] ip by simp
  let ?row = "\<lparr>pl_id = i, pl_strategy = ''weighted_random'', pl_enabled = True\<rparr>"
  let ?db = "db\<lparr>db_pools := db_pools db @ [?row], db_keys := db_keys db @ map (key_row_of H i) (pc_keys p)\<rparr>"
  have head: "execute fault n (import_pool txt H ip) db = Inr ?db"
    using new by (simp add: ip import_pool_def calm insert_pool_def execute_keys)
  have "\<not> has_pool ?db j" if "j \<in> fst ` set ps" for j
    using Cons.prems(1) Cons.prems(2) [of j] that ip by auto
  from Cons.IH [of ?db, OF _ this] Cons.prems(1) show ?case
    by (simp add: execute_append head) (simp add: ip)
qed simp

lemma execute_providers:
  assumes "distinct (map pv_id ps)" and "\<And>i. i \<in> pv_id ` set ps \<Longrightarrow> i \<notin> vr_id ` set (db_providers db)"
  shows "execute fault n (map (import_provider txt jwrite) ps) db =
    Inr (db\<lparr>db_providers := db_providers db @ map (\<lambda>p. \<lparr>vr_id = pv_id p, vr_kind = provider_kind_to_str (pv_kind p),
      vr_base_url = pv_base_url p, vr_pool_id = pv_pool_id p, vr_enabled = True,
      vr_metadata = Some (jwrite (object_or_empty (pv_metadata p)))\<rparr>) ps\<rparr>)"
  using assms
proof (induction ps arbitrary: n db)
  case (Cons p ps)
  let ?db = "db\<lparr>db_providers := db_providers db @ [\<lparr>vr_id = pv_id p, vr_kind = provider_kind_to_str (pv_kind p),
      vr_base_url = pv_base_url p, vr_pool_id = pv_pool_id p, vr_enabled = True,
      vr_metadata = Some (jwrite (object_or_empty (pv_metadata p)))\<rparr>]\<rparr>"
  have "pv_id p \<notin> vr_id ` set (db_providers db)" using Cons.prems(2) by simp
  moreover have "i \<notin> vr_id ` set (db_providers ?db)" if "i \<in> pv_id ` set ps" for i
    using Cons.prems(1) Cons.prems(2) [of i] that by (auto simp: image_iff)
  ultimately show ?case
    using Cons.IH [of ?db] Cons.prems(1) by (simp add: calm import_provider_def insert_provider_def)
qed simp

lemma execute_routing:
  assumes "\<And>m r. (m, r) \<in> set rs \<Longrightarrow> has_pool db (routing_pool_id r)"
  shows "execute fault n (map (import_routing txt jwrite) rs) db =
    Inr (db\<lparr>db_routing := db_routing db @ map (\<lambda>(m, r). \<lparr>rr_logical_model = m, rr_pool_id = routing_pool_id r,
      rr_default_params = map_option jwrite (routing_default_params r), rr_upstream_model = routing_upstream_model r,
      rr_enabled = True\<rparr>) rs\<rparr>)"
  using assms
proof (induction rs arbitrary: n db)
  case (Cons mr rs)
  obtain m r where mr: "mr = (m, r)" by (cases mr)
  have "has_pool db (routing_pool_id r)" using Cons.prems [of m r] mr by simp
  then have head: "snd (import_routing txt jwrite mr) db = Inr (db\<lparr>db_routing := db_routing db @
      [\<lparr>rr_logical_model = m, rr_pool_id = routing_pool_id r, rr_default_params = map_option jwrite (routing_default_params r),
        rr_upstream_model = routing_upstream_model r, rr_enabled = True\<rparr>]\<rparr>)" (is "_ = Inr ?db")
    by (simp add: mr import_routing_def insert_routing_def)
  have "has_pool ?db (routing_pool_id r')" if "(m', r') \<in> set rs" for m' r'
    using Cons.prems [of m' r'] that by simp
  from Cons.IH [of ?db, OF this] head show ?case
    by (cases "import_routing txt jwrite mr") (simp add: calm mr)
qed simp

lemma execute_models:
  "execute fault n (map (\<lambda>e. (internal txt w, upsert_model (model_row_of jwrite e))) es) db =
     Inr (db\<lparr>db_models := fold (\<lambda>e ms. if rc_id e \<in> mr_id ` set ms
       then map (\<lambda>m. if mr_id m = rc_id e then model_row_of jwrite e else m) ms
       else ms @ [model_row_of jwrite e]) es (db_models db)\<rparr>)"
proof (induction es arbitrary: n db)
  case (Cons e es)
  have "upsert_model (model_row_of jwrite e) db = Inr (db\<lparr>db_models := (if rc_id e \<in> mr_id ` set (db_models db)
      then map (\<lambda>m. if mr_id m = rc_id e then model_row_of jwrite e else m) (db_models db)
      else db_models db @ [model_row_of jwrite e])\<rparr>)"
    by (simp add: upsert_model_def update_models_def insert_model_def model_row_of_def)
  with Cons.IH show ?case by (simp add: calm)
qed simp

lemma execute_clear:
  "execute fault n [(e1, clear_routing (\<lambda>_. True)), (e2, clear_keys (\<lambda>_. True)), (e3, clear_pools (\<lambda>_. True)),
     (e4, clear_providers (\<lambda>_. True))] db =
   Inr (db\<lparr>db_routing := [], db_keys := [], db_pools := [], db_providers := []\<rparr>)"
  by (simp add: calm clear_routing_def clear_keys_def clear_pools_def clear_providers_def)

end


interpretation no_fault: calm_run "\<lambda>_. None"
  by unfold_locales simp


lemma import_executes:
  assumes "config_ok cfg" and "dm_wf (cf_pools cfg)" and "distinct (map pv_id (cf_providers cfg))"
  shows "execute (\<lambda>_. None) n (import_statements txt H jwrite cfg) db = Inr (imported H jwrite cfg db)"
proof -
  have routes: "routing_pool_id r \<in> fst ` set (cf_pools cfg)" if "(m, r) \<in> set (cf_model_to_pool cfg)" for m r
    using assms(1) that by (auto simp: config_ok_def)
  let ?db = "db\<lparr>db_routing := [], db_keys := [], db_pools := [], db_providers := []\<rparr>"
  note pools = no_fault.execute_pools [where db = ?db and ps = "cf_pools cfg"]
  note providers = no_fault.execute_providers [where ps = "cf_providers cfg"]
  show ?thesis
    unfolding import_statements_def execute_append no_fault.execute_clear
    using assms(2,3) routes
    by (simp add: pools providers no_fault.execute_routing no_fault.execute_models dm_wf_def imported_def image_image
        case_prod_beta)
qed

section \<open>Reading back what was written\<close>

lemma parse_cred_type_str [simp]: "parse_cred_type (Some (cred_type_str t)) = t"
proof -
  have "to_ascii_lowercase ''api_key'' \<noteq> ''oauth''" "to_ascii_lowercase ''oauth'' = ''oauth''" by code_simp+
  then show ?thesis by (cases t) (simp_all add: parse_cred_type_def)
qed

lemma str_to_provider_kind_str [simp]: "str_to_provider_kind (provider_kind_to_str k) = Inr k"
  by (cases k) (simp_all add: str_to_provider_kind_def)

lemma load_key_row: "load_key (key_row_of H i k) = k\<lparr>ke_identity := Some (identity_hash H k)\<rparr>"
  by (cases k) (simp add: load_key_def key_row_of_def)

lemma keys_of_pool:
  assumes "dm_wf pools"
  shows "filter (\<lambda>k. kr_enabled k \<and> kr_pool_id k = i) (concat (map (\<lambda>(i, p). map (key_row_of H i) (pc_keys p)) pools)) =
    (case dm_get pools i of Some p \<Rightarrow> map (key_row_of H i) (pc_keys p) | None \<Rightarrow> [])"
proof -
  have own: "filter (\<lambda>k. kr_enabled k \<and> kr_pool_id k = i) (map (key_row_of H j) ks) = (if j = i then map (key_row_of H i) ks else [])"
    for j ks by (auto simp: filter_map comp_def key_row_of_def)
  show ?thesis
    using assms unfolding dm_wf_def
  proof (induction pools)
    case (Cons jp pools)
    then have "dm_get pools (fst jp) = None" by (simp add: map_of_eq_None_iff)
    with Cons show ?case by (cases jp) (auto simp: own)
  qed simp
qed

lemma imported_wf:
  assumes "config_ok cfg" and "dm_wf (cf_pools cfg)" and "distinct (map pv_id (cf_providers cfg))" and "db_wf db"
  shows "db_wf (imported H jwrite cfg db)"
  using refs.execute_inv [OF import_executes refs.import_kept] assms by blast

lemma imported_pools:
  assumes "dm_wf (cf_pools cfg)" and "db_wf (imported H jwrite cfg db)"
  shows "dm_get (load_pools_from_db (imported H jwrite cfg db)) i =
    map_option (\<lambda>p. \<lparr>pc_keys = map (\<lambda>k. k\<lparr>ke_identity := Some (identity_hash H k)\<rparr>) (pc_keys p)\<rparr>) (dm_get (cf_pools cfg) i)"
proof -
  let ?rows = "map (\<lambda>(i, _). \<lparr>pl_id = i, pl_strategy = ''weighted_random'', pl_enabled = True\<rparr>) (cf_pools cfg)"
  have "pl_id ` set (filter pl_enabled ?rows) = fst ` set (cf_pools cfg)" by force
  then have "i \<in> pl_id ` set (filter pl_enabled ?rows) \<longleftrightarrow> dm_get (cf_pools cfg) i \<noteq> None"
    by (simp add: map_of_eq_None_iff)
  then show ?thesis
    unfolding pools_loaded [OF assms(2)] using keys_of_pool [OF assms(1), of i H]
    by (auto simp: imported_def load_key_row split: option.split)
qed

text \<open>The JSON text of the values that an import writes is read back as the same value.\<close>

definition json_kept :: "(string \<Rightarrow> string + json) \<Rightarrow> (json \<Rightarrow> string) \<Rightarrow> config \<Rightarrow> bool" where
  "json_kept parse jwrite cfg =
     (list_all (\<lambda>p. parse (jwrite (object_or_empty (pv_metadata p))) = Inr (object_or_empty (pv_metadata p))) (cf_providers cfg) \<and>
      list_all (\<lambda>(_, r). case routing_default_params r of Some v \<Rightarrow> parse (jwrite v) = Inr v | None \<Rightarrow> True)
        (cf_model_to_pool cfg))"

definition route_facts :: "model_routing \<Rightarrow> string \<times> json option \<times> string option" where
  "route_facts r = (routing_pool_id r, routing_default_params r, routing_upstream_model r)"

lemma load_written_route:
  assumes "\<And>v. routing_default_params r = Some v \<Longrightarrow> parse (jwrite v) = Inr v"
  shows "route_facts (load_routing parse \<lparr>rr_logical_model = m, rr_pool_id = routing_pool_id r,
    rr_default_params = map_option jwrite (routing_default_params r), rr_upstream_model = routing_upstream_model r,
    rr_enabled = True\<rparr>) = route_facts r"
proof -
  have "is_object v" if "routing_default_params r = Some v" for v
    using that by (cases r) (auto split: if_splits)
  moreover have "nonempty (map_option trim (routing_upstream_model r)) = routing_upstream_model r"
    by (cases r) (auto simp: nonempty_def split: option.splits if_splits)
  ultimately show ?thesis
    by (cases "routing_default_params r"; cases "routing_upstream_model r")
      (auto simp: load_routing_def route_facts_def assms nonempty_def split: if_splits)
qed

lemma imported_routing:
  assumes "dm_wf (cf_model_to_pool cfg)" and "json_kept parse jwrite cfg"
  shows "map_option route_facts (dm_get (load_routing_from_db parse (imported H jwrite cfg db)) m) =
    map_option route_facts (dm_get (cf_model_to_pool cfg) m)"
proof -
  let ?row = "\<lambda>(m, r). \<lparr>rr_logical_model = m, rr_pool_id = routing_pool_id r,
    rr_default_params = map_option jwrite (routing_default_params r), rr_upstream_model = routing_upstream_model r, rr_enabled = True\<rparr>"
  have find_row: "find (\<lambda>r. rr_logical_model r = m) (map ?row rs) = map_option (\<lambda>r. ?row (m, r)) (dm_get rs m)" for rs
    by (induction rs) auto
  have "dm_get (rev (cf_model_to_pool cfg)) m = dm_get (cf_model_to_pool cfg) m"
    using map_of_inject_set [of "rev (cf_model_to_pool cfg)" "cf_model_to_pool cfg"] assms(1)
    by (simp add: dm_wf_def rev_map [symmetric])
  moreover have "filter rr_enabled (map ?row rs) = map ?row rs" for rs by (induction rs) auto
  ultimately have load: "dm_get (load_routing_from_db parse (imported H jwrite cfg db)) m =
      map_option (\<lambda>r. load_routing parse (?row (m, r))) (dm_get (cf_model_to_pool cfg) m)"
    unfolding routing_loaded by (simp add: imported_def rev_map find_row option.map_comp comp_def)
  show ?thesis
  proof (cases "dm_get (cf_model_to_pool cfg) m")
    case (Some r)
    then have "(m, r) \<in> set (cf_model_to_pool cfg)" by (rule map_of_SomeD)
    with assms(2) have "parse (jwrite v) = Inr v" if "routing_default_params r = Some v" for v
      using that by (fastforce simp: json_kept_def list_all_iff)
    from load_written_route [OF this] show ?thesis by (simp add: load Some)
  qed (simp add: load)
qed

lemma imported_providers:
  assumes "json_kept parse jwrite cfg"
  shows "load_providers_from_db parse (imported H jwrite cfg db) =
    Inr (map (\<lambda>p. p\<lparr>pv_metadata := object_or_empty (pv_metadata p)\<rparr>) (cf_providers cfg))"
proof -
  let ?row = "\<lambda>p. \<lparr>vr_id = pv_id p, vr_kind = provider_kind_to_str (pv_kind p), vr_base_url = pv_base_url p,
    vr_pool_id = pv_pool_id p, vr_enabled = True, vr_metadata = Some (jwrite (object_or_empty (pv_metadata p)))\<rparr>"
  have "load_provider parse (?row p) = Inr (p\<lparr>pv_metadata := object_or_empty (pv_metadata p)\<rparr>)"
    if "parse (jwrite (object_or_empty (pv_metadata p))) = Inr (object_or_empty (pv_metadata p))" for p
    using that by (cases p) (simp add: load_provider_def)
  then have "load_provider_rows parse (map ?row ps) = Inr (map (\<lambda>p. p\<lparr>pv_metadata := object_or_empty (pv_metadata p)\<rparr>) ps)"
    if "list_all (\<lambda>p. parse (jwrite (object_or_empty (pv_metadata p))) = Inr (object_or_empty (pv_metadata p))) ps" for ps
    using that by (induction ps) simp_all
  moreover have "filter vr_enabled (map ?row ps) = map ?row ps" for ps by (induction ps) simp_all
  ultimately show ?thesis using assms by (simp add: load_providers_from_db_def imported_def json_kept_def)
qed


lemma validate_yaml_ok:
  assumes "validate_yaml parse_yaml type_error yaml = Inr cfg"
  shows "config_ok cfg"
proof -
  from assms have "load parse_yaml type_error (Inr yaml) = Inr cfg"
    by (auto simp: validate_yaml_def load_def split: sum.splits option.splits)
  then show ?thesis by (rule load_config_ok)
qed

lemma no_read_fault: "read_fault txt (\<lambda>_. None) n ws = None"
  by (induction ws arbitrary: n) simp_all

lemma import_yaml_calm:
  assumes "validate_yaml (sx_parse_yaml env) (sx_type_error env) yaml = Inr cfg"
    and "dm_wf (cf_pools cfg)" and "distinct (map pv_id (cf_providers cfg))" and "json_kept (sx_parse env) (sx_write env) cfg"
    and "sx_fault env = (\<lambda>_. None)" and "sx_read_fault env = (\<lambda>_. None)"
  shows "import_yaml env yaml s =
    (let db = imported (sx_hash env) (sx_write env) cfg (cst_db s);
         cur = cst_inner s;
         registry = load_model_registry_from_db db
     in (Inr (), \<lparr>cst_inner = cur\<lparr>
           sn_providers := map (\<lambda>p. p\<lparr>pv_metadata := object_or_empty (pv_metadata p)\<rparr>) (cf_providers cfg),
           sn_pool_configs := load_pools_from_db db, sn_model_routing := load_routing_from_db (sx_parse env) db,
           sn_model_registry := registry,
           sn_pricing := compose_pricing (sn_bootstrap_pricing cur) registry (db_overrides db) (sx_now_ms env),
           sn_version := sn_version cur + 1\<rparr>, cst_db = db\<rparr>))"
  using import_executes [OF validate_yaml_ok [OF assms(1)] assms(2,3)] imported_providers [OF assms(4)]
  by (simp add: import_yaml_def assms(1,5,6) transaction_def refresh_from_db_def no_read_fault Let_def)

text \<open>
  C28. Importing a valid document replaces the managed configuration by it: when no statement fails and the
  providers have different identifiers, the import succeeds, and the snapshot then has exactly the
  providers, pools and routes of the document, whatever the tables held before. Every key carries
  its identity, and a provider without an object as metadata has the empty one.
\<close>

theorem import_replaces:
  assumes "validate_yaml (sx_parse_yaml env) (sx_type_error env) yaml = Inr cfg"
    and "dm_wf (cf_pools cfg)" and "dm_wf (cf_model_to_pool cfg)" and "distinct (map pv_id (cf_providers cfg))"
    and "json_kept (sx_parse env) (sx_write env) cfg" and "sx_fault env = (\<lambda>_. None)" and "sx_read_fault env = (\<lambda>_. None)"
    and "db_wf (cst_db s)"
  shows "\<exists>s'. import_yaml env yaml s = (Inr (), s') \<and>
    sn_providers (cst_inner s') = map (\<lambda>p. p\<lparr>pv_metadata := object_or_empty (pv_metadata p)\<rparr>) (cf_providers cfg) \<and>
    (\<forall>i. dm_get (sn_pool_configs (cst_inner s')) i =
       map_option (\<lambda>p. \<lparr>pc_keys = map (\<lambda>k. k\<lparr>ke_identity := Some (identity_hash (sx_hash env) k)\<rparr>) (pc_keys p)\<rparr>)
         (dm_get (cf_pools cfg) i)) \<and>
    (\<forall>m. map_option route_facts (dm_get (sn_model_routing (cst_inner s')) m) =
       map_option route_facts (dm_get (cf_model_to_pool cfg) m))"
proof -
  note wf = imported_wf [OF validate_yaml_ok [OF assms(1)] assms(2,4,8)]
  show ?thesis
    unfolding import_yaml_calm [OF assms(1,2,4,5,6,7)] Let_def
    by (simp add: imported_pools [OF assms(2) wf] imported_routing [OF assms(3,5)])
qed

definition sample_store_env :: store_env where
  "sample_store_env =
     \<lparr>sx_txt = (\<lambda>_. []), sx_hash = (#) CHR ''h'', sx_parse = (\<lambda>_. Inr (JObj [])), sx_write = (\<lambda>_. ''{}''),
      sx_parse_yaml = (\<lambda>_. Inr sample_config_doc), sx_type_error = (\<lambda>_. []), sx_fault = (\<lambda>_. None),
      sx_read_fault = (\<lambda>_. None), sx_now_ms = 0\<rparr>"

definition empty_database :: database where
  "empty_database = \<lparr>db_pools = [], db_keys = [], db_providers = [], db_routing = [], db_models = [], db_overrides = []\<rparr>"

definition empty_store :: config_store where
  "empty_store = \<lparr>cst_inner = snapshot_default, cst_db = empty_database\<rparr>"

lemma sample_document_valid:
  "\<exists>cfg. validate_yaml (sx_parse_yaml sample_store_env) (sx_type_error sample_store_env) yaml = Inr cfg \<and>
     cf_pools cfg = [(''main'', \<lparr>pc_keys = [api_key ''sk'' 0]\<rparr>)] \<and>
     cf_providers cfg = [\<lparr>pv_id = ''p'', pv_pool_id = ''main'', pv_base_url = ''u'', pv_kind = OpenAi, pv_metadata = JNull\<rparr>] \<and>
     cf_model_to_pool cfg = [(''gpt'', Simple ''main'')]"
proof -
  obtain cfg where cfg: "dec_config sample_config_doc = Some cfg"
    "cf_pools cfg = [(''main'', \<lparr>pc_keys = [api_key ''sk'' 0]\<rparr>)]"
    "cf_providers cfg = [\<lparr>pv_id = ''p'', pv_pool_id = ''main'', pv_base_url = ''u'', pv_kind = OpenAi, pv_metadata = JNull\<rparr>]"
    "cf_model_to_pool cfg = [(''gpt'', Simple ''main'')]" "cf_model_registry cfg = []"
    using sample_config_loads by blast
  have "validate cfg = Inr ()"
    by (simp add: validate_def cfg validate_route_def validate_provider_ref_def validate_pool_def validate_key_def
        is_oauth_def api_key_def Let_def)
  then show ?thesis by (auto simp: validate_yaml_def sample_store_env_def cfg)
qed

lemma sample_document_fits:
  assumes "cf_pools cfg = [(''main'', \<lparr>pc_keys = [api_key ''sk'' 0]\<rparr>)]"
    and "cf_providers cfg = [\<lparr>pv_id = ''p'', pv_pool_id = ''main'', pv_base_url = ''u'', pv_kind = OpenAi, pv_metadata = JNull\<rparr>]"
    and "cf_model_to_pool cfg = [(''gpt'', Simple ''main'')]"
  shows "dm_wf (cf_pools cfg)" "dm_wf (cf_model_to_pool cfg)" "distinct (map pv_id (cf_providers cfg))"
    "json_kept (sx_parse sample_store_env) (sx_write sample_store_env) cfg"
    "sx_fault sample_store_env = (\<lambda>_. None)" "sx_read_fault sample_store_env = (\<lambda>_. None)" "db_wf (cst_db empty_store)"
  by (simp_all add: assms dm_wf_def json_kept_def object_or_empty_def sample_store_env_def empty_store_def empty_database_def
      db_wf_def)

theorem import_replaces_witness:
  "\<exists>s'. import_yaml sample_store_env [] empty_store = (Inr (), s') \<and>
     dm_get (sn_pool_configs (cst_inner s')) ''main'' = Some \<lparr>pc_keys = [(api_key ''sk'' 0)\<lparr>ke_identity := Some ''hsk''\<rparr>]\<rparr>"
proof -
  obtain cfg where valid: "validate_yaml (sx_parse_yaml sample_store_env) (sx_type_error sample_store_env) [] = Inr cfg"
    and cfg: "cf_pools cfg = [(''main'', \<lparr>pc_keys = [api_key ''sk'' 0]\<rparr>)]"
    "cf_providers cfg = [\<lparr>pv_id = ''p'', pv_pool_id = ''main'', pv_base_url = ''u'', pv_kind = OpenAi, pv_metadata = JNull\<rparr>]"
    "cf_model_to_pool cfg = [(''gpt'', Simple ''main'')]"
    using sample_document_valid [of "[]"] by blast
  have "identity_hash (sx_hash sample_store_env) (api_key ''sk'' 0) = ''hsk''"
    by (simp add: identity_hash_def api_key_def nonempty_def identity_secret_def is_oauth_def sample_store_env_def)
  with import_replaces [OF valid sample_document_fits [OF cfg]] show ?thesis by (fastforce simp: cfg)
qed



end
