(* ===== verification/Admin_Api.thy ===== *)
theory Admin_Api
  imports Config_Store
begin

text \<open>
  The management API (\<open>dashboard/admin_api.rs\<close>): creation, change and removal of providers, pools, keys, routes,
  models and client keys, the status and listing endpoints, and the export and import of the
  managed configuration. A handler is a function of the store; the statements of a handler are
  numbered, and \<open>sx_fault\<close> says which of them fails. The answers are the JSON values that are sent.
\<close>

section \<open>Sequencing\<close>

definition then_do :: "'a result \<times> 's \<Rightarrow> ('a \<Rightarrow> 's \<Rightarrow> 'b result \<times> 's) \<Rightarrow> 'b result \<times> 's" where
  "then_do rs f = (case rs of (Inl e, s) \<Rightarrow> (Inl e, s) | (Inr a, s) \<Rightarrow> f a s)"

definition query :: "store_env \<Rightarrow> nat \<Rightarrow> string \<Rightarrow> 'a \<Rightarrow> 'a result" where
  "query env n what v = (case sx_fault env n of Some m \<Rightarrow> Inl (internal (sx_txt env) what (Fault m)) | None \<Rightarrow> Inr v)"

definition run_statement :: "store_env \<Rightarrow> nat \<Rightarrow> statement \<Rightarrow> config_store \<Rightarrow> unit result \<times> config_store" where
  "run_statement env n st s =
     (case execute (\<lambda>_. sx_fault env n) n [st] (cst_db s) of
        Inl e \<Rightarrow> (Inl e, s)
      | Inr db \<Rightarrow> (Inr (), s\<lparr>cst_db := db\<rparr>))"

definition refresh_then :: "store_env \<Rightarrow> 'a \<Rightarrow> config_store \<Rightarrow> 'a result \<times> config_store" where
  "refresh_then env v s = then_do (refresh env s) (\<lambda>_ s. (Inr v, s))"

abbreviation answer :: "(string \<times> json) list \<Rightarrow> json" where
  "answer es \<equiv> JObj (obj_of es)"

definition opt_json :: "('a \<Rightarrow> json) \<Rightarrow> 'a option \<Rightarrow> json" where
  "opt_json f x = (case x of Some v \<Rightarrow> f v | None \<Rightarrow> JNull)"

section \<open>Models\<close>

definition validate_model_fields ::
  "string \<Rightarrow> string \<Rightarrow> string \<Rightarrow> int \<Rightarrow> int \<Rightarrow> rat option \<Rightarrow> rat option \<Rightarrow> json option \<Rightarrow> unit result" where
  "validate_model_fields i display kind context output input output_price caps =
     (if trim i = [] \<or> trim display = [] \<or> trim kind = []
      then Inl (BadRequest ''id, display_name and provider_kind are required'')
      else if kind \<notin> {''openai'', ''anthropic'', ''gemini''} then Inl (BadRequest ''unsupported provider_kind'')
      else if context \<le> 0 \<or> output \<le> 0 then Inl (BadRequest ''token limits must be positive'')
      else if list_ex (\<lambda>p. p < 0) (List.map_filter id [input, output_price])
      then Inl (BadRequest ''prices must be finite and non-negative'')
      else if (case caps of Some v \<Rightarrow> \<not> is_object v | None \<Rightarrow> False)
      then Inl (BadRequest ''capabilities_json must be a JSON object'')
      else Inr ())"

definition get_model :: "store_env \<Rightarrow> nat \<Rightarrow> string \<Rightarrow> database \<Rightarrow> model_row result" where
  "get_model env n i db =
     (case query env n ''load model'' (find (\<lambda>m. mr_id m = i) (db_models db)) of
        Inl e \<Rightarrow> Inl e
      | Inr None \<Rightarrow> Inl (NotFound (''model '' @ quoted i @ '' not found''))
      | Inr (Some m) \<Rightarrow> Inr m)"

definition model_value :: "(string \<Rightarrow> string + json) \<Rightarrow> model_row \<Rightarrow> json" where
  "model_value parse r = answer
     [(''id'', JStr (mr_id r)), (''display_name'', JStr (mr_display_name r)), (''provider_kind'', JStr (mr_provider_kind r)),
      (''provider_config_id'', opt_json JStr (mr_provider_config_id r)),
      (''supports_vision'', JBool (mr_supports_vision r \<noteq> 0)), (''supports_tool_calling'', JBool (mr_supports_tool_calling r \<noteq> 0)),
      (''supports_json_mode'', JBool (mr_supports_json_mode r \<noteq> 0)),
      (''max_context_tokens'', JInt (mr_max_context_tokens r)), (''max_output_tokens'', JInt (mr_max_output_tokens r)),
      (''input_price_per_1m'', opt_json JFloat (mr_input_price r)), (''output_price_per_1m'', opt_json JFloat (mr_output_price r)),
      (''capabilities_json'',
         case mr_capabilities_json r of
           Some s \<Rightarrow> (case parse s of Inr v \<Rightarrow> v | Inl _ \<Rightarrow> JObj [])
         | None \<Rightarrow> JObj []),
      (''enabled'', JBool (mr_enabled r \<noteq> 0))]"

definition provider_pool_id :: "store_env \<Rightarrow> nat \<Rightarrow> string \<Rightarrow> database \<Rightarrow> string result" where
  "provider_pool_id env n provider_id db =
     (if trim provider_id = [] then Inl (BadRequest ''provider_config_id cannot be empty'')
      else case query env n ''validate provider''
                  (find (\<lambda>p. vr_id p = provider_id \<and> vr_enabled p) (db_providers db)) of
             Inl e \<Rightarrow> Inl e
           | Inr None \<Rightarrow> Inl (BadRequest (''provider_config_id '' @ quoted provider_id @ '' does not exist or is disabled''))
           | Inr (Some p) \<Rightarrow> Inr (vr_pool_id p))"

definition validate_provider :: "store_env \<Rightarrow> nat \<Rightarrow> string option \<Rightarrow> database \<Rightarrow> unit result" where
  "validate_provider env n i db =
     (case i of
        None \<Rightarrow> Inr ()
      | Some i \<Rightarrow> (case provider_pool_id env n i db of Inl e \<Rightarrow> Inl e | Inr _ \<Rightarrow> Inr ()))"

text \<open>The number of enabled pools with the identifier decides; the identifier is the primary key.\<close>

definition pool_enabled :: "database \<Rightarrow> string \<Rightarrow> bool" where
  "pool_enabled db i = list_ex (\<lambda>p. pl_id p = i \<and> pl_enabled p) (db_pools db)"

definition ensure_model_routing ::
  "store_env \<Rightarrow> nat \<Rightarrow> string \<Rightarrow> string option \<Rightarrow> bool \<Rightarrow> config_store \<Rightarrow> unit result \<times> config_store" where
  "ensure_model_routing env n logical_model provider_config_id enabled s =
     (case provider_config_id of
        None \<Rightarrow> (Inr (), s)
      | Some provider_id \<Rightarrow>
          if trim provider_id = [] \<or> \<not> enabled then (Inr (), s)
          else
            then_do (provider_pool_id env n provider_id (cst_db s), s) (\<lambda>pool_id s.
            then_do (query env (n + 1) ''validate routing pool'' (pool_enabled (cst_db s) pool_id), s) (\<lambda>pool_exists s.
            if \<not> pool_exists
            then (Inl (BadRequest (''provider '' @ quoted provider_id @ '' references missing or disabled pool '' @ quoted pool_id)), s)
            else
              then_do (run_statement env (n + 2) (internal (sx_txt env) ''ensure model routing'',
                clear_routing (\<lambda>r. rr_logical_model r = logical_model)) s) (\<lambda>_ s.
              run_statement env (n + 3) (internal (sx_txt env) ''ensure model routing'',
                insert_routing \<lparr>rr_logical_model = logical_model, rr_pool_id = pool_id, rr_default_params = None,
                  rr_upstream_model = None, rr_enabled = True\<rparr>) s))))"

definition admin_api_models :: "store_env \<Rightarrow> config_store \<Rightarrow> json result" where
  "admin_api_models env s =
     (case query env 0 ''list models'' (sort_key mr_id (db_models (cst_db s))) of
        Inl e \<Rightarrow> Inl e
      | Inr rows \<Rightarrow> Inr (answer [(''models'', JArr (map (model_value (sx_parse env)) rows))]))"

record model_create =
  mq_id :: string
  mq_display_name :: string
  mq_provider_kind :: string
  mq_provider_config_id :: "string option"
  mq_supports_vision :: bool
  mq_supports_tool_calling :: bool
  mq_supports_json_mode :: bool
  mq_max_context_tokens :: int
  mq_max_output_tokens :: int
  mq_input_price :: "rat option"
  mq_output_price :: "rat option"
  mq_capabilities_json :: "json option"
  mq_enabled :: bool

definition created_row :: "(json \<Rightarrow> string) \<Rightarrow> model_create \<Rightarrow> model_row" where
  "created_row jwrite q =
     \<lparr>mr_id = mq_id q, mr_display_name = mq_display_name q, mr_provider_kind = mq_provider_kind q,
      mr_provider_config_id = mq_provider_config_id q, mr_supports_vision = as_i32 (mq_supports_vision q),
      mr_supports_tool_calling = as_i32 (mq_supports_tool_calling q), mr_supports_json_mode = as_i32 (mq_supports_json_mode q),
      mr_max_context_tokens = mq_max_context_tokens q, mr_max_output_tokens = mq_max_output_tokens q,
      mr_input_price = mq_input_price q, mr_output_price = mq_output_price q,
      mr_capabilities_json = map_option jwrite (mq_capabilities_json q), mr_enabled = as_i32 (mq_enabled q)\<rparr>"

definition create_error :: "(sql_error \<Rightarrow> string) \<Rightarrow> sql_error \<Rightarrow> app_error" where
  "create_error txt e = (if e = Unique_violation then BadRequest ''model id already exists'' else internal txt ''create model'' e)"

definition admin_api_create_model :: "store_env \<Rightarrow> model_create \<Rightarrow> config_store \<Rightarrow> json result \<times> config_store" where
  "admin_api_create_model env q s =
     then_do (validate_model_fields (mq_id q) (mq_display_name q) (mq_provider_kind q) (mq_max_context_tokens q)
       (mq_max_output_tokens q) (mq_input_price q) (mq_output_price q) (mq_capabilities_json q), s) (\<lambda>_ s.
     then_do (validate_provider env 0 (mq_provider_config_id q) (cst_db s), s) (\<lambda>_ s.
     then_do (run_statement env 1 (create_error (sx_txt env), insert_model (created_row (sx_write env) q)) s) (\<lambda>_ s.
     case ensure_model_routing env 2 (mq_id q) (mq_provider_config_id q) (mq_enabled q) s of
       (Inl e, s) \<Rightarrow> (Inl e, snd (run_statement env 6 (\<lambda>_. e, clear_models (\<lambda>m. mr_id m = mq_id q)) s))
     | (Inr _, s) \<Rightarrow>
         then_do (get_model env 7 (mq_id q) (cst_db s), s) (\<lambda>after s. refresh_then env (model_value (sx_parse env) after) s))))"

record model_patch =
  mp_display_name :: "string option"
  mp_provider_kind :: "string option"
  mp_provider_config_id :: "string option option"
  mp_supports_vision :: "bool option"
  mp_supports_tool_calling :: "bool option"
  mp_supports_json_mode :: "bool option"
  mp_max_context_tokens :: "int option"
  mp_max_output_tokens :: "int option"
  mp_input_price :: "rat option option"
  mp_output_price :: "rat option option"
  mp_capabilities_json :: "json option option"
  mp_enabled :: "bool option"

definition or_before :: "'a option \<Rightarrow> 'a \<Rightarrow> 'a" where
  "or_before x y = (case x of Some v \<Rightarrow> v | None \<Rightarrow> y)"

definition patched_row :: "(json \<Rightarrow> string) \<Rightarrow> model_patch \<Rightarrow> model_row \<Rightarrow> model_row" where
  "patched_row jwrite q before =
     \<lparr>mr_id = mr_id before, mr_display_name = or_before (mp_display_name q) (mr_display_name before),
      mr_provider_kind = or_before (mp_provider_kind q) (mr_provider_kind before),
      mr_provider_config_id = or_before (mp_provider_config_id q) (mr_provider_config_id before),
      mr_supports_vision = as_i32 (or_before (mp_supports_vision q) (mr_supports_vision before \<noteq> 0)),
      mr_supports_tool_calling = as_i32 (or_before (mp_supports_tool_calling q) (mr_supports_tool_calling before \<noteq> 0)),
      mr_supports_json_mode = as_i32 (or_before (mp_supports_json_mode q) (mr_supports_json_mode before \<noteq> 0)),
      mr_max_context_tokens = or_before (mp_max_context_tokens q) (mr_max_context_tokens before),
      mr_max_output_tokens = or_before (mp_max_output_tokens q) (mr_max_output_tokens before),
      mr_input_price = or_before (mp_input_price q) (mr_input_price before),
      mr_output_price = or_before (mp_output_price q) (mr_output_price before),
      mr_capabilities_json = (case mp_capabilities_json q of
        Some v \<Rightarrow> map_option jwrite v | None \<Rightarrow> mr_capabilities_json before),
      mr_enabled = as_i32 (or_before (mp_enabled q) (mr_enabled before \<noteq> 0))\<rparr>"

definition admin_api_update_model :: "store_env \<Rightarrow> string \<Rightarrow> model_patch \<Rightarrow> config_store \<Rightarrow> json result \<times> config_store" where
  "admin_api_update_model env i q s =
     then_do (get_model env 0 i (cst_db s), s) (\<lambda>before s.
     let row = patched_row (sx_write env) q before;
         caps_value = (case mp_capabilities_json q of Some v \<Rightarrow> v | None \<Rightarrow> None)
     in
     then_do (validate_model_fields i (mr_display_name row) (mr_provider_kind row) (mr_max_context_tokens row)
       (mr_max_output_tokens row) (mr_input_price row) (mr_output_price row) caps_value, s) (\<lambda>_ s.
     then_do (validate_provider env 1 (mr_provider_config_id row) (cst_db s), s) (\<lambda>_ s.
     then_do (run_statement env 2 (internal (sx_txt env) ''update model'', update_models i row) s) (\<lambda>_ s.
     then_do (ensure_model_routing env 3 i (mr_provider_config_id row) (mr_enabled row \<noteq> 0) s) (\<lambda>_ s.
     then_do (get_model env 7 i (cst_db s), s) (\<lambda>after s. refresh_then env (model_value (sx_parse env) after) s))))))"

section \<open>Client keys\<close>

definition no_auth_store :: app_error where
  "no_auth_store = Auth ''auth store not initialized''"

definition admin_api_list_client_keys :: "auth_store option \<Rightarrow> (client_key_public list \<times> nat) result" where
  "admin_api_list_client_keys st =
     (case st of
        Some keys \<Rightarrow> let ks = map public_of_record (auth_list keys) in Inr (ks, length ks)
      | None \<Rightarrow> Inl no_auth_store)"

text \<open>The four changes have the same shape: the operation of the store, and the public part of its record.\<close>

definition on_auth_store ::
  "(auth_store \<Rightarrow> client_key_record result \<times> auth_store) \<Rightarrow> auth_store option \<Rightarrow> client_key_public result \<times> auth_store option" where
  "on_auth_store f st =
     (case st of
        Some keys \<Rightarrow>
          (case f keys of
             (Inl e, keys) \<Rightarrow> (Inl e, Some keys)
           | (Inr r, keys) \<Rightarrow> (Inr (public_of_record r), Some keys))
      | None \<Rightarrow> (Inl no_auth_store, None))"

definition admin_api_add_client_key ::
  "(string \<Rightarrow> string) \<Rightarrow> int \<Rightarrow> create_key_request \<Rightarrow> auth_store option \<Rightarrow> client_key_public result \<times> auth_store option" where
  "admin_api_add_client_key H now req = on_auth_store (auth_add H now req)"

definition admin_api_update_client_key ::
  "string \<Rightarrow> update_key_request \<Rightarrow> auth_store option \<Rightarrow> client_key_public result \<times> auth_store option" where
  "admin_api_update_client_key key_hash req = on_auth_store (auth_update key_hash req)"

definition admin_api_delete_client_key :: "string \<Rightarrow> auth_store option \<Rightarrow> client_key_public result \<times> auth_store option" where
  "admin_api_delete_client_key key_hash = on_auth_store (auth_remove key_hash)"

definition admin_api_rotate_client_key ::
  "(string \<Rightarrow> string) \<Rightarrow> int \<Rightarrow> string \<Rightarrow> string \<Rightarrow> auth_store option \<Rightarrow> client_key_public result \<times> auth_store option" where
  "admin_api_rotate_client_key H now key_hash new_key = on_auth_store (auth_rotate H now key_hash new_key)"

section \<open>Providers\<close>

text \<open>\<open>format!("{:?}")\<close> of the kind, in lower case.\<close>

fun debug_kind_lower :: "provider_kind \<Rightarrow> string" where
  "debug_kind_lower OpenAi = ''openai''"
| "debug_kind_lower Anthropic = ''anthropic''"
| "debug_kind_lower Gemini = ''gemini''"

definition admin_api_list_providers :: "config_store \<Rightarrow> json list" where
  "admin_api_list_providers s =
     map (\<lambda>p. answer [(''id'', JStr (pv_id p)), (''kind'', JStr (debug_kind_lower (pv_kind p))),
       (''base_url'', JStr (pv_base_url p)), (''pool_id'', JStr (pv_pool_id p)), (''metadata'', pv_metadata p)])
       (sn_providers (cst_inner s))"

record create_provider_request =
  cpr_id :: string
  cpr_kind :: string
  cpr_base_url :: string
  cpr_pool_id :: string
  cpr_metadata :: json

definition admin_api_create_provider ::
  "store_env \<Rightarrow> create_provider_request \<Rightarrow> config_store \<Rightarrow> json result \<times> config_store" where
  "admin_api_create_provider env q s =
     (if trim (cpr_id q) = [] then (Inl (BadRequest ''provider id must not be empty''), s)
      else if trim (cpr_base_url q) = [] then (Inl (BadRequest ''provider base_url must not be empty''), s)
      else
        then_do (query env 0 ''validate provider id'' (cpr_id q \<in> vr_id ` set (db_providers (cst_db s))), s) (\<lambda>existing s.
        let kind = to_ascii_lowercase (cpr_kind q)
        in if existing then (Inl (BadRequest (''provider '' @ quoted (cpr_id q) @ '' already exists'')), s)
           else if \<not> is_object (cpr_metadata q) then (Inl (BadRequest ''provider metadata must be a JSON object''), s)
           else if kind \<notin> {''openai'', ''anthropic'', ''gemini''}
           then (Inl (BadRequest (''unsupported provider kind '' @ quoted kind)), s)
           else
             then_do (query env 1 ''validate provider pool'' (pool_enabled (cst_db s) (cpr_pool_id q)), s) (\<lambda>pool_exists s.
             if \<not> pool_exists then (Inl (BadRequest (''pool '' @ quoted (cpr_pool_id q) @ '' does not exist'')), s)
             else
               then_do (run_statement env 2 (internal (sx_txt env) ''create provider'',
                 insert_provider \<lparr>vr_id = cpr_id q, vr_kind = kind, vr_base_url = cpr_base_url q, vr_pool_id = cpr_pool_id q,
                   vr_enabled = True, vr_metadata = Some (sx_write env (cpr_metadata q))\<rparr>) s) (\<lambda>_.
               refresh_then env (answer [(''ok'', JBool True), (''id'', JStr (cpr_id q))])))))"

definition admin_api_delete_provider :: "store_env \<Rightarrow> string \<Rightarrow> config_store \<Rightarrow> json result \<times> config_store" where
  "admin_api_delete_provider env i s =
     then_do (run_statement env 0 (internal (sx_txt env) ''delete provider'', clear_providers (\<lambda>p. vr_id p = i)) s) (\<lambda>_.
     refresh_then env (answer [(''ok'', JBool True), (''deleted'', JStr i)]))"

section \<open>Pools\<close>

definition admin_api_list_pools :: "(string \<Rightarrow> string) \<Rightarrow> config_store \<Rightarrow> json list" where
  "admin_api_list_pools H s =
     map (\<lambda>(i, pool). answer [(''id'', JStr i), (''strategy'', JStr ''weighted_random''),
       (''key_count'', JInt (int (length (pc_keys pool)))),
       (''keys'', JArr (map (\<lambda>k. answer [(''key_hash'', JStr (identity_hash H k)), (''weight'', JInt (uint (ke_weight k))),
          (''type'', JStr (cred_type_str (ke_cred_type k))), (''issuer'', opt_json JStr (ke_issuer k))]) (pc_keys pool)))])
       (sn_pool_configs (cst_inner s))"

record create_key_entry_request =
  cke_key :: string
  cke_weight :: u32
  cke_cred_type :: credential_type
  cke_refresh :: "string option"
  cke_expires :: "int option"
  cke_issuer :: "string option"

definition to_key_entry :: "create_key_entry_request \<Rightarrow> key_entry" where
  "to_key_entry q =
     \<lparr>ke_key = cke_key q, ke_weight = cke_weight q, ke_cred_type = cke_cred_type q, ke_refresh = cke_refresh q,
      ke_expires = cke_expires q, ke_issuer = cke_issuer q, ke_identity = None\<rparr>"

definition check_pool_key :: "string \<Rightarrow> key_entry \<Rightarrow> app_error option" where
  "check_pool_key empty_msg k =
     (if ke_weight k = 0 then Some (BadRequest ''pool keys must have positive weight'')
      else if is_oauth k then
        (if nonempty (ke_refresh k) = None \<or> nonempty (ke_issuer k) = None
         then Some (BadRequest ''oauth pool keys require refresh and issuer'') else None)
      else if ke_key k = [] then Some (BadRequest empty_msg)
      else None)"

fun add_pool_keys :: "store_env \<Rightarrow> nat \<Rightarrow> string \<Rightarrow> key_entry list \<Rightarrow> database \<Rightarrow> database result" where
  "add_pool_keys env n i [] db = Inr db"
| "add_pool_keys env n i (k # ks) db =
     (case check_pool_key ''pool keys must be non-empty with positive weight'' k of
        Some e \<Rightarrow> Inl e
      | None \<Rightarrow>
          (case execute (sx_fault env) n [insert_key_entry (sx_txt env) (sx_hash env) i k] db of
             Inl e \<Rightarrow> Inl (BadRequest (error_to_string e))
           | Inr db \<Rightarrow> add_pool_keys env (Suc n) i ks db))"

record create_pool_request =
  cpo_id :: string
  cpo_strategy :: string
  cpo_keys :: "create_key_entry_request list"

definition create_pool_error :: "(sql_error \<Rightarrow> string) \<Rightarrow> sql_error \<Rightarrow> app_error" where
  "create_pool_error txt e = BadRequest (''create pool: '' @ txt e)"

definition create_pool_tx :: "store_env \<Rightarrow> create_pool_request \<Rightarrow> database \<Rightarrow> database result" where
  "create_pool_tx env q db =
     (case query env 0 ''begin pool transaction'' () of
        Inl e \<Rightarrow> Inl e
      | Inr _ \<Rightarrow>
          (case execute (sx_fault env) 1 [(create_pool_error (sx_txt env),
                  insert_pool \<lparr>pl_id = cpo_id q, pl_strategy = cpo_strategy q, pl_enabled = True\<rparr>)] db of
             Inl e \<Rightarrow> Inl e
           | Inr db \<Rightarrow>
               (case add_pool_keys env 2 (cpo_id q) (map to_key_entry (cpo_keys q)) db of
                  Inl e \<Rightarrow> Inl e
                | Inr db \<Rightarrow> query env (2 + length (cpo_keys q)) ''commit pool transaction'' db)))"

definition admin_api_create_pool :: "store_env \<Rightarrow> create_pool_request \<Rightarrow> config_store \<Rightarrow> json result \<times> config_store" where
  "admin_api_create_pool env q s =
     then_do (create_pool_tx env q (cst_db s), s) (\<lambda>db s.
     refresh_then env (answer [(''ok'', JBool True), (''id'', JStr (cpo_id q))]) (s\<lparr>cst_db := db\<rparr>))"

definition add_key_tx :: "store_env \<Rightarrow> string \<Rightarrow> key_entry \<Rightarrow> database \<Rightarrow> database result" where
  "add_key_tx env i k db =
     (case query env 1 ''begin add key'' () of
        Inl e \<Rightarrow> Inl e
      | Inr _ \<Rightarrow>
          (case execute (sx_fault env) 2 [insert_key_entry (sx_txt env) (sx_hash env) i k] db of
             Inl e \<Rightarrow> Inl (BadRequest (error_to_string e))
           | Inr db \<Rightarrow> query env 3 ''commit add key'' db))"

definition admin_api_add_pool_key ::
  "store_env \<Rightarrow> string \<Rightarrow> create_key_entry_request \<Rightarrow> config_store \<Rightarrow> json result \<times> config_store" where
  "admin_api_add_pool_key env i q s =
     (let k = to_key_entry q
      in case check_pool_key ''pool key must be non-empty'' k of
           Some e \<Rightarrow> (Inl e, s)
         | None \<Rightarrow>
             then_do (query env 0 ''lookup pool'' (has_pool (cst_db s) i), s) (\<lambda>exists s.
             if \<not> exists then (Inl (NotFound (''pool '' @ quoted i @ '' not found'')), s)
             else
               then_do (add_key_tx env i k (cst_db s), s) (\<lambda>db s.
               refresh_then env (answer [(''ok'', JBool True), (''pool_id'', JStr i),
                   (''key_hash'', JStr (identity_hash (sx_hash env) k)), (''type'', JStr (cred_type_str (ke_cred_type k)))])
                 (s\<lparr>cst_db := db\<rparr>))))"

definition delete_pool_statements :: "store_env \<Rightarrow> string \<Rightarrow> statement list" where
  "delete_pool_statements env i =
     [(internal (sx_txt env) ''delete pool keys'', clear_keys (\<lambda>k. kr_pool_id k = i)),
      (internal (sx_txt env) ''delete pool'', clear_pools (\<lambda>p. p = i))]"

definition admin_api_delete_pool :: "store_env \<Rightarrow> string \<Rightarrow> config_store \<Rightarrow> json result \<times> config_store" where
  "admin_api_delete_pool env i s =
     then_do (transaction (sx_txt env) (sx_fault env) ''begin pool delete transaction'' ''commit pool delete transaction''
       (delete_pool_statements env i) (cst_db s), s) (\<lambda>db s.
     refresh_then env (answer [(''ok'', JBool True), (''deleted'', JStr i)]) (s\<lparr>cst_db := db\<rparr>))"

section \<open>Routes\<close>

definition admin_api_list_routing :: "config_store \<Rightarrow> json" where
  "admin_api_list_routing s =
     answer [(''routing'', JArr (map (\<lambda>(model, r). answer [(''logical_model'', JStr model), (''pool_id'', JStr (routing_pool_id r)),
       (''upstream_model'', opt_json JStr (routing_upstream_model r))]) (sn_model_routing (cst_inner s))))]"

record create_routing_request =
  crt_logical_model :: string
  crt_pool_id :: string
  crt_default_params :: "json option"
  crt_upstream_model :: "string option"

text \<open>The table has no uniqueness constraint on the model, so \<open>INSERT OR REPLACE\<close> inserts.\<close>

definition admin_api_create_routing ::
  "store_env \<Rightarrow> create_routing_request \<Rightarrow> config_store \<Rightarrow> json result \<times> config_store" where
  "admin_api_create_routing env q s =
     then_do (query env 0 ''validate routing pool'' (pool_enabled (cst_db s) (crt_pool_id q)), s) (\<lambda>pool_exists s.
     if \<not> pool_exists then (Inl (BadRequest (''pool '' @ quoted (crt_pool_id q) @ '' does not exist'')), s)
     else
       then_do (run_statement env 1 (internal (sx_txt env) ''create routing'',
         insert_routing \<lparr>rr_logical_model = crt_logical_model q, rr_pool_id = crt_pool_id q,
           rr_default_params = map_option (sx_write env) (crt_default_params q),
           rr_upstream_model = nonempty (map_option trim (crt_upstream_model q)), rr_enabled = True\<rparr>) s) (\<lambda>_.
       refresh_then env (answer [(''ok'', JBool True), (''model'', JStr (crt_logical_model q))])))"

definition admin_api_delete_routing :: "store_env \<Rightarrow> string \<Rightarrow> config_store \<Rightarrow> json result \<times> config_store" where
  "admin_api_delete_routing env model s =
     then_do (run_statement env 0 (internal (sx_txt env) ''delete routing'', clear_routing (\<lambda>r. rr_logical_model r = model)) s) (\<lambda>_.
     refresh_then env (answer [(''ok'', JBool True), (''deleted'', JStr model)]))"

section \<open>Whole documents\<close>

record document_response =
  do_ok :: bool
  do_dry_run :: bool
  do_version :: u64
  do_message :: string

definition admin_api_config_validate :: "store_env \<Rightarrow> string \<Rightarrow> document_response result" where
  "admin_api_config_validate env yaml =
     (case validate_yaml (sx_parse_yaml env) (sx_type_error env) yaml of
        Inl e \<Rightarrow> Inl e
      | Inr _ \<Rightarrow> Inr \<lparr>do_ok = True, do_dry_run = True, do_version = 0,
          do_message = ''configuration is valid; no changes were made''\<rparr>)"

definition admin_api_config_import ::
  "store_env \<Rightarrow> string \<Rightarrow> bool \<Rightarrow> config_store \<Rightarrow> document_response result \<times> config_store" where
  "admin_api_config_import env yaml dry_run s =
     then_do (validate_yaml (sx_parse_yaml env) (sx_type_error env) yaml, s) (\<lambda>_ s.
     if dry_run
     then (Inr \<lparr>do_ok = True, do_dry_run = True, do_version = sn_version (cst_inner s),
       do_message = ''configuration is valid; no changes were made''\<rparr>, s)
     else
       then_do (import_yaml env yaml s) (\<lambda>_ s.
       (Inr \<lparr>do_ok = True, do_dry_run = False, do_version = sn_version (cst_inner s), do_message = ''configuration imported''\<rparr>, s)))"

definition admin_api_config_refresh :: "store_env \<Rightarrow> config_store \<Rightarrow> (bool \<times> u64) result \<times> config_store" where
  "admin_api_config_refresh env s = then_do (refresh env s) (\<lambda>_ s. (Inr (True, sn_version (cst_inner s)), s))"

record config_overview =
  ov_version :: u64
  ov_providers :: nat
  ov_pools :: nat
  ov_routing :: nat
  ov_model_registry :: nat

definition admin_api_config_overview :: "config_store \<Rightarrow> config_overview" where
  "admin_api_config_overview s =
     (let sn = cst_inner s
      in \<lparr>ov_version = sn_version sn, ov_providers = length (sn_providers sn), ov_pools = length (sn_pool_configs sn),
          ov_routing = length (sn_model_routing sn), ov_model_registry = length (sn_model_registry sn)\<rparr>)"

section \<open>Export\<close>

definition provider_kind_to_yaml :: "provider_kind \<Rightarrow> string" where
  "provider_kind_to_yaml k = (case k of OpenAi \<Rightarrow> ''openai'' | Anthropic \<Rightarrow> ''anthropic'' | Gemini \<Rightarrow> ''gemini'')"

definition export_key :: "key_entry \<Rightarrow> json" where
  "export_key k = JObj
     ([(''key'', JStr (ke_key k)), (''weight'', JInt (uint (ke_weight k)))] @
      (if ke_cred_type k = ApiKey then [] else [(''type'', JStr (cred_type_str (ke_cred_type k)))]) @
      some_entry ''refresh'' JStr (ke_refresh k) @ some_entry ''expires'' JInt (ke_expires k) @
      some_entry ''issuer'' JStr (ke_issuer k))"

definition export_pool :: "pool_config \<Rightarrow> json" where
  "export_pool pool = JObj [(''keys'', JArr (map export_key (pc_keys pool))), (''strategy'', JStr ''weighted_random'')]"

definition export_provider :: "provider_config \<Rightarrow> json" where
  "export_provider p = answer
     [(''id'', JStr (pv_id p)), (''kind'', JStr (provider_kind_to_yaml (pv_kind p))), (''base_url'', JStr (pv_base_url p)),
      (''pool_id'', JStr (pv_pool_id p)), (''metadata'', pv_metadata p)]"

definition export_failover :: "failover_config \<Rightarrow> json" where
  "export_failover f = JObj
     [(''enabled'', JBool (fo_enabled f)), (''bad_status_codes'', JArr (map (\<lambda>c. JInt (uint c)) (fo_bad_status_codes f))),
      (''max_retries'', JInt (uint (fo_max_retries f))), (''probe_interval_secs'', JInt (uint (fo_probe_interval_secs f))),
      (''probe_timeout_secs'', JInt (uint (fo_probe_timeout_secs f))), (''max_probe_retries'', JInt (uint (fo_max_probe_retries f)))]"

text \<open>The document; the maps are written in the order of their keys.\<close>

definition export_document :: "config \<Rightarrow> config_snapshot \<Rightarrow> json" where
  "export_document cfg sn = JObj
     [(''server'', JObj [(''host'', JStr (sv_host (cf_server cfg))), (''port'', JInt (uint (sv_port (cf_server cfg)))),
        (''max_body_bytes'', JInt (int (sv_max_body_bytes (cf_server cfg))))]),
      (''auth'', JObj [(''client_keys'', JArr [])]),
      (''db'', JObj [(''path'', JStr (cf_db_path cfg))]),
      (''failover'', export_failover (rp_failover (sn_runtime sn))),
      (''response_normalization'',
         JObj [(''strip_think_tags'', JBool (rn_strip_think_tags (rp_response_normalization (sn_runtime sn))))]),
      (''providers'', JArr (map export_provider (sn_providers sn))),
      (''pools'', JObj (obj_of (map (map_prod id export_pool) (sn_pool_configs sn)))),
      (''model_to_pool'', JObj (obj_of (map (map_prod id to_export_value) (sn_model_routing sn))))]"

definition admin_api_config_export :: "(json \<Rightarrow> string + string) \<Rightarrow> config \<Rightarrow> config_store \<Rightarrow> string result" where
  "admin_api_config_export write_yaml cfg s =
     (case write_yaml (export_document cfg (cst_inner s)) of
        Inl e \<Rightarrow> Inl (Internal (''export config: '' @ e))
      | Inr yaml \<Rightarrow> Inr yaml)"

section \<open>Status\<close>

record pool_status =
  pst_pool_id :: string
  pst_total_keys :: nat
  pst_healthy_keys :: nat
  pst_bad_keys :: nat

definition pool_status_of :: "pool_snapshot \<Rightarrow> pool_status" where
  "pool_status_of p =
     (let total_keys = length (ps_keys p); healthy = length (filter ks_healthy (ps_keys p))
      in \<lparr>pst_pool_id = ps_pool_id p, pst_total_keys = total_keys, pst_healthy_keys = healthy, pst_bad_keys = total_keys - healthy\<rparr>)"

record status_response =
  sr_metrics :: metrics
  sr_pools :: "pool_status list"
  sr_alert_count :: nat
  sr_uptime_secs :: u64

definition admin_api_status :: "(string \<Rightarrow> string) \<Rightarrow> u64 \<Rightarrow> app_state \<Rightarrow> nat \<Rightarrow> status_response" where
  "admin_api_status H now_secs st alerts =
     \<lparr>sr_metrics = st_metrics st, sr_pools = map pool_status_of (router_pool_snapshot H (st_bad st) (st_router st)),
      sr_alert_count = alerts, sr_uptime_secs = now_secs\<rparr>"

section \<open>Request bodies\<close>

definition dec_model_create :: "json \<Rightarrow> model_create option" where
  "dec_model_create v =
     Option.bind (struct_map [(''id'', False), (''display_name'', False), (''provider_kind'', False), (''provider_config_id'', False),
       (''supports_vision'', True), (''supports_tool_calling'', True), (''supports_json_mode'', True), (''max_context_tokens'', True),
       (''max_output_tokens'', True), (''input_price_per_1m'', False), (''output_price_per_1m'', False),
       (''capabilities_json'', False), (''enabled'', True)] v) (\<lambda>m.
     Option.bind (req_field as_str m ''id'') (\<lambda>i.
     Option.bind (req_field as_str m ''display_name'') (\<lambda>d.
     Option.bind (req_field as_str m ''provider_kind'') (\<lambda>k.
     Option.bind (opt_field as_str m ''provider_config_id'') (\<lambda>p.
     Option.bind (default_field False as_bool m ''supports_vision'') (\<lambda>sv.
     Option.bind (default_field False as_bool m ''supports_tool_calling'') (\<lambda>st.
     Option.bind (default_field False as_bool m ''supports_json_mode'') (\<lambda>sj.
     Option.bind (default_field 4096 dec_i32 m ''max_context_tokens'') (\<lambda>mc.
     Option.bind (default_field 4096 dec_i32 m ''max_output_tokens'') (\<lambda>mo.
     Option.bind (opt_field as_f64 m ''input_price_per_1m'') (\<lambda>ip.
     Option.bind (opt_field as_f64 m ''output_price_per_1m'') (\<lambda>op.
     Option.bind (opt_field Some m ''capabilities_json'') (\<lambda>cj.
     Option.bind (default_field True as_bool m ''enabled'') (\<lambda>e.
     Some \<lparr>mq_id = i, mq_display_name = d, mq_provider_kind = k, mq_provider_config_id = p, mq_supports_vision = sv,
       mq_supports_tool_calling = st, mq_supports_json_mode = sj, mq_max_context_tokens = mc, mq_max_output_tokens = mo,
       mq_input_price = ip, mq_output_price = op, mq_capabilities_json = cj, mq_enabled = e\<rparr>))))))))))))))"

text \<open>A field of type \<open>Option<Option<T>>\<close>: null and absence both read as \<open>None\<close>.\<close>

definition nested_field :: "(json \<Rightarrow> 'a option) \<Rightarrow> json_map \<Rightarrow> string \<Rightarrow> 'a option option option" where
  "nested_field dec m k = map_option (map_option Some) (opt_field dec m k)"

definition dec_model_patch :: "json \<Rightarrow> model_patch option" where
  "dec_model_patch v =
     Option.bind (struct_map [(''display_name'', False), (''provider_kind'', False), (''provider_config_id'', False),
       (''supports_vision'', False), (''supports_tool_calling'', False), (''supports_json_mode'', False),
       (''max_context_tokens'', False), (''max_output_tokens'', False), (''input_price_per_1m'', False),
       (''output_price_per_1m'', False), (''capabilities_json'', False), (''enabled'', False)] v) (\<lambda>m.
     Option.bind (opt_field as_str m ''display_name'') (\<lambda>d.
     Option.bind (opt_field as_str m ''provider_kind'') (\<lambda>k.
     Option.bind (nested_field as_str m ''provider_config_id'') (\<lambda>p.
     Option.bind (opt_field as_bool m ''supports_vision'') (\<lambda>sv.
     Option.bind (opt_field as_bool m ''supports_tool_calling'') (\<lambda>st.
     Option.bind (opt_field as_bool m ''supports_json_mode'') (\<lambda>sj.
     Option.bind (opt_field dec_i32 m ''max_context_tokens'') (\<lambda>mc.
     Option.bind (opt_field dec_i32 m ''max_output_tokens'') (\<lambda>mo.
     Option.bind (nested_field as_f64 m ''input_price_per_1m'') (\<lambda>ip.
     Option.bind (nested_field as_f64 m ''output_price_per_1m'') (\<lambda>op.
     Option.bind (nested_field Some m ''capabilities_json'') (\<lambda>cj.
     Option.bind (opt_field as_bool m ''enabled'') (\<lambda>e.
     Some \<lparr>mp_display_name = d, mp_provider_kind = k, mp_provider_config_id = p, mp_supports_vision = sv,
       mp_supports_tool_calling = st, mp_supports_json_mode = sj, mp_max_context_tokens = mc, mp_max_output_tokens = mo,
       mp_input_price = ip, mp_output_price = op, mp_capabilities_json = cj, mp_enabled = e\<rparr>)))))))))))))"

definition dec_create_provider :: "json \<Rightarrow> create_provider_request option" where
  "dec_create_provider v =
     Option.bind (struct_map [(''id'', False), (''kind'', False), (''base_url'', False), (''pool_id'', False), (''metadata'', True)] v) (\<lambda>m.
     Option.bind (req_field as_str m ''id'') (\<lambda>i.
     Option.bind (req_field as_str m ''kind'') (\<lambda>k.
     Option.bind (req_field as_str m ''base_url'') (\<lambda>u.
     Option.bind (req_field as_str m ''pool_id'') (\<lambda>p.
     Option.bind (default_field JNull Some m ''metadata'') (\<lambda>x.
     Some \<lparr>cpr_id = i, cpr_kind = k, cpr_base_url = u, cpr_pool_id = p, cpr_metadata = x\<rparr>))))))"

definition dec_create_key_entry :: "json \<Rightarrow> create_key_entry_request option" where
  "dec_create_key_entry v =
     Option.bind (struct_map [(''key'', True), (''weight'', True), (''type'', True), (''refresh'', True), (''expires'', True),
       (''issuer'', True)] v) (\<lambda>m.
     Option.bind (default_field [] as_str m ''key'') (\<lambda>k.
     Option.bind (default_field 1 dec_u32 m ''weight'') (\<lambda>w.
     Option.bind (default_field ApiKey dec_cred_type m ''type'') (\<lambda>t.
     Option.bind (opt_field as_str m ''refresh'') (\<lambda>r.
     Option.bind (opt_field as_i64 m ''expires'') (\<lambda>e.
     Option.bind (opt_field as_str m ''issuer'') (\<lambda>i.
     Some \<lparr>cke_key = k, cke_weight = w, cke_cred_type = t, cke_refresh = r, cke_expires = e, cke_issuer = i\<rparr>)))))))"

definition dec_create_pool :: "json \<Rightarrow> create_pool_request option" where
  "dec_create_pool v =
     Option.bind (struct_map [(''id'', False), (''strategy'', True), (''keys'', True)] v) (\<lambda>m.
     Option.bind (req_field as_str m ''id'') (\<lambda>i.
     Option.bind (default_field ''weighted_random'' as_str m ''strategy'') (\<lambda>st.
     Option.bind (default_field [] (dec_list dec_create_key_entry) m ''keys'') (\<lambda>ks.
     Some \<lparr>cpo_id = i, cpo_strategy = st, cpo_keys = ks\<rparr>))))"

definition dec_create_routing :: "json \<Rightarrow> create_routing_request option" where
  "dec_create_routing v =
     Option.bind (struct_map [(''logical_model'', False), (''pool_id'', False), (''default_params'', True), (''upstream_model'', True)] v) (\<lambda>m.
     Option.bind (req_field as_str m ''logical_model'') (\<lambda>l.
     Option.bind (req_field as_str m ''pool_id'') (\<lambda>p.
     Option.bind (opt_field Some m ''default_params'') (\<lambda>d.
     Option.bind (opt_field as_str m ''upstream_model'') (\<lambda>u.
     Some \<lparr>crt_logical_model = l, crt_pool_id = p, crt_default_params = d, crt_upstream_model = u\<rparr>)))))"

text \<open>So a patch cannot clear a field, although its type and the update provide for it.\<close>

lemma patch_never_clears:
  assumes "dec_model_patch v = Some q"
  shows "mp_provider_config_id q \<noteq> Some None" "mp_input_price q \<noteq> Some None" "mp_output_price q \<noteq> Some None"
    "mp_capabilities_json q \<noteq> Some None"
proof -
  have "nested_field dec m k \<noteq> Some (Some None)" for dec :: "json \<Rightarrow> 'a option" and m k
    by (auto simp: nested_field_def)
  then show "mp_provider_config_id q \<noteq> Some None" "mp_input_price q \<noteq> Some None" "mp_output_price q \<noteq> Some None"
    "mp_capabilities_json q \<noteq> Some None"
    using assms by (auto simp: dec_model_patch_def nested_field_def bind_eq_Some_conv)
qed

section \<open>Runs of management operations\<close>

datatype admin_op =
    CreateModel model_create
  | UpdateModel string model_patch
  | CreateProvider create_provider_request
  | DeleteProvider string
  | CreatePool create_pool_request
  | AddPoolKey string create_key_entry_request
  | DeletePool string
  | CreateRouting create_routing_request
  | DeleteRouting string
  | ImportDocument string bool
  | RefreshConfig
  | PollTick
  | PersistToken string live_token

fun admin_exec :: "store_env \<times> admin_op \<Rightarrow> config_store \<Rightarrow> config_store" where
  "admin_exec (env, CreateModel q) s = snd (admin_api_create_model env q s)"
| "admin_exec (env, UpdateModel i q) s = snd (admin_api_update_model env i q s)"
| "admin_exec (env, CreateProvider q) s = snd (admin_api_create_provider env q s)"
| "admin_exec (env, DeleteProvider i) s = snd (admin_api_delete_provider env i s)"
| "admin_exec (env, CreatePool q) s = snd (admin_api_create_pool env q s)"
| "admin_exec (env, AddPoolKey i q) s = snd (admin_api_add_pool_key env i q s)"
| "admin_exec (env, DeletePool i) s = snd (admin_api_delete_pool env i s)"
| "admin_exec (env, CreateRouting q) s = snd (admin_api_create_routing env q s)"
| "admin_exec (env, DeleteRouting m) s = snd (admin_api_delete_routing env m s)"
| "admin_exec (env, ImportDocument yaml dry) s = snd (admin_api_config_import env yaml dry s)"
| "admin_exec (env, RefreshConfig) s = snd (admin_api_config_refresh env s)"
| "admin_exec (env, PollTick) s = poll_tick env s"
| "admin_exec (env, PersistToken i live) s = s\<lparr>cst_db := persist_row i live (cst_db s)\<rparr>"

text \<open>The constraints of the schema hold, pools stay enabled, and in the snapshot every route names a pool.\<close>

definition routes_ok :: "config_snapshot \<Rightarrow> bool" where
  "routes_ok sn =
     (dm_wf (sn_model_routing sn) \<and>
      (\<forall>model r. dm_get (sn_model_routing sn) model = Some r \<longrightarrow> dm_get (sn_pool_configs sn) (routing_pool_id r) \<noteq> None))"

definition store_ok :: "config_store \<Rightarrow> bool" where
  "store_ok s = (db_wf (cst_db s) \<and> pools_enabled (cst_db s) \<and> routes_ok (cst_inner s))"

interpretation managed: statement_invariant "\<lambda>db. db_wf db \<and> pools_enabled db"
  by (unfold_locales; elim conjE; intro conjI;
      (erule (2) refs.insert_pool enabled.insert_pool |
       erule (1) refs.clear_routing refs.clear_keys refs.clear_pools refs.clear_providers refs.clear_models
         refs.insert_key refs.insert_provider refs.insert_routing refs.insert_model refs.update_models
         enabled.clear_routing enabled.clear_keys enabled.clear_pools enabled.clear_providers enabled.clear_models
         enabled.insert_key enabled.insert_provider enabled.insert_routing enabled.insert_model enabled.update_models))

named_theorems keeps \<open>operations that keep the invariant of the store\<close>

lemma then_do_keeps: "store_ok (snd rs) \<Longrightarrow> (\<And>a s. store_ok s \<Longrightarrow> store_ok (snd (f a s))) \<Longrightarrow> store_ok (snd (then_do rs f))"
  by (auto simp: then_do_def split: prod.splits sum.splits)

lemma store_ok_db: "store_ok s \<Longrightarrow> db_wf db \<and> pools_enabled db \<Longrightarrow> store_ok (s\<lparr>cst_db := db\<rparr>)"
  by (simp add: store_ok_def)

lemma refresh_keeps [keeps]: "store_ok s \<Longrightarrow> store_ok (snd (refresh env s))"
  using loaded_routes_ok [of "cst_db s"] routing_loaded_wf [of "sx_parse env" "cst_db s"]
  by (auto simp: refresh_from_db_def store_ok_def routes_ok_def Let_def split: sum.splits option.splits if_splits)

lemma refresh_then_keeps [keeps]: "store_ok s \<Longrightarrow> store_ok (snd (refresh_then env v s))"
  unfolding refresh_then_def by (rule then_do_keeps, erule refresh_keeps) simp

lemma run_statement_keeps: "managed.kept st \<Longrightarrow> store_ok s \<Longrightarrow> store_ok (snd (run_statement env n st s))"
  using managed.execute_inv [of "\<lambda>_. sx_fault env n" n "[st]" "cst_db s"]
  by (auto simp: run_statement_def store_ok_def split: sum.splits)

lemma kept_primitives [keeps]:
  "managed.kept (err, clear_routing P)" "managed.kept (err, clear_keys Q)" "managed.kept (err, clear_pools S)"
  "managed.kept (err, clear_providers R)" "managed.kept (err, clear_models M)"
  "managed.kept (err, insert_key k)" "managed.kept (err, insert_provider v)" "managed.kept (err, insert_routing r)"
  "managed.kept (err, insert_model m)" "managed.kept (err, update_models i m)"
  "pl_enabled p \<Longrightarrow> managed.kept (err, insert_pool p)"
  by (rule managed.keptI,
      erule (1) managed.clear_routing managed.clear_keys managed.clear_pools managed.clear_providers managed.clear_models
        managed.insert_key managed.insert_provider managed.insert_routing managed.insert_model managed.update_models)+
    (rule managed.keptI, erule (2) managed.insert_pool)

lemma ensure_routing_keeps: "store_ok s \<Longrightarrow> store_ok (snd (ensure_model_routing env n m p e s))"
  unfolding ensure_model_routing_def
  by (auto intro!: then_do_keeps run_statement_keeps keeps split: option.split)

lemma create_model_keeps: "store_ok s \<Longrightarrow> store_ok (snd (admin_api_create_model env q s))"
proof -
  have fallback: "store_ok (snd (case ensure_model_routing env 2 (mq_id q) (mq_provider_config_id q) (mq_enabled q) s of
       (Inl e, s) \<Rightarrow> (Inl e, snd (run_statement env 6 (\<lambda>_. e, clear_models (\<lambda>m. mr_id m = mq_id q)) s))
     | (Inr _, s) \<Rightarrow>
         then_do (get_model env 7 (mq_id q) (cst_db s), s) (\<lambda>after s. refresh_then env (model_value (sx_parse env) after) s)))"
    if "store_ok s" for s
    using ensure_routing_keeps [OF that, of env 2 "mq_id q" "mq_provider_config_id q" "mq_enabled q"]
    by (auto intro!: then_do_keeps run_statement_keeps keeps split: prod.split sum.split)
  assume "store_ok s"
  then show ?thesis
    unfolding admin_api_create_model_def by (auto intro!: then_do_keeps run_statement_keeps keeps fallback)
qed

lemma update_model_keeps: "store_ok s \<Longrightarrow> store_ok (snd (admin_api_update_model env i q s))"
  unfolding admin_api_update_model_def Let_def
  by (auto intro!: then_do_keeps run_statement_keeps ensure_routing_keeps keeps)

lemma provider_keeps:
  "store_ok s \<Longrightarrow> store_ok (snd (admin_api_create_provider env p s))"
  "store_ok s \<Longrightarrow> store_ok (snd (admin_api_delete_provider env i s))"
  unfolding admin_api_create_provider_def admin_api_delete_provider_def Let_def
  by (auto intro!: then_do_keeps run_statement_keeps keeps)

lemma routing_keeps:
  "store_ok s \<Longrightarrow> store_ok (snd (admin_api_create_routing env q s))"
  "store_ok s \<Longrightarrow> store_ok (snd (admin_api_delete_routing env m s))"
  unfolding admin_api_create_routing_def admin_api_delete_routing_def Let_def
  by (auto intro!: then_do_keeps run_statement_keeps keeps)

lemma execute_one: "managed.kept st \<Longrightarrow> execute fault n [st] db = Inr db' \<Longrightarrow> db_wf db \<and> pools_enabled db \<Longrightarrow> db_wf db' \<and> pools_enabled db'"
  using managed.execute_inv [of fault n "[st]" db db'] by simp

lemma insert_key_entry_kept: "managed.kept (insert_key_entry txt H i k)"
  unfolding insert_key_entry_def by (rule keeps)

lemma add_pool_keys_inv:
  "add_pool_keys env n i ks db = Inr db' \<Longrightarrow> db_wf db \<and> pools_enabled db \<Longrightarrow> db_wf db' \<and> pools_enabled db'"
proof (induction env n i ks db rule: add_pool_keys.induct)
  case (2 env n i k ks db)
  then obtain db1 where "execute (sx_fault env) n [insert_key_entry (sx_txt env) (sx_hash env) i k] db = Inr db1"
    and "add_pool_keys env (Suc n) i ks db1 = Inr db'"
    and "check_pool_key ''pool keys must be non-empty with positive weight'' k = None"
    by (auto simp del: execute.simps split: option.splits sum.splits)
  with 2 execute_one [OF insert_key_entry_kept] show ?case by (metis (no_types, lifting))
qed simp

lemma pool_keeps:
  assumes "store_ok s"
  shows "store_ok (snd (admin_api_create_pool env q s))" "store_ok (snd (admin_api_add_pool_key env i kq s))"
    "store_ok (snd (admin_api_delete_pool env i s))"
proof -
  have db: "db_wf (cst_db s) \<and> pools_enabled (cst_db s)" using assms by (simp add: store_ok_def)
  have "db_wf db' \<and> pools_enabled db'" if tx: "create_pool_tx env q (cst_db s) = Inr db'" for db'
  proof -
    let ?new = "\<lparr>pl_id = cpo_id q, pl_strategy = cpo_strategy q, pl_enabled = True\<rparr>"
    obtain db1 where "execute (sx_fault env) 1 [(create_pool_error (sx_txt env), insert_pool ?new)] (cst_db s) = Inr db1"
      and "add_pool_keys env 2 (cpo_id q) (map to_key_entry (cpo_keys q)) db1 = Inr db'"
      using tx by (auto simp: create_pool_tx_def query_def simp del: execute.simps split: sum.splits option.splits)
    moreover have "managed.kept (create_pool_error (sx_txt env), insert_pool ?new)" by (rule keeps) simp
    ultimately show ?thesis using add_pool_keys_inv execute_one [OF _ _ db] by blast
  qed
  then show "store_ok (snd (admin_api_create_pool env q s))"
    unfolding admin_api_create_pool_def using assms
    by (cases "create_pool_tx env q (cst_db s)") (simp_all add: then_do_def refresh_then_keeps store_ok_db)
  have "db_wf db' \<and> pools_enabled db'" if "add_key_tx env i (to_key_entry kq) (cst_db s) = Inr db'" for db'
    using that execute_one [OF insert_key_entry_kept _ db]
    by (auto simp: add_key_tx_def query_def simp del: execute.simps split: sum.splits option.splits)
  then show "store_ok (snd (admin_api_add_pool_key env i kq s))"
    unfolding admin_api_add_pool_key_def Let_def using assms
    by (auto simp: then_do_def query_def refresh_then_keeps store_ok_db split: option.split sum.split)
  have "list_all managed.kept (delete_pool_statements env i)"
    by (simp add: delete_pool_statements_def keeps)
  then have "db_wf db' \<and> pools_enabled db'"
    if "transaction tx fault b c (delete_pool_statements env i) (cst_db s) = Inr db'" for tx fault b c db'
    using managed.transaction_inv [OF that _ db] by blast
  then show "store_ok (snd (admin_api_delete_pool env i s))"
    unfolding admin_api_delete_pool_def using assms
    by (auto simp: then_do_def refresh_then_keeps store_ok_db split: sum.split)
qed

lemma import_keeps: "store_ok s \<Longrightarrow> store_ok (snd (import_yaml env yaml s))"
proof -
  assume ok: "store_ok s"
  then have "db_wf db \<and> pools_enabled db"
    if "transaction tx fault b c (import_statements t H w cfg) (cst_db s) = Inr db" for tx fault b c t H w cfg db
    using managed.transaction_inv [OF that managed.import_kept] by (simp add: store_ok_def)
  with ok show ?thesis
    by (auto simp: import_yaml_def intro!: keeps store_ok_db split: sum.split)
qed

lemma document_keeps:
  "store_ok s \<Longrightarrow> store_ok (snd (admin_api_config_import env yaml dry s))"
  "store_ok s \<Longrightarrow> store_ok (snd (admin_api_config_refresh env s))"
  "store_ok s \<Longrightarrow> store_ok (poll_tick env s)"
  unfolding admin_api_config_import_def admin_api_config_refresh_def poll_tick_def
  by (auto intro!: then_do_keeps import_keeps keeps)

lemma persist_keeps: "store_ok s \<Longrightarrow> store_ok (s\<lparr>cst_db := persist_row i live (cst_db s)\<rparr>)"
  by (auto simp: store_ok_def persist_row_def db_wf_def pools_enabled_def list_all_iff)

lemma admin_exec_keeps: "store_ok s \<Longrightarrow> store_ok (admin_exec eo s)"
  by (cases eo; cases "snd eo")
    (auto intro: create_model_keeps update_model_keeps provider_keeps routing_keeps pool_keeps document_keeps persist_keeps)



text \<open>
  A created route is in force at once, also when the model had routes before, and a deleted one is
  gone; the other routes are those of the tables, as before.
\<close>

theorem routing_changes_effective:
  assumes "\<And>v. crt_default_params q = Some v \<Longrightarrow> sx_parse env (sx_write env v) = Inr v"
  shows "(admin_api_create_routing env q s = (Inr a, s') \<longrightarrow>
      map_option route_facts (dm_get (sn_model_routing (cst_inner s')) (crt_logical_model q)) =
        Some (crt_pool_id q, (case crt_default_params q of Some v \<Rightarrow> if is_object v then Some v else None | None \<Rightarrow> None),
          nonempty (map_option trim (crt_upstream_model q))) \<and>
      (\<forall>m. m \<noteq> crt_logical_model q \<longrightarrow>
         dm_get (sn_model_routing (cst_inner s')) m = dm_get (load_routing_from_db (sx_parse env) (cst_db s)) m)) \<and>
    (admin_api_delete_routing env model s = (Inr b, s') \<longrightarrow>
      dm_get (sn_model_routing (cst_inner s')) model = None \<and>
      (\<forall>m. m \<noteq> model \<longrightarrow>
         dm_get (sn_model_routing (cst_inner s')) m = dm_get (load_routing_from_db (sx_parse env) (cst_db s)) m))"
proof -
  have refreshed: "sn_model_routing (cst_inner s') = load_routing_from_db (sx_parse env) (cst_db s)"
    if "refresh_then env v s = (Inr a, s')" for v s s' and a :: json
    using that by (auto simp: refresh_then_def then_do_def refresh_from_db_def Let_def split: sum.splits option.splits if_splits)
  let ?row = "\<lparr>rr_logical_model = crt_logical_model q, rr_pool_id = crt_pool_id q,
    rr_default_params = map_option (sx_write env) (crt_default_params q),
    rr_upstream_model = nonempty (map_option trim (crt_upstream_model q)), rr_enabled = True\<rparr>"
  have row: "route_facts (load_routing (sx_parse env) ?row) =
      (crt_pool_id q, (case crt_default_params q of Some v \<Rightarrow> if is_object v then Some v else None | None \<Rightarrow> None),
        nonempty (map_option trim (crt_upstream_model q)))"
    using assms by (cases "crt_default_params q"; cases "nonempty (map_option trim (crt_upstream_model q))")
      (auto simp: load_routing_def route_facts_def nonempty_def split: option.splits if_splits)
  have created: "sn_model_routing (cst_inner s') =
      load_routing_from_db (sx_parse env) ((cst_db s)\<lparr>db_routing := db_routing (cst_db s) @ [?row]\<rparr>)"
    if "admin_api_create_routing env q s = (Inr a, s')"
    using that refreshed
    by (auto simp: admin_api_create_routing_def then_do_def query_def run_statement_def insert_routing_def
        split: option.splits sum.splits if_splits)
  have deleted: "sn_model_routing (cst_inner s') =
      load_routing_from_db (sx_parse env) ((cst_db s)\<lparr>db_routing := filter (\<lambda>r. rr_logical_model r \<noteq> model) (db_routing (cst_db s))\<rparr>)"
    if "admin_api_delete_routing env model s = (Inr b, s')"
    using that refreshed
    by (auto simp: admin_api_delete_routing_def then_do_def run_statement_def clear_routing_def
        split: option.splits sum.splits if_splits)
  have gone: "find (\<lambda>r. rr_logical_model r = m) (rev (filter rr_enabled (filter (\<lambda>r. rr_logical_model r \<noteq> model) rs))) =
      (if m = model then None else find (\<lambda>r. rr_logical_model r = m) (rev (filter rr_enabled rs)))" for m rs
    by (induction rs) (auto simp: find_snoc find_None_iff split: option.split)
  show ?thesis
    by (intro conjI impI allI) (simp_all add: created deleted routing_loaded row gone del: filter_filter)
qed

definition sample_pool_store :: config_store where
  "sample_pool_store = empty_store\<lparr>cst_db := empty_database\<lparr>db_pools := [\<lparr>pl_id = ''main'', pl_strategy = [], pl_enabled = True\<rparr>]\<rparr>\<rparr>"

definition sample_route :: create_routing_request where
  "sample_route = \<lparr>crt_logical_model = ''m'', crt_pool_id = ''main'', crt_default_params = None, crt_upstream_model = Some '' up ''\<rparr>"

theorem routing_changes_effective_witness:
  "\<exists>a s'. admin_api_create_routing sample_store_env sample_route sample_pool_store = (Inr a, s') \<and>
     map_option route_facts (dm_get (sn_model_routing (cst_inner s')) ''m'') = Some (''main'', None, Some ''up'')"
proof -
  obtain a s' where run: "admin_api_create_routing sample_store_env sample_route sample_pool_store = (Inr a, s')"
    by (simp add: admin_api_create_routing_def sample_store_env_def sample_route_def sample_pool_store_def empty_store_def
        empty_database_def query_def then_do_def pool_enabled_def run_statement_def insert_routing_def refresh_then_def
        refresh_from_db_def refresh_errors_def no_read_fault load_providers_from_db_def Let_def)
  have "nonempty (map_option trim (Some '' up '')) = Some ''up''" by code_simp
  with routing_changes_effective [of sample_route sample_store_env sample_pool_store a s'] run show ?thesis
    by (auto simp: sample_route_def)
qed

end
