(* ===== verification/Config_Transfer.thy ===== *)
theory Config_Transfer
  imports Admin_Api
begin

text \<open>
  The exported document (\<open>admin_api_config_export\<close>) read back by the configuration reader and imported, on the same or on another
  gateway.
\<close>

section \<open>Parts of the document\<close>

definition unpinned :: "key_entry \<Rightarrow> key_entry" where
  "unpinned k = k\<lparr>ke_identity := None\<rparr>"

definition unpinned_pool :: "pool_config \<Rightarrow> pool_config" where
  "unpinned_pool p = \<lparr>pc_keys = map unpinned (pc_keys p)\<rparr>"

lemma dec_enc_words:
  "dec_u16 (JInt (uint (w::u16))) = Some w" "dec_u32 (JInt (uint (v::u32))) = Some v" "dec_u64 (JInt (uint (u::u64))) = Some u"
  using uint_lt2p [of w] uint_lt2p [of v] uint_lt2p [of u] by (simp_all add: dec_u16_def dec_u32_def dec_u64_def)

lemma those_map_Some: "(\<And>x. x \<in> set xs \<Longrightarrow> f x = Some (g x)) \<Longrightarrow> those (map f xs) = Some (map g xs)"
  by (induction xs) auto

lemma dec_export_key:
  assumes "\<And>e. ke_expires k = Some e \<Longrightarrow> e < 2 ^ 63"
  shows "dec_key_entry (export_key k) = Some (unpinned k)"
  using assms by (cases k; cases "ke_cred_type k"; cases "ke_refresh k"; cases "ke_expires k"; cases "ke_issuer k")
    (simp_all add: dec_key_entry_def export_key_def unpinned_def reader_defs some_entry_def dec_enc_words dec_cred_type_def)

definition expiry_fits :: "pool_config \<Rightarrow> bool" where
  "expiry_fits p = list_all (\<lambda>k. case ke_expires k of Some e \<Rightarrow> e < 2 ^ 63 | None \<Rightarrow> True) (pc_keys p)"

lemma dec_export_pool: "expiry_fits p \<Longrightarrow> dec_pool (export_pool p) = Some (unpinned_pool p)"
proof -
  assume "expiry_fits p"
  then have "those (map (\<lambda>k. dec_key_entry (export_key k)) (pc_keys p)) = Some (map unpinned (pc_keys p))"
    by (intro those_map_Some dec_export_key) (auto simp: expiry_fits_def list_all_iff)
  then show ?thesis by (simp add: dec_pool_def export_pool_def unpinned_pool_def reader_defs comp_def)
qed

lemma dec_export_provider: "dec_provider (export_provider p) = Some p"
proof -
  have "dec_provider_kind (JStr (provider_kind_to_yaml k)) = Some k" for k
    by (cases k) (simp_all add: dec_provider_kind_def provider_kind_to_yaml_def)
  then show ?thesis
    by (cases p) (simp add: dec_provider_def export_provider_def reader_defs obj_get_obj_of)
qed

lemma dec_export_failover: "dec_failover (export_failover f) = Some f"
proof -
  have "those (map (\<lambda>c. dec_u16 (JInt (uint c))) cs) = Some cs" for cs :: "u16 list"
    by (induction cs) (simp_all add: dec_enc_words)
  then show ?thesis by (cases f) (simp add: dec_failover_def export_failover_def reader_defs dec_enc_words comp_def)
qed

section \<open>Maps\<close>

lemma obj_insert_map: "obj_insert k (f v) (map (map_prod id f) m) = map (map_prod id f) (obj_insert k v m)"
  by (induction k v m rule: obj_insert.induct) auto

lemma obj_of_map: "obj_of (map (map_prod id f) es) = map (map_prod id f) (obj_of es)"
proof -
  have "fold (\<lambda>(k, v). obj_insert k v) (map (map_prod id f) es) (map (map_prod id f) m) =
      map (map_prod id f) (fold (\<lambda>(k, v). obj_insert k v) es m)" for m
    by (induction es arbitrary: m) (auto simp: obj_insert_map)
  from this [of "[]"] show ?thesis by (simp add: obj_of_def)
qed

lemma dm_wf_obj_of: "dm_wf (obj_of m)"
  using obj_wf_obj_of [of m] by (simp add: dm_wf_def obj_wf_def)

lemma dm_get_obj_of: "dm_wf m \<Longrightarrow> dm_get (obj_of m) k = dm_get m k"
  using map_of_inject_set [of "rev m" m] by (simp add: obj_get_obj_of dm_wf_def rev_map [symmetric])

lemma set_obj_of: "dm_wf m \<Longrightarrow> set (obj_of m) = set m"
proof -
  assume m: "dm_wf m"
  have "x \<in> set (obj_of m) \<longleftrightarrow> x \<in> set m" for x
    using dm_get_in_set [OF dm_wf_obj_of, of m "fst x" "snd x"] dm_get_in_set [OF m, of "fst x" "snd x"] dm_get_obj_of [OF m]
    by simp
  then show ?thesis by blast
qed

lemma dec_export_map:
  assumes "dm_wf m" and "\<And>k v. (k, v) \<in> set m \<Longrightarrow> dec (enc v) = Some (g v)"
  shows "dec_map dec (JObj (obj_of (map (map_prod id enc) m))) = Some (map (map_prod id g) (obj_of m))"
  unfolding obj_of_map dec_map.simps map_map
  by (rule those_map_Some) (use assms set_obj_of [OF assms(1)] in \<open>auto simp: map_prod_def\<close>)

section \<open>The document\<close>

text \<open>What a document exported from a snapshot reads as.\<close>

definition reread_routing :: "model_routing \<Rightarrow> model_routing" where
  "reread_routing r = the (dec_routing (to_export_value r))"

lemma reread_routing: "dec_routing (to_export_value r) = Some (reread_routing r)" "route_facts (reread_routing r) = route_facts r"
  using routing_roundtrip [of r] by (auto simp: reread_routing_def route_facts_def)

lemma reread_pool_id: "routing_pool_id (reread_routing r) = routing_pool_id r"
  using reread_routing(2) [of r] by (simp add: route_facts_def)

text \<open>A snapshot that may be exported: its maps are maps, its references resolve, and its keys can be used.\<close>

definition exportable :: "config \<Rightarrow> config_snapshot \<Rightarrow> bool" where
  "exportable cfg sn =
     (sv_max_body_bytes (cf_server cfg) < 2 ^ 64 \<and> dm_wf (sn_pool_configs sn) \<and> routes_ok sn \<and>
      distinct (map pv_id (sn_providers sn)) \<and>
      list_all (\<lambda>p. dm_get (sn_pool_configs sn) (pv_pool_id p) \<noteq> None \<and> is_object (pv_metadata p)) (sn_providers sn) \<and>
      list_all (\<lambda>(_, p). expiry_fits p \<and> list_all usable_key (pc_keys p)) (sn_pool_configs sn))"

lemma dec_export_server:
  assumes "sv_max_body_bytes sv < 2 ^ 64"
  shows "dec_server (JObj [(''host'', JStr (sv_host sv)), (''port'', JInt (uint (sv_port sv))),
    (''max_body_bytes'', JInt (int (sv_max_body_bytes sv)))]) = Some sv"
proof -
  have "int (sv_max_body_bytes sv) < 2 ^ 64" using assms by simp
  then show ?thesis by (cases sv) (simp add: dec_server_def reader_defs dec_enc_words dec_usize_def)
qed

lemma dec_export_document:
  assumes "exportable cfg sn"
  shows "\<exists>doc. dec_config (export_document cfg sn) = Some doc \<and> cf_providers doc = sn_providers sn \<and>
    cf_pools doc = map (map_prod id unpinned_pool) (obj_of (sn_pool_configs sn)) \<and>
    cf_model_to_pool doc = map (map_prod id reread_routing) (obj_of (sn_model_routing sn)) \<and> cf_model_registry doc = []"
proof -
  have ok: "dm_wf (sn_pool_configs sn)" "dm_wf (sn_model_routing sn)" "sv_max_body_bytes (cf_server cfg) < 2 ^ 64"
    "\<And>k p. (k, p) \<in> set (sn_pool_configs sn) \<Longrightarrow> expiry_fits p"
    using assms by (auto simp: exportable_def routes_ok_def list_all_iff)
  have pools: "dec_map dec_pool (JObj (obj_of (map (map_prod id export_pool) (sn_pool_configs sn)))) =
      Some (map (map_prod id unpinned_pool) (obj_of (sn_pool_configs sn)))"
    by (rule dec_export_map [OF ok(1)]) (rule dec_export_pool [OF ok(4)])
  have routing: "dec_map dec_routing (JObj (obj_of (map (map_prod id to_export_value) (sn_model_routing sn)))) =
      Some (map (map_prod id reread_routing) (obj_of (sn_model_routing sn)))"
    by (rule dec_export_map [OF ok(2)]) (rule reread_routing(1))
  have providers: "those (map (\<lambda>p. dec_provider (export_provider p)) ps) = Some ps" for ps
    using those_map_Some [of ps "\<lambda>p. dec_provider (export_provider p)" id] by (simp add: dec_export_provider)
  show ?thesis
    by (simp add: export_document_def dec_config_def reader_defs dec_export_server [OF ok(3)] dec_auth_def dec_db_def
        dec_export_failover pools routing providers comp_def dec_response_normalization_def
        del: dec_map.simps)
qed

lemma exported_config_ok:
  assumes "exportable cfg sn" and "cf_providers doc = sn_providers sn"
    and "cf_pools doc = map (map_prod id unpinned_pool) (obj_of (sn_pool_configs sn))"
    and "cf_model_to_pool doc = map (map_prod id reread_routing) (obj_of (sn_model_routing sn))" and "cf_model_registry doc = []"
  shows "config_ok doc"
proof -
  have wf: "dm_wf (sn_pool_configs sn)" "dm_wf (sn_model_routing sn)"
    using assms(1) by (simp_all add: exportable_def routes_ok_def)
  have "usable_key (unpinned k) = usable_key k" for k by (simp add: usable_key_def unpinned_def is_oauth_def)
  then have keys: "usable_key (unpinned k)" if "(i, p) \<in> set (sn_pool_configs sn)" "k \<in> set (pc_keys p)" for i p k
    using assms(1) that by (fastforce simp: exportable_def list_all_iff)
  have known: "i \<in> fst ` set (cf_pools doc) \<longleftrightarrow> dm_get (sn_pool_configs sn) i \<noteq> None" for i
    by (simp add: assms(3) set_obj_of [OF wf(1)] image_image map_of_eq_None_iff)
  have "routing_pool_id r \<in> fst ` set (cf_pools doc)" if mr: "(m, r) \<in> set (cf_model_to_pool doc)" for m r
  proof -
    obtain r0 where "(m, r0) \<in> set (sn_model_routing sn)" "r = reread_routing r0"
      using mr by (auto simp: assms(4) set_obj_of [OF wf(2)])
    then show ?thesis
      using assms(1) dm_get_in_set [OF wf(2), of m r0] known by (auto simp: exportable_def routes_ok_def reread_pool_id)
  qed
  moreover have "pv_pool_id p \<in> fst ` set (cf_pools doc)" if "p \<in> set (cf_providers doc)" for p
    using assms(1,2) that known by (auto simp: exportable_def list_all_iff)
  moreover have "usable_key k" if "(i, p) \<in> set (cf_pools doc)" "k \<in> set (pc_keys p)" for i p k
    using that keys by (auto simp: assms(3) set_obj_of [OF wf(1)] unpinned_pool_def)
  ultimately show ?thesis by (auto simp: config_ok_def assms(5))
qed

lemma map_of_map_prod: "dm_get (map (map_prod id f) m) k = map_option f (dm_get m k)"
  by (induction m) auto


definition sample_export_store :: config_store where
  "sample_export_store = \<lparr>cst_inner = snapshot_default\<lparr>
     sn_providers := [\<lparr>pv_id = ''v'', pv_pool_id = ''p'', pv_base_url = ''u'', pv_kind = Gemini, pv_metadata = JObj []\<rparr>],
     sn_pool_configs := [(''p'', \<lparr>pc_keys = [(api_key ''k'' 3)\<lparr>ke_identity := Some ''old''\<rparr>]\<rparr>)],
     sn_model_routing := [(''m'', Simple ''p'')]\<rparr>, cst_db = empty_database\<rparr>"


end
