(* ===== verification/Gateway_Tasks.thy ===== *)
theory Gateway_Tasks
  imports Admin_Api
begin

text \<open>
  The background tasks: the probe loop that re-admits excluded keys (\<open>health.rs\<close>), the task that rebuilds the
  router when the configuration has changed (\<open>spawn_router_rebuilder\<close> in \<open>bootstrap.rs\<close>), and the health
  endpoints (\<open>health_check.rs\<close>). What other tasks do to the registry of excluded keys while a probe
  waits is a parameter (\<open>he_others\<close>).
\<close>

section \<open>The probe loop\<close>

record health_env =
  he_hash :: "string \<Rightarrow> string"
  he_now_ms :: "nat \<Rightarrow> int"
  he_token_net :: "nat \<Rightarrow> timed_net"
  he_up :: "nat \<Rightarrow> upstream_env"
  he_net :: "nat \<Rightarrow> network"
  he_others :: "nat \<Rightarrow> registry \<Rightarrow> registry"

record health_state =
  hs_bad :: registry
  hs_retries :: "(string \<times> string, u32) dmap"
  hs_credentials :: credential_runtime

type_synonym probe_targets = "(string, pool_config) dmap \<times> (string, provider) dmap"

definition probe_target ::
  "(string \<Rightarrow> string) \<Rightarrow> probe_targets \<Rightarrow> string \<times> string \<Rightarrow> (key_entry \<times> provider) option" where
  "probe_target H t e =
     (case e of (pool_id, key_hash) \<Rightarrow>
        Option.bind (dm_get (fst t) pool_id) (\<lambda>pool.
        Option.bind (find (\<lambda>k. identity_hash H k = key_hash) (pc_keys pool)) (\<lambda>key.
        map_option (Pair key) (dm_get (snd t) pool_id))))"

definition probe_entry :: "health_env \<Rightarrow> nat \<Rightarrow> probe_targets \<Rightarrow> string \<times> string \<Rightarrow> health_state \<Rightarrow> health_state" where
  "probe_entry env n t e hs =
     (case probe_target (he_hash env) t e of
        None \<Rightarrow> hs
      | Some (key, provider) \<Rightarrow>
          (case ensure_fresh (he_hash env) (ue_http (he_up env n)) (he_token_net env n) (he_now_ms env n) key (hs_credentials hs) of
             (fresh, credentials) \<Rightarrow>
               let hs = hs\<lparr>hs_credentials := credentials, hs_bad := he_others env n (hs_bad hs)\<rparr>
               in case fresh of
                    Inl _ \<Rightarrow> hs
                  | Inr key \<Rightarrow>
                      (case probe (he_up env n) (he_net env n) provider key of
                         Inr _ \<Rightarrow> hs\<lparr>hs_bad := remove_bad (fst e) (snd e) (hs_bad hs), hs_retries := dm_remove e (hs_retries hs)\<rparr>
                       | Inl _ \<Rightarrow>
                           let c = (case dm_get (hs_retries hs) e of Some c \<Rightarrow> c + 1 | None \<Rightarrow> 1)
                           in hs\<lparr>hs_retries := dm_insert e c (hs_retries hs)\<rparr>)))"

fun probe_entries :: "health_env \<Rightarrow> nat \<Rightarrow> probe_targets \<Rightarrow> (string \<times> string) list \<Rightarrow> health_state \<Rightarrow> health_state" where
  "probe_entries env n t [] hs = hs"
| "probe_entries env n t (e # es) hs = probe_entries env (Suc n) t es (probe_entry env n t e hs)"

definition health_round :: "probe_targets \<Rightarrow> health_env \<Rightarrow> health_state \<Rightarrow> health_state" where
  "health_round t env hs =
     (let snapshot = registry_snapshot (hs_bad hs)
      in if snapshot = [] then hs else probe_entries env 0 t snapshot hs)"

text \<open>One environment for each round before the shutdown.\<close>

definition run_health_loop :: "probe_targets \<Rightarrow> health_env list \<Rightarrow> registry \<Rightarrow> credential_runtime \<Rightarrow> health_state" where
  "run_health_loop t envs bad credentials =
     fold (health_round t) envs \<lparr>hs_bad = bad, hs_retries = [], hs_credentials = credentials\<rparr>"

section \<open>The router task\<close>

type_synonym routing_snapshot =
  "provider_config list \<times> (string, pool_config) dmap \<times> (string, model_routing) dmap"

record rebuilder =
  rb_last :: "routing_snapshot option"
  rb_handle :: "provider router_handle"

definition same_map :: "(string, 'v) dmap \<Rightarrow> (string, 'v) dmap \<Rightarrow> bool" where
  "same_map m m' = (list_all (\<lambda>(k, _). dm_get m k = dm_get m' k) m \<and> list_all (\<lambda>(k, _). dm_get m k = dm_get m' k) m')"

definition routing_of :: "config_snapshot \<Rightarrow> routing_snapshot" where
  "routing_of sn = (sn_providers sn, sn_pool_configs sn, sn_model_routing sn)"

definition routing_changed :: "routing_snapshot option \<Rightarrow> routing_snapshot \<Rightarrow> bool" where
  "routing_changed prev now =
     (case prev of
        None \<Rightarrow> True
      | Some (lp, lpo, lr) \<Rightarrow>
          (case now of (providers, pools, routing) \<Rightarrow> lp \<noteq> providers \<or> \<not> same_map lpo pools \<or> \<not> same_map lr routing))"

text \<open>A tick compares one reading of the store and builds the router from a later one.\<close>

definition rebuild_tick :: "u16 list \<Rightarrow> config_snapshot \<Rightarrow> config_snapshot \<Rightarrow> rebuilder \<Rightarrow> rebuilder" where
  "rebuild_tick codes seen later rb =
     (if routing_changed (rb_last rb) (routing_of seen) then
        case rebuild_router boot_registry codes (sn_providers later) (sn_pool_configs later) (sn_model_routing later) of
          Inr rt \<Rightarrow> rb\<lparr>rb_last := Some (routing_of seen), rb_handle := handle_swap rt (rb_handle rb)\<rparr>
        | Inl _ \<Rightarrow> rb
      else rb)"

definition rebuilder_start :: "config_snapshot \<Rightarrow> provider router_handle \<Rightarrow> rebuilder" where
  "rebuilder_start sn handle = \<lparr>rb_last = Some (routing_of sn), rb_handle = handle\<rparr>"

section \<open>Health endpoints\<close>

record health_check =
  hc_name :: string
  hc_status :: string
  hc_message :: string

record health_report =
  hp_status :: string
  hp_checks :: "health_check list"
  hp_uptime_secs :: u64

definition health_live :: "u16 \<times> string" where
  "health_live = (200, ''OK'')"

definition health_ready :: "bool \<Rightarrow> 'p router \<Rightarrow> u16 \<times> string" where
  "health_ready db_ok rt = (if db_ok \<and> model_list rt \<noteq> [] then (200, ''READY'') else (503, ''NOT READY''))"

definition health_full :: "bool \<Rightarrow> u64 \<Rightarrow> 'p router \<Rightarrow> health_report" where
  "health_full db_ok now_secs rt =
     (let models = model_list rt;
          status = (\<lambda>b. if b then ''ok'' else ''fail'');
          checks =
            [\<lparr>hc_name = ''database'', hc_status = status db_ok,
              hc_message = (if db_ok then ''SQLite connected'' else ''SQLite unreachable'')\<rparr>,
             \<lparr>hc_name = ''models'', hc_status = status (models \<noteq> []),
              hc_message = show_nat (length models) @ '' models configured''\<rparr>,
             \<lparr>hc_name = ''server'', hc_status = ''ok'', hc_message = ''axum http server running''\<rparr>]
      in \<lparr>hp_status = (if list_all (\<lambda>c. hc_status c = ''ok'') checks then ''healthy'' else ''degraded''),
          hp_checks = checks, hp_uptime_secs = now_secs\<rparr>)"

section \<open>What a probe round does\<close>

declare probe.simps [simp del]

text \<open>A probe changes the registry by what other tasks do and, if it succeeds, by the removal of its own entry.\<close>

lemma probe_entry_cases:
  "hs_bad (probe_entry env n t e hs) \<in>
     {hs_bad hs, he_others env n (hs_bad hs), remove_bad (fst e) (snd e) (he_others env n (hs_bad hs))}"
  by (simp add: probe_entry_def Let_def split: option.split prod.split sum.split)

lemma probe_entry_unknown: "probe_target (he_hash env) t e = None \<Longrightarrow> probe_entry env n t e hs = hs"
  by (simp add: probe_entry_def)

lemma probe_entry_bad:
  assumes "\<forall>n r. is_bad (he_others env n r) p h \<longrightarrow> is_bad r p h" and "is_bad (hs_bad (probe_entry env n t e hs)) p h"
  shows "is_bad (hs_bad hs) p h"
proof -
  have "is_bad (hs_bad hs) p h \<or> is_bad (he_others env n (hs_bad hs)) p h"
    using probe_entry_cases [of env n t e hs] assms(2) by (auto simp: reg.mem_revive)
  with assms(1) show ?thesis by blast
qed

lemma probe_entries_bad:
  assumes "\<forall>n r. is_bad (he_others env n r) p h \<longrightarrow> is_bad r p h"
  shows "is_bad (hs_bad (probe_entries env n t es hs)) p h \<Longrightarrow> is_bad (hs_bad hs) p h"
proof (induction es arbitrary: n hs)
  case (Cons e es)
  from Cons.prems have "is_bad (hs_bad (probe_entries env (Suc n) t es (probe_entry env n t e hs))) p h" by simp
  then have "is_bad (hs_bad (probe_entry env n t e hs)) p h" by (rule Cons.IH)
  then show ?case by (rule probe_entry_bad [OF assms])
qed simp

lemma probe_entry_revives:
  assumes "probe_target (he_hash env) t (p, h) = Some (key, provider)" and "\<not> is_oauth key"
    and "probe (he_up env n) (he_net env n) provider key = Inr ()"
  shows "\<not> is_bad (hs_bad (probe_entry env n t (p, h) hs)) p h"
  using assms by (simp add: probe_entry_def ensure_fresh_def reg.mem_revive)

lemma probe_entries_revive:
  assumes "\<forall>n r. is_bad (he_others env n r) p h \<longrightarrow> is_bad r p h"
    and "probe_target (he_hash env) t (p, h) = Some (key, provider)" and "\<not> is_oauth key"
    and "\<And>n. probe (he_up env n) (he_net env n) provider key = Inr ()"
  shows "(p, h) \<in> set es \<Longrightarrow> \<not> is_bad (hs_bad (probe_entries env n t es hs)) p h"
proof (induction es arbitrary: n hs)
  case (Cons e es)
  show ?case
  proof (cases "e = (p, h)")
    case True
    have "\<not> is_bad (hs_bad (probe_entry env n t e hs)) p h"
      using probe_entry_revives [OF assms(2,3) assms(4)] by (simp add: True)
    then have "\<not> is_bad (hs_bad (probe_entries env (Suc n) t es (probe_entry env n t e hs))) p h"
      using probe_entries_bad [OF assms(1)] by blast
    then show ?thesis by simp
  next
    case False
    with Cons show ?thesis by simp
  qed
qed simp


lemma probe_entry_stays:
  assumes "probe_target (he_hash env) t (p, h) = None" and "\<forall>n r. is_bad r p h \<longrightarrow> is_bad (he_others env n r) p h"
    and "is_bad (hs_bad hs) p h"
  shows "is_bad (hs_bad (probe_entry env n t e hs)) p h"
proof (cases "e = (p, h)")
  case True
  with assms(1,3) show ?thesis by (simp add: probe_entry_unknown)
next
  case False
  have "is_bad (he_others env n (hs_bad hs)) p h" using assms(2,3) by blast
  with False probe_entry_cases [of env n t e hs] assms(3) show ?thesis by (auto simp: reg.mem_revive prod_eq_iff)
qed

lemma probe_entries_stay:
  assumes "probe_target (he_hash env) t (p, h) = None" and "\<forall>n r. is_bad r p h \<longrightarrow> is_bad (he_others env n r) p h"
  shows "is_bad (hs_bad hs) p h \<Longrightarrow> is_bad (hs_bad (probe_entries env n t es hs)) p h"
proof (induction es arbitrary: n hs)
  case (Cons e es)
  have "is_bad (hs_bad (probe_entry env n t e hs)) p h" by (rule probe_entry_stays [OF assms Cons.prems])
  then have "is_bad (hs_bad (probe_entries env (Suc n) t es (probe_entry env n t e hs))) p h" by (rule Cons.IH)
  then show ?case by simp
qed simp

text \<open>
  C36. A key that the loop does not know stays excluded. The loop works on the pools and providers it was started
  with; a key that was added later, or whose pool had no provider then, is never probed, so once
  excluded it is not used again until the gateway is restarted.
\<close>

theorem unknown_key_never_revived:
  assumes "is_bad bad p h"
    and "\<And>env. env \<in> set envs \<Longrightarrow> probe_target (he_hash env) t (p, h) = None"
    and "\<And>env n r. env \<in> set envs \<Longrightarrow> is_bad r p h \<Longrightarrow> is_bad (he_others env n r) p h"
  shows "is_bad (hs_bad (run_health_loop t envs bad credentials)) p h"
proof -
  have "is_bad (hs_bad (fold (health_round t) es hs)) p h" if "is_bad (hs_bad hs) p h" "set es \<subseteq> set envs" for es hs
    using that
  proof (induction es arbitrary: hs)
    case (Cons env es)
    then have known: "env \<in> set envs" "set es \<subseteq> set envs" and bad: "is_bad (hs_bad hs) p h" by simp_all
    have "is_bad (hs_bad (probe_entries env 0 t x hs)) p h" for x
      using probe_entries_stay [OF assms(2) [OF known(1)] _ bad] assms(3) [OF known(1)] by blast
    then have "is_bad (hs_bad (health_round t env hs)) p h" using bad by (simp add: health_round_def Let_def)
    with Cons.IH known(2) show ?case by simp
  qed simp
  with assms(1) show ?thesis by (simp add: run_health_loop_def)
qed

definition probe_env :: health_env where
  "probe_env =
     \<lparr>he_hash = (#) CHR ''h'', he_now_ms = (\<lambda>_. 0), he_token_net = (\<lambda>_ _ _. (Inl ''none'', 0)),
      he_up = (\<lambda>_. \<lparr>ue_http = \<lparr>lib_parse_json = (\<lambda>_. Inl []), lib_type_error = (\<lambda>_. []), lib_decode_text = id, lib_write_json = (\<lambda>_. [])\<rparr>,
         ue_json = \<lparr>jl_parse = (\<lambda>_. Inl []), jl_write = (\<lambda>_. [])\<rparr>, ue_now = 0, ue_uuid = [], ue_rand_hex = [],
         ue_show_status = (\<lambda>_. []), ue_serialize_error = []\<rparr>),
      he_net = (\<lambda>_ _. Inr \<lparr>hr_status = 200, hr_content_type = None, hr_chunks = []\<rparr>), he_others = (\<lambda>_ r. r)\<rparr>"

definition probe_sample_targets :: probe_targets where
  "probe_sample_targets =
     ([(''p'', two_keys)], [(''p'', \<lparr>pr_kind = OpenAi, pr_id = ''o'', pr_base_url = ''u'', pr_bad_status_codes = []\<rparr>)])"


theorem unknown_key_never_revived_witness:
  "is_bad (hs_bad (run_health_loop probe_sample_targets [probe_env, probe_env] (mark_bad ''p'' ''hx'' registry_new)
     (credential_runtime_new False))) ''p'' ''hx''"
proof -
  have "identity_hash (he_hash probe_env) (api_key k w) = CHR ''h'' # k" for k w
    by (simp add: identity_hash_def api_key_def nonempty_def identity_secret_def is_oauth_def probe_env_def)
  then have "probe_target (he_hash probe_env) probe_sample_targets (''p'', ''hx'') = None"
    by (simp add: probe_target_def probe_sample_targets_def two_keys_def)
  moreover have "is_bad (he_others probe_env n r) ''p'' ''hx''" if "is_bad r ''p'' ''hx''" for n r
    using that by (simp add: probe_env_def)
  moreover have "is_bad (mark_bad ''p'' ''hx'' registry_new) ''p'' ''hx''" by (simp add: reg.mem_mark)
  ultimately show ?thesis
    using unknown_key_never_revived [of "mark_bad ''p'' ''hx'' registry_new" "''p''" "''hx''" "[probe_env, probe_env]"
      probe_sample_targets "credential_runtime_new False"] by auto
qed

section \<open>The router follows the configuration\<close>

definition configured_route ::
  "u16 list \<Rightarrow> routing_snapshot \<Rightarrow> string \<Rightarrow> (provider \<times> pool_config \<times> string \<times> json option \<times> string option) result" where
  "configured_route codes sn model =
     (case sn of (providers, pools, routing) \<Rightarrow>
        (case dm_get routing model of
           None \<Rightarrow> Inl (NotFound (''model '' @ quoted model @ '' not found''))
         | Some r \<Rightarrow>
             let pool_id = routing_pool_id r
             in case find (\<lambda>cfg. pv_pool_id cfg = pool_id) (rev providers) of
                  None \<Rightarrow> Inl (Config (''pool '' @ quoted pool_id @ '' not found''))
                | Some cfg \<Rightarrow> Inr (provider_new (pv_kind cfg) cfg codes, the (dm_get pools pool_id), pool_id,
                     routing_default_params r, routing_upstream_model r)))"

definition serves :: "u16 list \<Rightarrow> rebuilder \<Rightarrow> routing_snapshot \<Rightarrow> bool" where
  "serves codes rb sn = (\<forall>model. resolve (rh_current (rb_handle rb)) model = configured_route codes sn model)"

lemma same_map_iff: "same_map m m' \<longleftrightarrow> (\<forall>k. dm_get m k = dm_get m' k)"
proof
  assume same: "same_map m m'"
  show "\<forall>k. dm_get m k = dm_get m' k"
  proof
    fix k
    show "dm_get m k = dm_get m' k"
    proof (cases "k \<in> fst ` set m \<or> k \<in> fst ` set m'")
      case True
      then show ?thesis using same by (auto simp: same_map_def list_all_iff)
    next
      case False
      then show ?thesis by (simp add: map_of_eq_None_iff [THEN iffD2])
    qed
  qed
qed (simp add: same_map_def list_all_iff)

lemma unchanged_route: "\<not> routing_changed (Some a) b \<Longrightarrow> configured_route codes a = configured_route codes b"
  by (cases a; cases b) (auto simp: routing_changed_def same_map_iff configured_route_def fun_eq_iff Let_def split: option.split)

lemma rebuilt_router:
  assumes "routes_ok sn"
  shows "\<exists>rt. rebuild_router boot_registry codes (sn_providers sn) (sn_pool_configs sn) (sn_model_routing sn) = Inr rt \<and>
    (\<forall>model. resolve rt model = configured_route codes (routing_of sn) model)"
  using router_resolves [of "sn_model_routing sn" "sn_pool_configs sn" codes "sn_providers sn"] assms
  by (auto simp: routes_ok_def configured_route_def routing_of_def)


text \<open>
  C38. A change that is undone at the wrong moment is served for ever. The task compares one reading of the
  configuration and builds the router from a later one; if the configuration changes between the two
  readings and is changed back before the next tick, the router keeps serving the configuration that
  was taken back, however many ticks follow.
\<close>

theorem stale_router_race:
  assumes "routing_changed (rb_last rb) (routing_of sn)" and "routes_ok undone"
  shows "serves codes ((rebuild_tick codes sn sn ^^ k) (rebuild_tick codes sn undone rb)) (routing_of undone)"
proof -
  let ?rb = "rebuild_tick codes sn undone rb"
  have first: "serves codes ?rb (routing_of undone)" "rb_last ?rb = Some (routing_of sn)"
    using rebuilt_router [OF assms(2), of codes] assms(1) by (auto simp: rebuild_tick_def serves_def handle_swap_def)
  have "\<not> routing_changed (Some (routing_of sn)) (routing_of sn)"
    by (simp add: routing_changed_def routing_of_def same_map_iff)
  then have "rebuild_tick codes sn sn ?rb = ?rb" unfolding rebuild_tick_def [of codes sn sn] by (simp add: first(2))
  then have "(rebuild_tick codes sn sn ^^ k) ?rb = ?rb" by (induction k) simp_all
  then show ?thesis using first(1) by simp
qed

definition routed_snapshot :: config_snapshot where
  "routed_snapshot = snapshot_default\<lparr>sn_pool_configs := [(''p'', two_keys)], sn_model_routing := [(''m'', Simple ''p'')]\<rparr>"

definition empty_rebuilder :: rebuilder where
  "empty_rebuilder = \<lparr>rb_last = None, rb_handle = \<lparr>rh_current = \<lparr>rt_model_map = [], rt_providers = []\<rparr>\<rparr>\<rparr>"

lemma routed_snapshot_ok: "routes_ok routed_snapshot"
  by (simp add: routes_ok_def routed_snapshot_def dm_wf_def)


theorem stale_router_race_witness:
  "serves [] ((rebuild_tick [] snapshot_default snapshot_default ^^ 100) (rebuild_tick [] snapshot_default routed_snapshot empty_rebuilder))
     (routing_of routed_snapshot) \<and> dm_get (sn_model_routing snapshot_default) ''m'' = None"
proof -
  have "routing_changed (rb_last empty_rebuilder) (routing_of snapshot_default)"
    by (simp add: routing_changed_def empty_rebuilder_def)
  from stale_router_race [OF this routed_snapshot_ok] show ?thesis by (simp add: snapshot_default_def)
qed

end
