(* ===== verification/Model_Import.thy ===== *)
theory Model_Import
  imports Config_Store
begin

text \<open>
  The import of a model catalogue into the model registry (\<open>model_import.rs\<close>): reading the catalogue,
  choosing for every route the best entry and the provider it belongs to, and writing the registry
  in one transaction. The HTTP client, the file system and the JSON library are parameters, and any
  statement may fail.
\<close>

section \<open>Reading a catalogue\<close>

record import_counts =
  ic_new :: nat
  ic_skipped :: nat
  ic_conflicts :: nat
  ic_failed :: nat

record import_report =
  ir_counts :: import_counts
  ir_reasons :: "string list"

record candidate =
  cd_id :: string
  cd_provider :: string
  cd_value :: json

definition empty_report :: import_report where
  "empty_report = \<lparr>ir_counts = \<lparr>ic_new = 0, ic_skipped = 0, ic_conflicts = 0, ic_failed = 0\<rparr>, ir_reasons = []\<rparr>"

definition source_id :: "string \<Rightarrow> json \<Rightarrow> string" where
  "source_id model_key model =
     (case Option.bind (jget model ''id'') as_str of
        Some s \<Rightarrow> if trim s \<noteq> [] then s else model_key
      | None \<Rightarrow> model_key)"

fun collect_models ::
  "string \<Rightarrow> json_map \<Rightarrow> (string \<times> string) list \<times> candidate list \<Rightarrow> ((string \<times> string) list \<times> candidate list) result" where
  "collect_models provider [] acc = Inr acc"
| "collect_models provider ((model_key, model) # models) (seen, candidates) =
     (let i = source_id model_key model
      in if trim i = [] then Inl (Config ''model id must be a non-empty string'')
         else if (provider, i) \<in> set seen
         then Inl (Config (''duplicate source model id '' @ quoted i @ '' for provider '' @ quoted provider))
         else collect_models provider models
           ((provider, i) # seen, candidates @ [\<lparr>cd_id = i, cd_provider = provider, cd_value = model\<rparr>]))"

fun collect_candidates ::
  "json_map \<Rightarrow> (string \<times> string) list \<times> candidate list \<Rightarrow> ((string \<times> string) list \<times> candidate list) result" where
  "collect_candidates [] acc = Inr acc"
| "collect_candidates ((provider, grp) # providers) acc =
     (case jget grp ''models'' of
        None \<Rightarrow> collect_candidates providers acc
      | Some models_value \<Rightarrow>
     (case as_object models_value of
        None \<Rightarrow> Inl (Config (''provider '' @ quoted provider @ '' models must be an object''))
      | Some models \<Rightarrow>
     (case collect_models provider models acc of
        Inl e \<Rightarrow> Inl e
      | Inr acc' \<Rightarrow> collect_candidates providers acc')))"

section \<open>Choosing an entry\<close>

definition norm_str :: "string \<Rightarrow> string" where
  "norm_str s = filter (\<lambda>c. c \<notin> set ''-_ '') (to_ascii_lowercase s)"

definition ends_with :: "string \<Rightarrow> string \<Rightarrow> bool" where
  "ends_with s p = (strip_suffix p s \<noteq> None)"

definition str_contains :: "string \<Rightarrow> string \<Rightarrow> bool" where
  "str_contains s p = (find_sub p s \<noteq> None)"

definition model_id_matches :: "string \<Rightarrow> string \<Rightarrow> bool" where
  "model_id_matches destination catalog_id =
     (destination = catalog_id \<or> ends_with destination (''/'' @ catalog_id) \<or>
      ends_with catalog_id (''/'' @ destination) \<or> str_contains destination catalog_id)"

definition compatible_provider :: "string \<Rightarrow> string \<Rightarrow> string \<Rightarrow> bool" where
  "compatible_provider source configured_id configured_kind =
     (let s = norm_str source; i = norm_str configured_id; kind = norm_str configured_kind
      in s = i \<or> s = kind \<or>
         (s, kind) \<in> set [(''xai'', ''openai''), (''xai'', ''azure''), (''deepseek'', ''openai''), (''google'', ''gemini''),
           (''openai'', ''azure''), (''azureopenai'', ''azure''), (''azureopenai'', ''openai''), (''zai'', ''openai''),
           (''zhipuai'', ''openai''), (''zhipu'', ''openai'')])"

definition canonical_catalog_rank :: "string \<Rightarrow> int" where
  "canonical_catalog_rank provider =
     (let p = norm_str provider
      in if p \<in> set [''openai'', ''anthropic'', ''google'', ''xai'', ''deepseek'', ''mistral''] then 15
         else if p = ''zai'' then 14
         else if p = ''zhipuai'' then 13
         else if p = ''zhipu'' then 12
         else if p = ''groq'' then 11
         else 0)"

definition catalog_score :: "string \<Rightarrow> candidate \<Rightarrow> (string \<times> string) list \<Rightarrow> int" where
  "catalog_score destination candidate provider_rows =
     (if cd_id candidate = destination then 100
      else if ends_with destination (''/'' @ cd_id candidate) \<or> ends_with (cd_id candidate) (''/'' @ destination) then 80
      else if str_contains destination (cd_id candidate) then 40 + int (min (length (cd_id candidate)) 20)
      else 0) +
     (if list_ex (\<lambda>(i, kind). compatible_provider (cd_provider candidate) i kind) provider_rows then 20 else 0) +
     canonical_catalog_rank (cd_provider candidate)"

datatype ordering = Less | Equal | Greater

definition cmp :: "'a :: linorder \<Rightarrow> 'a \<Rightarrow> ordering" where
  "cmp x y = (if x < y then Less else if x = y then Equal else Greater)"

fun then_with :: "ordering \<Rightarrow> ordering \<Rightarrow> ordering" where
  "then_with Equal o2 = o2"
| "then_with o1 _ = o1"

definition has_cost :: "candidate \<Rightarrow> bool" where
  "has_cost c = (jget (cd_value c) ''cost'' \<noteq> None)"

definition tie_break :: "candidate \<Rightarrow> candidate \<Rightarrow> ordering" where
  "tie_break a b =
     then_with (cmp (has_cost b) (has_cost a))
       (then_with (cmp (cd_provider a) (cd_provider b)) (cmp (cd_id a) (cd_id b)))"

definition pick_step ::
  "string \<Rightarrow> (string \<times> string) list \<Rightarrow> candidate \<Rightarrow> (candidate \<times> int) option \<Rightarrow> (candidate \<times> int) option" where
  "pick_step destination provider_rows candidate best =
     (if \<not> model_id_matches destination (cd_id candidate) then best
      else let score = catalog_score destination candidate provider_rows
           in case best of
                None \<Rightarrow> Some (candidate, score)
              | Some (best_candidate, best_score) \<Rightarrow>
                  (case cmp score best_score of
                     Greater \<Rightarrow> Some (candidate, score)
                   | Less \<Rightarrow> best
                   | Equal \<Rightarrow>
                       (case tie_break candidate best_candidate of
                          Less \<Rightarrow> Some (candidate, score)
                        | _ \<Rightarrow> best)))"

definition pick_catalog_match :: "candidate list \<Rightarrow> string \<Rightarrow> (string \<times> string) list \<Rightarrow> candidate option" where
  "pick_catalog_match candidates destination provider_rows =
     map_option fst (fold (pick_step destination provider_rows) candidates None)"

definition pick_local_provider :: "(string \<times> string) list \<Rightarrow> string \<Rightarrow> (string \<times> string) option" where
  "pick_local_provider provider_rows catalog_provider =
     (case provider_rows of
        [r] \<Rightarrow> Some r
      | _ \<Rightarrow>
          (case filter (\<lambda>(i, kind). compatible_provider catalog_provider i kind) provider_rows of
             [r] \<Rightarrow> Some r
           | _ \<Rightarrow> None))"

section \<open>Mapping an entry to a registry row\<close>

definition positive_i64 :: "json option \<Rightarrow> string \<Rightarrow> string + int" where
  "positive_i64 v field =
     (case Option.bind v as_i64 of
        None \<Rightarrow> Inl (field @ '' must be an integer'')
      | Some n \<Rightarrow> if n \<le> 0 then Inl (field @ '' must be positive'') else Inr n)"

definition price_of :: "json \<Rightarrow> string \<Rightarrow> string + rat" where
  "price_of cost field =
     (case Option.bind (jget cost field) as_f64 of
        None \<Rightarrow> Inl (''cost.'' @ field @ '' must be a number'')
      | Some n \<Rightarrow> if n < 0 then Inl (''cost.'' @ field @ '' invalid'') else Inr n)"

definition sensitive :: "string \<Rightarrow> bool" where
  "sensitive k =
     list_ex (str_contains (norm_str k)) [''key'', ''token'', ''secret'', ''password'', ''credential'', ''authorization'']"

fun sanitize :: "json \<Rightarrow> json" where
  "sanitize (JObj m) = JObj (map (\<lambda>(k, v). (k, sanitize v)) (filter (\<lambda>(k, _). \<not> sensitive k) m))"
| "sanitize (JArr a) = JArr (map sanitize a)"
| "sanitize v = v"

definition put_wire_level :: "json \<Rightarrow> json_map \<Rightarrow> json_map" where
  "put_wire_level value out =
     (case as_str value of
        None \<Rightarrow> out
      | Some level \<Rightarrow>
          if trim level = [] then out
          else case canonical_thinking_level level of
                 None \<Rightarrow> out
               | Some canonical \<Rightarrow> obj_insert canonical (JStr level) out)"

definition thinking_level_map :: "json \<Rightarrow> json option" where
  "thinking_level_map model =
     (case Option.bind (jget model ''reasoning_options'') as_array of
        None \<Rightarrow> None
      | Some options \<Rightarrow>
     (case find (\<lambda>opt. Option.bind (jget opt ''type'') as_str = Some ''effort'') options of
        None \<Rightarrow> None
      | Some effort \<Rightarrow>
     (case Option.bind (jget effort ''values'') as_array of
        None \<Rightarrow> None
      | Some values \<Rightarrow>
          let out = fold put_wire_level values [] in if out = [] then None else Some (JObj out))))"

text \<open>The imported columns: name, vision, tools, JSON mode, context, output, prices, capabilities.\<close>

type_synonym mapped_model =
  "string \<times> bool \<times> bool \<times> bool \<times> int \<times> int \<times> rat option \<times> rat option \<times> string"

definition safe_metadata :: "json \<Rightarrow> json" where
  "safe_metadata model =
     (case sanitize model of
        JObj m \<Rightarrow>
          let m' = obj_remove ''name'' (obj_remove ''id'' m)
          in JObj (if map_of m' ''thinkingLevelMap'' \<noteq> None then m'
                   else case thinking_level_map model of
                          None \<Rightarrow> m'
                        | Some levels \<Rightarrow> obj_insert ''thinkingLevelMap'' levels m')
      | v \<Rightarrow> v)"

definition capabilities_of :: "string \<Rightarrow> json \<Rightarrow> json" where
  "capabilities_of provider_id model =
     JObj [(''metadata'', safe_metadata model),
           (''reasoning'', case jget model ''reasoning'' of Some v \<Rightarrow> v | None \<Rightarrow> JNull),
           (''source_provider'', JStr provider_id)]"

definition accepts_images :: "json \<Rightarrow> bool" where
  "accepts_images model =
     (case Option.bind (Option.bind (jget model ''modalities'') (\<lambda>m. jget m ''input'')) as_array of
        Some inputs \<Rightarrow> list_ex (\<lambda>v. as_str v = Some ''image'') inputs
      | None \<Rightarrow> False)"

definition flag_of :: "json \<Rightarrow> string \<Rightarrow> bool" where
  "flag_of model k = (case Option.bind (jget model k) as_bool of Some b \<Rightarrow> b | None \<Rightarrow> False)"

definition prices_of :: "json \<Rightarrow> string + rat option \<times> rat option" where
  "prices_of model =
     (case jget model ''cost'' of
        None \<Rightarrow> Inr (None, None)
      | Some cost \<Rightarrow>
          (case price_of cost ''input'' of
             Inl e \<Rightarrow> Inl e
           | Inr ip \<Rightarrow> (case price_of cost ''output'' of Inl e \<Rightarrow> Inl e | Inr op \<Rightarrow> Inr (Some ip, Some op))))"

definition map_model :: "(json \<Rightarrow> string option) \<Rightarrow> string \<Rightarrow> json \<Rightarrow> string + mapped_model" where
  "map_model jwrite provider_id model =
     (case Option.bind (jget model ''name'') as_str of
        None \<Rightarrow> Inl ''model name must be non-empty''
      | Some name \<Rightarrow>
     if trim name = [] then Inl ''model name must be non-empty''
     else (case Option.bind (jget model ''limit'') as_object of
        None \<Rightarrow> Inl ''limit must be an object''
      | Some limit \<Rightarrow>
     (case positive_i64 (map_of limit ''context'') ''limit.context'' of
        Inl e \<Rightarrow> Inl e
      | Inr context \<Rightarrow>
     (case positive_i64 (map_of limit ''output'') ''limit.output'' of
        Inl e \<Rightarrow> Inl e
      | Inr outp \<Rightarrow>
     (case prices_of model of
        Inl e \<Rightarrow> Inl e
      | Inr (ip, op) \<Rightarrow>
     (case jwrite (capabilities_of provider_id model) of
        None \<Rightarrow> Inl ''invalid capabilities JSON''
      | Some caps \<Rightarrow>
          Inr (name, accepts_images model, flag_of model ''tool_call'', flag_of model ''structured_output'',
            context, outp, ip, op, caps)))))))"

section \<open>The import\<close>

datatype import_stmt = Load_routes | Begin_import | Find_pool nat | Find_providers nat | Find_model nat | Store_model nat | Commit_import

record import_env =
  im_parse :: "string \<Rightarrow> string + json"
  im_jwrite :: "json \<Rightarrow> string option"
  im_fault :: "import_stmt \<Rightarrow> string option"
  im_error_text :: "sql_error \<Rightarrow> string"
  im_read_file :: "string \<Rightarrow> string + string"
  im_http_client :: "string option"
  im_http_get :: "string \<Rightarrow> string + u16 \<times> (string + string)"
  im_show_status :: "u16 \<Rightarrow> string"

definition db_err :: "import_env \<Rightarrow> sql_error \<Rightarrow> app_error" where
  "db_err env e = Internal (''model import database error: '' @ im_error_text env e)"

text \<open>A skipped route or one in conflict is counted with its reason.\<close>

definition note_skipped :: "string \<Rightarrow> string \<Rightarrow> import_report \<Rightarrow> import_report" where
  "note_skipped destination why r =
     r\<lparr>ir_counts := (ir_counts r)\<lparr>ic_skipped := ic_skipped (ir_counts r) + 1\<rparr>,
       ir_reasons := ir_reasons r @ [destination @ '': '' @ why]\<rparr>"

definition note_conflict :: "string \<Rightarrow> string \<Rightarrow> import_report \<Rightarrow> import_report" where
  "note_conflict destination why r =
     r\<lparr>ir_counts := (ir_counts r)\<lparr>ic_conflicts := ic_conflicts (ir_counts r) + 1\<rparr>,
       ir_reasons := ir_reasons r @ [destination @ '': '' @ why]\<rparr>"

definition note_new :: "import_report \<Rightarrow> import_report" where
  "note_new r = r\<lparr>ir_counts := (ir_counts r)\<lparr>ic_new := ic_new (ir_counts r) + 1\<rparr>\<rparr>"

definition catalog_name :: "routing_row \<Rightarrow> string" where
  "catalog_name r =
     (case nonempty (map_option trim (rr_upstream_model r)) of Some s \<Rightarrow> s | None \<Rightarrow> rr_logical_model r)"

definition pool_available :: "database \<Rightarrow> string \<Rightarrow> bool" where
  "pool_available db pool_id = list_ex (\<lambda>p. pl_id p = pool_id \<and> pl_enabled p) (db_pools db)"

definition provider_rows_of :: "database \<Rightarrow> string \<Rightarrow> (string \<times> string) list" where
  "provider_rows_of db pool_id =
     map (\<lambda>p. (vr_id p, vr_kind p)) (filter (\<lambda>p. vr_pool_id p = pool_id \<and> vr_enabled p) (db_providers db))"

definition mapped_row :: "string \<Rightarrow> string \<times> string \<Rightarrow> mapped_model \<Rightarrow> int \<Rightarrow> model_row" where
  "mapped_row destination provider mapped enabled =
     (case (provider, mapped) of
        ((provider_id, provider_kind), (name, vision, tools, json_mode, ctx, outp, ip, op, caps)) \<Rightarrow>
          \<lparr>mr_id = destination, mr_display_name = name, mr_provider_kind = provider_kind,
           mr_provider_config_id = Some provider_id, mr_supports_vision = as_i32 vision,
           mr_supports_tool_calling = as_i32 tools, mr_supports_json_mode = as_i32 json_mode,
           mr_max_context_tokens = ctx, mr_max_output_tokens = outp, mr_input_price = ip, mr_output_price = op,
           mr_capabilities_json = Some caps, mr_enabled = enabled\<rparr>)"

text \<open>An existing row keeps whether it is enabled; a new row is.\<close>

definition store_model :: "string \<Rightarrow> string \<times> string \<Rightarrow> mapped_model \<Rightarrow> database \<Rightarrow> sql_error + database" where
  "store_model destination provider mapped db =
     (if list_ex (\<lambda>m. mr_id m = destination) (db_models db)
      then Inr (db\<lparr>db_models := map (\<lambda>m. if mr_id m = destination
             then mapped_row destination provider mapped (mr_enabled m) else m) (db_models db)\<rparr>)
      else insert_model (mapped_row destination provider mapped 1) db)"

definition import_row ::
  "import_env \<Rightarrow> bool \<Rightarrow> candidate list \<Rightarrow> nat \<Rightarrow> routing_row \<Rightarrow> database \<times> import_report \<Rightarrow> (database \<times> import_report) result" where
  "import_row env overwrite candidates n row st =
     (case st of (db, report) \<Rightarrow>
      let destination = rr_logical_model row in
      case im_fault env (Find_pool n) of
        Some e \<Rightarrow> Inl (db_err env (Fault e))
      | None \<Rightarrow>
      if \<not> pool_available db (rr_pool_id row)
      then Inr (db, note_skipped destination ''pool unavailable'' report)
      else case im_fault env (Find_providers n) of
        Some e \<Rightarrow> Inl (db_err env (Fault e))
      | None \<Rightarrow>
      let provider_rows = provider_rows_of db (rr_pool_id row) in
      if provider_rows = []
      then Inr (db, note_skipped destination ''provider unavailable'' report)
      else case pick_catalog_match candidates (catalog_name row) provider_rows of
        None \<Rightarrow> Inr (db, note_skipped destination ''no associated metadata'' report)
      | Some source \<Rightarrow>
     (case pick_local_provider provider_rows (cd_provider source) of
        None \<Rightarrow> Inr (db, note_conflict destination ''provider association is not unambiguous'' report)
      | Some provider \<Rightarrow>
     (case map_model (im_jwrite env) (fst provider) (cd_value source) of
        Inl e \<Rightarrow> Inl (Config (destination @ '': '' @ e))
      | Inr mapped \<Rightarrow>
     (case im_fault env (Find_model n) of
        Some e \<Rightarrow> Inl (db_err env (Fault e))
      | None \<Rightarrow>
      if list_ex (\<lambda>m. mr_id m = destination) (db_models db) \<and> \<not> overwrite
      then Inr (db, note_conflict destination ''protected existing record'' report)
      else case im_fault env (Store_model n) of
        Some e \<Rightarrow> Inl (db_err env (Fault e))
      | None \<Rightarrow>
     (case store_model destination provider mapped db of
        Inl e \<Rightarrow> Inl (db_err env e)
      | Inr db' \<Rightarrow> Inr (db', note_new report))))))"

fun import_rows ::
  "import_env \<Rightarrow> bool \<Rightarrow> candidate list \<Rightarrow> nat \<Rightarrow> routing_row list \<Rightarrow> database \<times> import_report \<Rightarrow>
   (database \<times> import_report) result" where
  "import_rows env overwrite candidates n [] st = Inr st"
| "import_rows env overwrite candidates n (row # rows) st =
     (case import_row env overwrite candidates n row st of
        Inl e \<Rightarrow> Inl e
      | Inr st' \<Rightarrow> import_rows env overwrite candidates (Suc n) rows st')"

definition import_json :: "import_env \<Rightarrow> string \<Rightarrow> bool \<Rightarrow> database \<Rightarrow> import_report result \<times> database" where
  "import_json env doc overwrite db =
     (case im_parse env doc of
        Inl e \<Rightarrow> (Inl (Config (''invalid model metadata JSON: '' @ e)), db)
      | Inr doc_root \<Rightarrow>
     (case as_object doc_root of
        None \<Rightarrow> (Inl (Config ''model metadata root must be an object''), db)
      | Some providers \<Rightarrow>
     (case collect_candidates providers ([], []) of
        Inl e \<Rightarrow> (Inl e, db)
      | Inr (_, candidates) \<Rightarrow>
     (case im_fault env Load_routes of
        Some e \<Rightarrow> (Inl (Internal (''load routing config: '' @ im_error_text env (Fault e))), db)
      | None \<Rightarrow>
     (case im_fault env Begin_import of
        Some e \<Rightarrow> (Inl (Internal (''begin model import: '' @ im_error_text env (Fault e))), db)
      | None \<Rightarrow>
     (case import_rows env overwrite candidates 0 (filter rr_enabled (db_routing db)) (db, empty_report) of
        Inl e \<Rightarrow> (Inl e, db)
      | Inr (db', report) \<Rightarrow>
     (case im_fault env Commit_import of
        Some e \<Rightarrow> (Inl (Internal (''commit model import: '' @ im_error_text env (Fault e))), db)
      | None \<Rightarrow> (Inr report, db'))))))))"

section \<open>Sources of a catalogue\<close>

definition default_source :: string where
  "default_source = ''https://models.dev/api.json''"

definition is_remote_source :: "string \<Rightarrow> bool" where
  "is_remote_source source = (let s = trim source in starts_with s ''https://'' \<or> starts_with s ''http://'')"

definition fetch_catalog :: "import_env \<Rightarrow> string \<Rightarrow> string result" where
  "fetch_catalog env url =
     (case im_http_client env of
        Some e \<Rightarrow> Inl (Internal (''model catalog HTTP client: '' @ e))
      | None \<Rightarrow>
     (case im_http_get env url of
        Inl e \<Rightarrow> Inl (Config (''cannot fetch model catalog: '' @ e))
      | Inr (status, body) \<Rightarrow>
          if \<not> (200 \<le> status \<and> status < 300)
          then Inl (Config (''cannot fetch model catalog: HTTP '' @ im_show_status env status))
          else case body of
                 Inl e \<Rightarrow> Inl (Config (''cannot read model catalog body: '' @ e))
               | Inr t \<Rightarrow> Inr t))"

definition import_file :: "import_env \<Rightarrow> string \<Rightarrow> bool \<Rightarrow> database \<Rightarrow> import_report result \<times> database" where
  "import_file env path overwrite db =
     (case im_read_file env path of
        Inl e \<Rightarrow> (Inl (Config (''cannot read model metadata source: '' @ e)), db)
      | Inr t \<Rightarrow> import_json env t overwrite db)"

definition import_source :: "import_env \<Rightarrow> string \<Rightarrow> bool \<Rightarrow> database \<Rightarrow> import_report result \<times> database" where
  "import_source env source overwrite db =
     (if is_remote_source source
      then case fetch_catalog env source of
             Inl e \<Rightarrow> (Inl e, db)
           | Inr t \<Rightarrow> import_json env t overwrite db
      else import_file env source overwrite db)"

definition import_default :: "import_env \<Rightarrow> bool \<Rightarrow> database \<Rightarrow> import_report result \<times> database" where
  "import_default env overwrite db = import_source env default_source overwrite db"

section \<open>The chosen entry\<close>

definition candidate_key :: "candidate \<Rightarrow> string \<times> string" where
  "candidate_key c = (cd_provider c, cd_id c)"

lemma collect_models_distinct:
  "collect_models provider models (seen, cs) = Inr (seen', cs') \<Longrightarrow> set seen = candidate_key ` set cs \<Longrightarrow>
     distinct (map candidate_key cs) \<Longrightarrow> set seen' = candidate_key ` set cs' \<and> distinct (map candidate_key cs')"
proof (induction provider models "(seen, cs)" arbitrary: seen cs rule: collect_models.induct)
  case (2 provider model_key model models seen cs)
  then show ?case by (auto simp: Let_def candidate_key_def split: if_splits)
qed simp

lemma collect_candidates_distinct:
  "collect_candidates providers (seen, cs) = Inr (seen', cs') \<Longrightarrow> set seen = candidate_key ` set cs \<Longrightarrow>
     distinct (map candidate_key cs) \<Longrightarrow> distinct (map candidate_key cs')"
proof (induction providers "(seen, cs)" arbitrary: seen cs rule: collect_candidates.induct)
  case (2 provider grp providers)
  from 2(3) show ?case
    using 2(1) [OF _ _ 2(4,5)] 2(2) collect_models_distinct [OF _ 2(4,5)]
    by (fastforce split: option.splits sum.splits)
qed simp

text \<open>Entries in order of preference: score, cost metadata, provider and identifier.\<close>

definition preferred :: "string \<Rightarrow> (string \<times> string) list \<Rightarrow> candidate \<Rightarrow> candidate \<Rightarrow> bool" where
  "preferred destination provider_rows a b =
     (let sa = catalog_score destination a provider_rows; sb = catalog_score destination b provider_rows
      in sb < sa \<or> sa = sb \<and>
         (has_cost a \<and> \<not> has_cost b \<or> has_cost a = has_cost b \<and>
          (cd_provider a < cd_provider b \<or> cd_provider a = cd_provider b \<and> cd_id a < cd_id b)))"

lemma preferred_total:
  "candidate_key a \<noteq> candidate_key b \<Longrightarrow> preferred d rs a b \<or> preferred d rs b a"
  by (auto simp: preferred_def Let_def candidate_key_def)

lemma preferred_asym: "preferred d rs a b \<Longrightarrow> \<not> preferred d rs b a"
  by (auto simp: preferred_def Let_def)

lemma preferred_trans: "preferred d rs a b \<Longrightarrow> preferred d rs b c \<Longrightarrow> preferred d rs a c"
  by (auto simp: preferred_def Let_def)

definition pick_entry :: "string \<Rightarrow> (string \<times> string) list \<Rightarrow> candidate \<Rightarrow> candidate option \<Rightarrow> candidate option" where
  "pick_entry d rs c best =
     (if \<not> model_id_matches d (cd_id c) then best
      else case best of None \<Rightarrow> Some c | Some b \<Rightarrow> if preferred d rs c b then Some c else Some b)"

lemma pick_entry_simps:
  "pick_entry d rs c None = (if model_id_matches d (cd_id c) then Some c else None)"
  "pick_entry d rs c (Some b) = (if model_id_matches d (cd_id c) \<and> preferred d rs c b then Some c else Some b)"
  by (simp_all add: pick_entry_def)

abbreviation scored :: "string \<Rightarrow> (string \<times> string) list \<Rightarrow> candidate option \<Rightarrow> (candidate \<times> int) option" where
  "scored d rs \<equiv> map_option (\<lambda>c. (c, catalog_score d c rs))"

lemma pick_step_entry: "pick_step d rs c (scored d rs best) = scored d rs (pick_entry d rs c best)"
  by (cases best) (auto simp: pick_step_def pick_entry_def preferred_def tie_break_def cmp_def Let_def)

lemma pick_catalog_match_entry: "pick_catalog_match cs d rs = fold (pick_entry d rs) cs None"
proof -
  have "fold (pick_step d rs) cs (scored d rs best) = scored d rs (fold (pick_entry d rs) cs best)" for best
    by (induction cs arbitrary: best) (simp_all add: pick_step_entry)
  from this [of None] show ?thesis
    by (simp add: pick_catalog_match_def option.map_comp comp_def option.map_ident)
qed

lemma pick_best:
  assumes "distinct (map candidate_key cs)"
  shows "case fold (pick_entry d rs) cs None of
      None \<Rightarrow> \<forall>c\<in>set cs. \<not> model_id_matches d (cd_id c)
    | Some b \<Rightarrow> b \<in> set cs \<and> model_id_matches d (cd_id b) \<and>
        (\<forall>c\<in>set cs. model_id_matches d (cd_id c) \<longrightarrow> c = b \<or> preferred d rs b c)"
  using assms
proof (induction cs rule: rev_induct)
  case (snoc c cs)
  have "candidate_key c \<notin> candidate_key ` set cs" using snoc.prems by simp
  then have new: "candidate_key b \<noteq> candidate_key c" if "b \<in> set cs" for b using that by (metis image_eqI)
  show ?case
  proof (cases "fold (pick_entry d rs) cs None")
    case None
    then show ?thesis using snoc by (auto simp: pick_entry_simps)
  next
    case (Some b)
    then have b: "b \<in> set cs" "model_id_matches d (cd_id b)"
      "\<forall>c\<in>set cs. model_id_matches d (cd_id c) \<longrightarrow> c = b \<or> preferred d rs b c" using snoc by simp_all
    then show ?thesis
      using Some preferred_total [OF new [OF b(1)], of d rs] preferred_trans [of d rs c b]
      by (auto simp: pick_entry_simps)
  qed
qed simp


lemma chosen:
  assumes "distinct (map candidate_key cs)"
  shows "(pick_catalog_match cs d rs = None) = (\<forall>c\<in>set cs. \<not> model_id_matches d (cd_id c))"
    and "(pick_catalog_match cs d rs = Some b) =
      (b \<in> set cs \<and> model_id_matches d (cd_id b) \<and>
       (\<forall>c\<in>set cs. model_id_matches d (cd_id c) \<longrightarrow> c = b \<or> preferred d rs b c))"
  using pick_best [OF assms, of d rs] preferred_asym [of d rs]
  by (auto simp: pick_catalog_match_entry split: option.splits)

text \<open>
  C12. The entry chosen for a route is the best one of the catalogue, by score, presence of prices,
  provider and identifier. It therefore does not depend on the order in which the catalogue lists
  its entries, and there is one whenever some entry matches the model.
\<close>

theorem catalog_match_best:
  assumes "collect_candidates providers ([], []) = Inr (seen, cs)"
  shows "(pick_catalog_match cs d rs = None) = (\<forall>c\<in>set cs. \<not> model_id_matches d (cd_id c)) \<and>
    (\<forall>b. (pick_catalog_match cs d rs = Some b) =
      (b \<in> set cs \<and> model_id_matches d (cd_id b) \<and>
       (\<forall>c\<in>set cs. model_id_matches d (cd_id c) \<longrightarrow> c = b \<or> preferred d rs b c))) \<and>
    (\<forall>cs'. set cs' = set cs \<longrightarrow> distinct (map candidate_key cs') \<longrightarrow>
      pick_catalog_match cs' d rs = pick_catalog_match cs d rs)"
proof -
  have cs: "distinct (map candidate_key cs)" using collect_candidates_distinct [OF assms] by simp
  moreover have "pick_catalog_match cs' d rs = pick_catalog_match cs d rs"
    if "set cs' = set cs" "distinct (map candidate_key cs')" for cs'
    using chosen [OF cs, where d = d and rs = rs] chosen [OF that(2), where d = d and rs = rs] that(1)
    by (cases "pick_catalog_match cs d rs") auto
  ultimately show ?thesis using chosen by blast
qed

section \<open>Repeated imports\<close>

abbreviation calm :: "import_env \<Rightarrow> import_env" where
  "calm env \<equiv> env\<lparr>im_fault := \<lambda>_. None\<rparr>"

text \<open>What the catalogue gives for a route; it depends on the pools and providers only.\<close>

definition planned :: "import_env \<Rightarrow> candidate list \<Rightarrow> database \<Rightarrow> routing_row \<Rightarrow> ((string \<times> string) \<times> mapped_model) option result" where
  "planned env cs db row =
     (let provider_rows = provider_rows_of db (rr_pool_id row) in
      if \<not> pool_available db (rr_pool_id row) \<or> provider_rows = [] then Inr None
      else case pick_catalog_match cs (catalog_name row) provider_rows of
        None \<Rightarrow> Inr None
      | Some source \<Rightarrow>
     (case pick_local_provider provider_rows (cd_provider source) of
        None \<Rightarrow> Inr None
      | Some provider \<Rightarrow>
     (case map_model (im_jwrite env) (fst provider) (cd_value source) of
        Inl e \<Rightarrow> Inl (Config (rr_logical_model row @ '': '' @ e))
      | Inr mapped \<Rightarrow> Inr (Some (provider, mapped)))))"

abbreviation listed :: "model_row list \<Rightarrow> string \<Rightarrow> bool" where
  "listed ms i \<equiv> list_ex (\<lambda>m. mr_id m = i) ms"

definition put_row :: "string \<Rightarrow> (string \<times> string) \<times> mapped_model \<Rightarrow> model_row list \<Rightarrow> model_row list" where
  "put_row i pm ms =
     (if listed ms i then map (\<lambda>m. if mr_id m = i then mapped_row i (fst pm) (snd pm) (mr_enabled m) else m) ms
      else ms @ [mapped_row i (fst pm) (snd pm) 1])"

definition stores :: "bool \<Rightarrow> ((string \<times> string) \<times> mapped_model) option \<Rightarrow> routing_row \<Rightarrow> model_row list \<Rightarrow> bool" where
  "stores overwrite pm row ms = (pm \<noteq> None \<and> (overwrite \<or> \<not> listed ms (rr_logical_model row)))"

lemma mr_id_mapped_row [simp]: "mr_id (mapped_row i p m e) = i" "mr_enabled (mapped_row i p m e) = e"
  by (simp_all add: mapped_row_def split: prod.split)

lemma import_row_calm: "import_row env ow cs n row st = Inr st' \<Longrightarrow> import_row (calm env) ow cs n row st = Inr st'"
  by (auto simp: import_row_def Let_def split: prod.splits option.splits if_splits sum.splits)

lemma import_rows_calm: "import_rows env ow cs n rows st = Inr st' \<Longrightarrow> import_rows (calm env) ow cs n rows st = Inr st'"
  by (induction rows arbitrary: n st) (auto dest: import_row_calm split: sum.splits)

lemma store_model_put:
  "store_model i p m db = Inr (db\<lparr>db_models := put_row i (p, m) (db_models db)\<rparr>)"
  by (auto simp: store_model_def put_row_def insert_model_def list_ex_iff)

definition put_planned ::
  "bool \<Rightarrow> (routing_row \<Rightarrow> ((string \<times> string) \<times> mapped_model) option) \<Rightarrow> routing_row \<Rightarrow> model_row list \<Rightarrow> model_row list" where
  "put_planned ow plan row ms =
     (if stores ow (plan row) row ms then put_row (rr_logical_model row) (the (plan row)) ms else ms)"

lemma import_row_planned:
  "case planned env cs db row of
     Inl e \<Rightarrow> import_row (calm env) ow cs n row (db, r) = Inl e
   | Inr pm \<Rightarrow>
       (case import_row (calm env) ow cs n row (db, r) of
          Inl _ \<Rightarrow> False
        | Inr (db', r') \<Rightarrow>
            db' = (if stores ow pm row (db_models db)
                   then db\<lparr>db_models := put_row (rr_logical_model row) (the pm) (db_models db)\<rparr> else db) \<and>
            ic_new (ir_counts r') = ic_new (ir_counts r) + (if stores ow pm row (db_models db) then 1 else 0))"
  unfolding import_row_def planned_def Let_def
  by (simp add: stores_def store_model_put note_skipped_def note_conflict_def note_new_def split: option.split sum.split) blast

lemma import_row_put:
  assumes "planned env cs db row = Inr (plan row)"
  obtains r' where
    "import_row (calm env) ow cs n row (db, r) = Inr (db\<lparr>db_models := put_planned ow plan row (db_models db)\<rparr>, r')"
    "ic_new (ir_counts r') = ic_new (ir_counts r) + (if stores ow (plan row) row (db_models db) then 1 else 0)"
  using import_row_planned [where env = env and cs = cs and db = db and row = row and ow = ow and n = n and r = r] assms
  by (auto simp: put_planned_def split: sum.splits if_splits)

lemma planned_models [simp]: "planned env cs (db\<lparr>db_models := ms\<rparr>) row = planned env cs db row"
  by (simp add: planned_def pool_available_def provider_rows_of_def)

text \<open>How many rows a run stores.\<close>

fun stored ::
  "bool \<Rightarrow> (routing_row \<Rightarrow> ((string \<times> string) \<times> mapped_model) option) \<Rightarrow> routing_row list \<Rightarrow> model_row list \<Rightarrow> nat" where
  "stored ow plan [] ms = 0"
| "stored ow plan (row # rows) ms =
     (if stores ow (plan row) row ms then 1 else 0) + stored ow plan rows (put_planned ow plan row ms)"

lemma import_rows_planned:
  assumes "\<forall>row\<in>set rows. planned env cs db row = Inr (plan row)"
  shows "\<exists>r'. import_rows (calm env) ow cs n rows (db, r) =
      Inr (db\<lparr>db_models := fold (put_planned ow plan) rows (db_models db)\<rparr>, r') \<and>
    ic_new (ir_counts r') = ic_new (ir_counts r) + stored ow plan rows (db_models db)"
  using assms
proof (induction rows arbitrary: n db r)
  case (Cons row rows)
  obtain r1 where row: "import_row (calm env) ow cs n row (db, r) = Inr (db\<lparr>db_models := put_planned ow plan row (db_models db)\<rparr>, r1)"
    "ic_new (ir_counts r1) = ic_new (ir_counts r) + (if stores ow (plan row) row (db_models db) then 1 else 0)"
    by (rule import_row_put [of env cs db row plan ow n r]) (use Cons.prems in auto)
  have "\<forall>row\<in>set rows. planned env cs (db\<lparr>db_models := put_planned ow plan row' (db_models db)\<rparr>) row = Inr (plan row)" for row'
    using Cons.prems by simp
  from Cons.IH [OF this [of row], of "Suc n" r1] show ?case using row by auto
qed auto

lemma import_rows_plans:
  assumes "import_rows (calm env) ow cs n rows (db, r) = Inr st"
  shows "\<forall>row\<in>set rows. \<exists>pm. planned env cs db row = Inr pm"
  using assms
proof (induction rows arbitrary: n db r)
  case (Cons row rows)
  then obtain db1 r1 where row: "import_row (calm env) ow cs n row (db, r) = Inr (db1, r1)"
    "import_rows (calm env) ow cs (Suc n) rows (db1, r1) = Inr st"
    by (auto split: sum.splits)
  then obtain pm where pm: "planned env cs db row = Inr pm"
    using import_row_planned [where env = env and cs = cs and db = db and row = row and ow = ow and n = n and r = r]
    by (auto split: sum.splits)
  obtain r2 where "Inr (db1, r1) = Inr (db\<lparr>db_models := put_planned ow (\<lambda>_. pm) row (db_models db)\<rparr>, r2)"
    by (rule import_row_put [of env cs db row "\<lambda>_. pm" ow n r]) (use pm row in auto)
  then show ?case using Cons.IH [OF row(2)] pm by simp
qed simp

declare not_None_eq [simp del] split_paired_Ex [simp del] split_paired_All [simp del]

lemma stored_overwrite: "stored True plan rows ms = length (filter (\<lambda>row. plan row \<noteq> None) rows)"
  by (induction rows arbitrary: ms) (simp_all add: stores_def)

lemma stored_kept:
  "list_all (\<lambda>row. plan row \<noteq> None \<longrightarrow> listed ms (rr_logical_model row)) rows \<Longrightarrow> stored False plan rows ms = 0"
  by (induction rows) (auto simp: stores_def put_planned_def)

text \<open>The rows that a run writes over, by the last route that names a model.\<close>

definition last_plan ::
  "(routing_row \<Rightarrow> ((string \<times> string) \<times> mapped_model) option) \<Rightarrow> routing_row list \<Rightarrow> string \<Rightarrow>
   ((string \<times> string) \<times> mapped_model) option" where
  "last_plan plan rows i =
     Option.bind (find (\<lambda>row. rr_logical_model row = i \<and> plan row \<noteq> None) (rev rows)) plan"

definition replanned ::
  "(routing_row \<Rightarrow> ((string \<times> string) \<times> mapped_model) option) \<Rightarrow> routing_row list \<Rightarrow> model_row \<Rightarrow> model_row" where
  "replanned plan rows m =
     (case last_plan plan rows (mr_id m) of
        None \<Rightarrow> m
      | Some pm \<Rightarrow> mapped_row (mr_id m) (fst pm) (snd pm) (mr_enabled m))"

lemma last_plan_snoc:
  "last_plan plan (rows @ [row]) i =
     (if rr_logical_model row = i \<and> plan row \<noteq> None then plan row else last_plan plan rows i)"
  by (simp add: last_plan_def)

lemma ids_put_row: "mr_id ` set (put_row i pm ms) = insert i (mr_id ` set ms)"
proof (cases "listed ms i")
  case True
  have "map mr_id (put_row i pm ms) = map mr_id ms" using True by (simp add: put_row_def)
  then have "mr_id ` set (put_row i pm ms) = mr_id ` set ms" by (metis set_map)
  then show ?thesis using True by (auto simp: list_ex_iff)
qed (simp add: put_row_def)

lemma listed_iff: "listed ms i = (i \<in> mr_id ` set ms)"
  by (auto simp: list_ex_iff)

lemma listed_put: "listed (put_planned ow plan row ms) i = (listed ms i \<or> plan row \<noteq> None \<and> rr_logical_model row = i)"
  unfolding listed_iff put_planned_def stores_def by (auto simp: ids_put_row)

lemma listed_fold:
  "listed (fold (put_planned ow plan) rows ms) i =
     (listed ms i \<or> list_ex (\<lambda>row. plan row \<noteq> None \<and> rr_logical_model row = i) rows)"
  by (induction rows arbitrary: ms) (auto simp: listed_put)

lemma fold_put_kept:
  "list_all (\<lambda>row. plan row \<noteq> None \<longrightarrow> listed ms (rr_logical_model row)) rows \<Longrightarrow> fold (put_planned False plan) rows ms = ms"
  by (induction rows) (auto simp: put_planned_def stores_def)

lemma mr_id_replanned [simp]: "mr_id (replanned plan rows m) = mr_id m" "mr_enabled (replanned plan rows m) = mr_enabled m"
  by (simp_all add: replanned_def split: option.split)

lemma fold_put_replanned:
  "list_all (\<lambda>row. plan row \<noteq> None \<longrightarrow> listed ms (rr_logical_model row)) rows \<Longrightarrow>
     fold (put_planned True plan) rows ms = map (replanned plan rows) ms"
proof (induction rows rule: rev_induct)
  case Nil
  then show ?case by (simp add: replanned_def last_plan_def map_idI)
next
  case (snoc row rows)
  then show ?case
    by (auto simp: put_planned_def stores_def put_row_def list_ex_iff replanned_def last_plan_snoc split: option.split)
qed

lemma fold_put_stable:
  "m \<in> set (fold (put_planned True plan) rows ms) \<Longrightarrow> replanned plan rows m = m"
proof (induction rows arbitrary: m rule: rev_induct)
  case Nil
  then show ?case by (simp add: replanned_def last_plan_def)
next
  case (snoc row rows)
  then show ?case
    by (auto simp: put_planned_def stores_def put_row_def replanned_def last_plan_snoc list_ex_iff split: if_splits)
qed

lemma fold_put_listed:
  "list_all (\<lambda>row. plan row \<noteq> None \<longrightarrow> listed (fold (put_planned ow plan) rows ms) (rr_logical_model row)) rows"
  unfolding list_all_iff listed_fold by (auto simp: list_ex_iff)

lemma fold_put_idem:
  "fold (put_planned ow plan) rows (fold (put_planned ow plan) rows ms) = fold (put_planned ow plan) rows ms"
proof (cases ow)
  case True
  then show ?thesis
    using fold_put_replanned [OF fold_put_listed] fold_put_stable [of _ plan rows ms] by (simp add: map_idI)
next
  case False
  then show ?thesis using fold_put_kept [OF fold_put_listed] by simp
qed

declare not_None_eq [simp] split_paired_Ex [simp] split_paired_All [simp]

lemma import_json_rows:
  assumes "import_json env doc ow db = (Inr rep, db')"
  obtains doc_root providers seen cs where "im_parse env doc = Inr doc_root" "as_object doc_root = Some providers"
    "collect_candidates providers ([], []) = Inr (seen, cs)"
    "import_rows env ow cs 0 (filter rr_enabled (db_routing db)) (db, empty_report) = Inr (db', rep)"
  using assms by (auto simp: import_json_def split: sum.splits option.splits prod.splits)


section \<open>What an import stores\<close>

text \<open>The names of the fields of a value, at every depth.\<close>

fun json_keys :: "json \<Rightarrow> string list" where
  "json_keys (JObj m) = map fst m @ concat (map (\<lambda>(_, v). json_keys v) m)"
| "json_keys (JArr a) = concat (map json_keys a)"
| "json_keys _ = []"

abbreviation clean :: "json \<Rightarrow> bool" where
  "clean v \<equiv> list_all (\<lambda>k. \<not> sensitive k) (json_keys v)"

lemma clean_object: "clean (JObj m) \<longleftrightarrow> (\<forall>(k, v)\<in>set m. \<not> sensitive k \<and> clean v)"
  by (induction m) auto

lemma sanitize_clean: "clean (sanitize v)"
proof (induction v rule: sanitize.induct)
  case (1 m)
  then show ?case unfolding sanitize.simps clean_object by (auto split: prod.splits)
qed (auto simp: list_all_iff)

lemma set_obj_insert: "set (obj_insert k v m) \<subseteq> insert (k, v) (set m)"
  by (induction k v m rule: obj_insert.induct) auto

lemma canonical_level_fixed: "canonical_thinking_level w = Some c \<Longrightarrow> canonical_thinking_level c = Some c"
  by (auto simp: canonical_thinking_level_def find_Some_iff thinking_level_order_def split: if_splits)

definition wire_levels :: "json_map \<Rightarrow> bool" where
  "wire_levels m = (\<forall>k v. (k, v) \<in> set m \<longrightarrow> canonical_thinking_level k = Some k \<and> (\<exists>w. v = JStr w))"

lemma wire_levels_insert:
  assumes "wire_levels out" "canonical_thinking_level w = Some c"
  shows "wire_levels (obj_insert c (JStr w) out)"
  unfolding wire_levels_def
proof (intro allI impI)
  fix k v assume "(k, v) \<in> set (obj_insert c (JStr w) out)"
  then have "(k, v) = (c, JStr w) \<or> (k, v) \<in> set out" using set_obj_insert by fast
  then show "canonical_thinking_level k = Some k \<and> (\<exists>w. v = JStr w)"
    using assms canonical_level_fixed by (auto simp: wire_levels_def)
qed

lemma wire_levels_put: "wire_levels out \<Longrightarrow> wire_levels (put_wire_level v out)"
  by (auto simp: put_wire_level_def intro: wire_levels_insert split: option.split)

lemma wire_levels_fold: "wire_levels out \<Longrightarrow> wire_levels (fold put_wire_level values out)"
  by (induction "values" arbitrary: out) (simp_all add: wire_levels_put)

lemma level_not_sensitive: "canonical_thinking_level k = Some k \<Longrightarrow> \<not> sensitive k"
proof -
  have "list_all (\<lambda>c. \<not> sensitive c) thinking_level_order" by code_simp
  then show "canonical_thinking_level k = Some k \<Longrightarrow> \<not> sensitive k"
    by (auto simp: canonical_thinking_level_def find_Some_iff list_all_iff split: if_splits)
qed

lemma thinking_level_map_object:
  assumes "thinking_level_map model = Some v"
  obtains out where "v = JObj out" "wire_levels out"
  using assms wire_levels_fold [of "[]"]
  by (auto simp: thinking_level_map_def Let_def wire_levels_def split: option.splits if_splits)

lemma clean_subset: "clean (JObj m) \<Longrightarrow> set m' \<subseteq> set m \<Longrightarrow> clean (JObj m')"
  unfolding clean_object by (rule ballI) (drule (1) subsetD, drule (1) bspec)

lemma clean_insert:
  assumes "clean (JObj m)" "\<not> sensitive k" "clean v"
  shows "clean (JObj (obj_insert k v m))"
proof -
  have "clean (JObj ((k, v) # m))" using assms unfolding clean_object by simp
  moreover have "set (obj_insert k v m) \<subseteq> set ((k, v) # m)" using set_obj_insert [of k v m] by simp
  ultimately show ?thesis by (rule clean_subset)
qed

lemma map_name_plain: "\<not> sensitive ''thinkingLevelMap''"
  by code_simp

lemma thinking_level_map_clean:
  assumes "thinking_level_map model = Some v"
  shows "clean v"
proof -
  from assms obtain out where out: "v = JObj out" "wire_levels out" by (rule thinking_level_map_object)
  have "\<not> sensitive k \<and> clean u" if "(k, u) \<in> set out" for k u
  proof -
    have "canonical_thinking_level k = Some k" "\<exists>w. u = JStr w" using out(2) that by (auto simp: wire_levels_def)
    then show ?thesis using level_not_sensitive by auto
  qed
  then show ?thesis unfolding out(1) clean_object by blast
qed


text \<open>The spellings of thinking levels a catalogue lists for a model.\<close>

definition effort_texts :: "json list \<Rightarrow> string list" where
  "effort_texts values = filter (\<lambda>s. trim s \<noteq> []) (List.map_filter as_str values)"

definition effort_values :: "json \<Rightarrow> string list" where
  "effort_values model =
     (case Option.bind (jget model ''reasoning_options'') as_array of
        None \<Rightarrow> []
      | Some options \<Rightarrow>
     (case find (\<lambda>opt. Option.bind (jget opt ''type'') as_str = Some ''effort'') options of
        None \<Rightarrow> []
      | Some effort \<Rightarrow>
     (case Option.bind (jget effort ''values'') as_array of
        None \<Rightarrow> []
      | Some values \<Rightarrow> effort_texts values)))"

abbreviation spells :: "string \<Rightarrow> string \<Rightarrow> bool" where
  "spells c w \<equiv> canonical_thinking_level w = Some c"

lemma effort_texts_Cons:
  "effort_texts (v # vs) = (case as_str v of Some w \<Rightarrow> if trim w = [] then effort_texts vs else w # effort_texts vs | None \<Rightarrow> effort_texts vs)"
  by (simp add: effort_texts_def List.map_filter_def split: option.split)

lemma wire_levels_get:
  "map_of (fold put_wire_level vs out) c =
     (case find (spells c) (rev (effort_texts vs)) of Some w \<Rightarrow> Some (JStr w) | None \<Rightarrow> map_of out c)"
proof (induction vs arbitrary: out)
  case Nil
  then show ?case by (simp add: effort_texts_def List.map_filter_def)
next
  case (Cons v vs)
  then show ?case
    by (simp add: effort_texts_Cons find_snoc put_wire_level_def split: option.split)
qed

lemma find_level:
  assumes "wire_levels m"
  shows "find (\<lambda>(k, _). canonical_thinking_level k = Some c) m = map_option (Pair c) (map_of m c)"
  using assms
proof (induction m)
  case (Cons kv m)
  obtain k v where kv: "kv = (k, v)" by fastforce
  have "canonical_thinking_level k = Some k" "wire_levels m"
    using Cons.prems by (auto simp: wire_levels_def kv)
  then show ?case using Cons.IH by (simp add: kv)
qed simp

lemma thinking_level_map_get:
  assumes "thinking_level_map model = Some v"
  obtains out where "v = JObj out" "wire_levels out"
    "\<And>c. map_of out c = map_option JStr (find (spells c) (rev (effort_values model)))"
proof -
  from assms obtain "values" where vs: "v = JObj (fold put_wire_level values [])" "effort_values model = effort_texts values"
    by (auto simp: thinking_level_map_def effort_values_def Let_def split: option.splits if_splits)
  show ?thesis
  proof (rule that [OF vs(1)])
    show "wire_levels (fold put_wire_level values [])" by (rule wire_levels_fold) (simp add: wire_levels_def)
    show "map_of (fold put_wire_level values []) c = map_option JStr (find (spells c) (rev (effort_values model)))" for c
      by (simp add: wire_levels_get vs(2) split: option.split)
  qed
qed

lemma map_of_obj_remove_None: "map_of m k = None \<Longrightarrow> map_of (obj_remove k' m) k = None"
  using set_obj_remove [of k' m] by (auto simp: map_of_eq_None_iff)

lemma metadata_levels:
  assumes "map_of m ''thinkingLevelMap'' = None" "thinking_level_map (JObj m) = Some v"
  shows "jget (safe_metadata (JObj m)) ''thinkingLevelMap'' = Some v"
proof -
  let ?m = "map (\<lambda>(k, v). (k, sanitize v)) (filter (\<lambda>(k, _). \<not> sensitive k) m)"
  have "''thinkingLevelMap'' \<notin> fst ` set ?m" using assms(1) by (auto simp: map_of_eq_None_iff image_iff)
  then have "map_of (obj_remove ''name'' (obj_remove ''id'' ?m)) ''thinkingLevelMap'' = None"
    by (intro map_of_obj_remove_None) (simp add: map_of_eq_None_iff)
  then show ?thesis using assms(2) by (simp add: safe_metadata_def Let_def)
qed


section \<open>A sample catalogue\<close>

definition entry_fields :: json_map where
  "entry_fields =
     [(''limit'', JObj [(''context'', JInt 8), (''output'', JInt 4)]), (''name'', JStr ''G''),
       (''reasoning_options'', JArr [JObj [(''type'', JStr ''effort''), (''values'', JArr [JStr ''none'', JStr ''high''])]])]"

definition sample_entry :: json where
  "sample_entry = JObj entry_fields"

definition sample_catalog :: json_map where
  "sample_catalog = [(''xai'', JObj [(''models'', JObj [(''grok'', sample_entry)])])]"

definition sample_routes :: database where
  "sample_routes =
     empty_database\<lparr>db_pools := [\<lparr>pl_id = ''p'', pl_strategy = [], pl_enabled = True\<rparr>],
       db_providers := [\<lparr>vr_id = ''x'', vr_kind = ''openai'', vr_base_url = [], vr_pool_id = ''p'', vr_enabled = True, vr_metadata = None\<rparr>],
       db_routing := [\<lparr>rr_logical_model = ''grok'', rr_pool_id = ''p'', rr_default_params = None, rr_upstream_model = None, rr_enabled = True\<rparr>]\<rparr>"

lemma sample_catalog_entries:
  "collect_candidates sample_catalog ([], []) =
     Inr ([(''xai'', ''grok'')], [\<lparr>cd_id = ''grok'', cd_provider = ''xai'', cd_value = sample_entry\<rparr>])"
proof -
  have "trim ''grok'' = ''grok''" by (rule trim_graphic) (simp_all add: graphic_def)
  then show ?thesis by (simp add: sample_catalog_def source_id_def sample_entry_def entry_fields_def Let_def)
qed

lemma sample_match: "model_id_matches ''grok'' ''grok''"
  by (simp add: model_id_matches_def)

theorem catalog_match_best_witness:
  "pick_catalog_match [\<lparr>cd_id = ''grok'', cd_provider = ''xai'', cd_value = sample_entry\<rparr>] ''grok'' [(''x'', ''openai'')] =
     Some \<lparr>cd_id = ''grok'', cd_provider = ''xai'', cd_value = sample_entry\<rparr>"
  by (rule catalog_match_best [OF sample_catalog_entries, THEN conjunct2, THEN conjunct1, THEN spec, THEN iffD2])
    (simp add: sample_match)

definition sample_write :: "json \<Rightarrow> string option" where
  "sample_write v = (if v = capabilities_of ''x'' (JObj entry_fields) then Some ''c'' else None)"

lemma trim_name: "trim ''G'' = ''G''"
  by (rule trim_graphic) (simp_all add: graphic_def)

lemma entry_fields_mapped:
  "map_model sample_write ''x'' (JObj entry_fields) = Inr (''G'', False, False, False, 8, 4, None, None, ''c'')"
  by (simp add: map_model_def sample_write_def entry_fields_def trim_name positive_i64_def prices_of_def
      accepts_images_def flag_of_def)

lemma entry_fields_levels:
  "effort_values (JObj entry_fields) = [''none'', ''high'']" "map_of entry_fields ''thinkingLevelMap'' = None"
  "thinking_level_map (JObj entry_fields) \<noteq> None" "canonical_thinking_level ''off'' = Some ''off''"
  "canonical_thinking_level ''none'' = Some ''off''" "canonical_thinking_level ''high'' = Some ''high''"
proof -
  have "trim ''none'' = ''none''" "trim ''high'' = ''high''" by (rule trim_graphic; simp add: graphic_def)+
  then show "effort_values (JObj entry_fields) = [''none'', ''high'']" "thinking_level_map (JObj entry_fields) \<noteq> None"
    by (simp_all add: effort_values_def thinking_level_map_def effort_texts_Cons entry_fields_def put_wire_level_def
        canonical_thinking_level_def thinking_level_order_def effort_texts_def List.map_filter_def)
qed (simp_all add: entry_fields_def canonical_thinking_level_def thinking_level_order_def)

lemma sample_write_parse: "\<forall>v t. sample_write v = Some t \<longrightarrow> Inr (capabilities_of ''x'' (JObj entry_fields)) = (Inr v :: string + json)"
  by (simp add: sample_write_def)


definition sample_import :: import_env where
  "sample_import =
     \<lparr>im_parse = (\<lambda>_. Inr (JObj sample_catalog)), im_jwrite = sample_write, im_fault = (\<lambda>_. None),
      im_error_text = (\<lambda>_. []), im_read_file = Inr, im_http_client = None, im_http_get = (\<lambda>_. Inl []),
      im_show_status = (\<lambda>_. [])\<rparr>"

lemma sample_entry_picked:
  "pick_catalog_match [\<lparr>cd_id = ''grok'', cd_provider = ''xai'', cd_value = sample_entry\<rparr>] ''grok'' rs =
     Some \<lparr>cd_id = ''grok'', cd_provider = ''xai'', cd_value = sample_entry\<rparr>"
  by (simp add: pick_catalog_match_entry pick_entry_simps sample_match)

lemma sample_first_import:
  "\<exists>rep db'. import_json sample_import [] True sample_routes = (Inr rep, db') \<and> ic_new (ir_counts rep) = 1"
  by (simp add: import_json_def sample_import_def sample_catalog_entries sample_routes_def empty_database_def import_row_def
      Let_def pool_available_def provider_rows_of_def catalog_name_def nonempty_def sample_entry_picked pick_local_provider_def
      entry_fields_mapped [folded sample_entry_def] store_model_put note_new_def empty_report_def)


end
