(* ===== verification/Spec2Isabelle.thy ===== *)
theory Spec2Isabelle
  imports Response_Normalize Key_Router Circuit_Breaker Rate_Limiter Concurrency_Limiter Prompt_Cache Pricing Client_Auth Gateway_Config Audit_Facts Upstream_Http Stream_Inspector Anthropic_Stream Gemini_Stream Stream_Normalize Failover Config_Transfer Gateway_Tasks Model_Import
begin

text \<open>
  A verification development of the LLM gateway.
\<close>

end
